(* ===== verification/Prelude.thy ===== *)
theory Prelude
  imports Main
begin

text \<open>
  The shared vocabulary of the development: Go strings and byte slices, Go times, the error
  codes of the server, and the generic facts about lists read and updated the way the SQL
  statements of the store read and update tables.

  A Go string or byte slice is a list of bytes, and Isabelle's \<open>char\<close> is a byte, so both
  are \<open>string\<close>.  A \<open>time.Time\<close> is its number of nanoseconds since the Unix epoch, an
  unbounded integer (Go's own range, years 1 to 9999 and beyond, is never left by the
  program's additions of at most ten years).
\<close>

section \<open>Bytes and times\<close>

type_synonym bytes = string
type_synonym time = int

definition second :: time where
  "second = 1000000000"

definition minute :: time where
  "minute = 60 * second"

definition hour :: time where
  "hour = 3600 * second"

definition day :: time where
  "day = 24 * hour"

text \<open>\<open>t.Unix()\<close>: whole seconds, rounded down.\<close>

definition unix :: "time \<Rightarrow> int" where
  "unix t = t div second"

text \<open>The zero value of \<open>time.Time\<close>: January 1 of year 1.\<close>

definition zero_time :: time where
  "zero_time = - 62135596800 * second"

text \<open>\<open>t.After(u)\<close> and \<open>t.Before(u)\<close>.\<close>

definition after :: "time \<Rightarrow> time \<Rightarrow> bool" where
  "after t u \<longleftrightarrow> u < t"

definition before :: "time \<Rightarrow> time \<Rightarrow> bool" where
  "before t u \<longleftrightarrow> t < u"

lemmas time_defs = second_def minute_def hour_def day_def after_def before_def zero_time_def

lemma unix_mono: "s \<le> t \<Longrightarrow> unix s \<le> unix t"
  by (simp add: unix_def second_def zdiv_mono1)

lemma unix_add_second: "unix (t + k * second) = unix t + k"
  by (simp add: unix_def second_def)

lemma unix_add_minute [simp]: "unix (t + minute) = unix t + 60"
  using unix_add_second [of t 60] by (simp add: minute_def)

lemma unix_add_minutes [simp]: "unix (t + k * minute) = unix t + 60 * k"
  using unix_add_second [of t "60 * k"] by (simp add: minute_def mult_ac)

section \<open>Errors\<close>

text \<open>
  \<open>errors.New("p2p....")\<close> is \<open>P2p\<close> of its text; every other error of the program is a raw
  one, from the database (no row, a violated constraint, a failed statement or commit) or from
  another library, whose text never starts with \<open>p2p.\<close>.
\<close>

datatype err =
    P2p string     \<comment> \<open>an error the program made itself\<close>
  | No_rows        \<comment> \<open>\<open>sql.ErrNoRows\<close>\<close>
  | Db_error       \<comment> \<open>a violated constraint, a failed statement or a failed commit\<close>
  | Lib_error      \<comment> \<open>any error of another library, passed on as it is\<close>

section \<open>Collections of facts\<close>

named_theorems wp_simps "weakest preconditions of the store actions"
named_theorems row_simps "membership in tables after a statement"
named_theorems query_defs "definitions of read-only queries"

section \<open>Tables as lists\<close>

text \<open>
  \<open>UPDATE t SET f WHERE P\<close>, and the number of rows it touches (\<open>RowsAffected\<close>).
\<close>

definition update_where :: "('r \<Rightarrow> bool) \<Rightarrow> ('r \<Rightarrow> 'r) \<Rightarrow> 'r list \<Rightarrow> 'r list" where
  "update_where P f rs = map (\<lambda>r. if P r then f r else r) rs"

definition count_where :: "('r \<Rightarrow> bool) \<Rightarrow> 'r list \<Rightarrow> nat" where
  "count_where P rs = length (filter P rs)"

lemma set_update_where [row_simps]:
  "set (update_where P f rs) = f ` {r \<in> set rs. P r} \<union> {r \<in> set rs. \<not> P r}"
  by (auto simp: update_where_def image_iff split: if_splits)

lemma in_update_where:
  "r \<in> set (update_where P f rs) \<longleftrightarrow>
     (\<exists>q \<in> set rs. r = (if P q then f q else q))"
  by (auto simp: update_where_def)

lemma ball_update_where:
  "(\<forall>r \<in> set (update_where P f rs). Q r) \<longleftrightarrow>
     (\<forall>r \<in> set rs. Q (if P r then f r else r))"
  by (auto simp: update_where_def)

lemma bex_update_where:
  "(\<exists>r \<in> set (update_where P f rs). Q r) \<longleftrightarrow>
     (\<exists>r \<in> set rs. Q (if P r then f r else r))"
  by (auto simp: update_where_def)

lemma length_update_where [simp]: "length (update_where P f rs) = length rs"
  by (simp add: update_where_def)

lemma update_where_Nil [simp]: "update_where P f [] = []"
  by (simp add: update_where_def)

lemma update_where_Cons [simp]:
  "update_where P f (r # rs) = (if P r then f r else r) # update_where P f rs"
  by (simp add: update_where_def)

lemma map_update_where:
  "(\<And>r. P r \<Longrightarrow> g (f r) = g r) \<Longrightarrow> map g (update_where P f rs) = map g rs"
  by (simp add: update_where_def)

lemma image_update_where:
  "(\<And>r. P r \<Longrightarrow> k (f r) = k r) \<Longrightarrow> k ` set (update_where P f rs) = k ` set rs"
  using map_update_where [of P k f rs] by (metis image_set)

lemma update_where_none: "count_where P rs = 0 \<Longrightarrow> update_where P f rs = rs"
  by (induction rs) (auto simp: count_where_def split: if_splits)

lemma count_where_0: "count_where P rs = 0 \<longleftrightarrow> (\<forall>r \<in> set rs. \<not> P r)"
  by (auto simp: count_where_def filter_empty_conv)

lemma count_where_pos: "0 < count_where P rs \<longleftrightarrow> (\<exists>r \<in> set rs. P r)"
  using count_where_0 [of P rs] by auto

lemma count_where_Nil [simp]: "count_where P [] = 0"
  by (simp add: count_where_def)

lemma count_where_Cons [simp]:
  "count_where P (r # rs) = (if P r then Suc (count_where P rs) else count_where P rs)"
  by (simp add: count_where_def)

lemma count_where_append [simp]:
  "count_where P (rs @ qs) = count_where P rs + count_where P qs"
  by (simp add: count_where_def)

lemma count_update_where:
  "count_where Q (update_where P f rs) = count_where (\<lambda>r. Q (if P r then f r else r)) rs"
  by (induction rs) auto

lemma count_where_mono:
  "(\<And>r. r \<in> set rs \<Longrightarrow> P r \<Longrightarrow> Q r) \<Longrightarrow> count_where P rs \<le> count_where Q rs"
  by (induction rs) (auto simp: le_SucI)

lemma count_where_or:
  "count_where (\<lambda>r. P r \<or> Q r) rs \<le> count_where P rs + count_where Q rs"
  by (induction rs) auto

text \<open>The rows of a \<open>SELECT\<close> written as a comprehension.\<close>

lemma in_concat_map: "x \<in> set (concat (map f rs)) \<longleftrightarrow> (\<exists>r \<in> set rs. x \<in> set (f r))"
  by auto

lemma in_if_single: "x \<in> set (if c then [y] else []) \<longleftrightarrow> c \<and> x = y"
  by auto

lemmas select_simps = in_concat_map in_if_single

lemma hd_in: "xs = y # ys \<Longrightarrow> y \<in> set xs"
  by simp

text \<open>A key that is unique in a table picks one row.\<close>

lemma distinct_key_eq:
  "distinct (map k rs) \<Longrightarrow> r \<in> set rs \<Longrightarrow> q \<in> set rs \<Longrightarrow> k r = k q \<Longrightarrow> r = q"
  by (auto simp: distinct_map inj_on_def)

lemma count_key_le_1: "distinct (map k rs) \<Longrightarrow> count_where (\<lambda>r. k r = x \<and> P r) rs \<le> 1"
proof (induction rs)
  case (Cons r rs)
  then show ?case
  proof (cases "k r = x \<and> P r")
    case True
    with Cons.prems have "count_where (\<lambda>r. k r = x \<and> P r) rs = 0"
      by (auto simp: count_where_0 image_iff)
    with True show ?thesis by simp
  qed auto
qed simp

lemma count_key_1_iff:
  "distinct (map k rs) \<Longrightarrow>
   count_where (\<lambda>r. k r = x \<and> P r) rs = 1 \<longleftrightarrow> (\<exists>r \<in> set rs. k r = x \<and> P r)"
  using count_key_le_1 [of k rs x P] count_where_pos [of "\<lambda>r. k r = x \<and> P r" rs] by auto

end
