(* ===== verification/Database.thy ===== *)
theory Database
  imports Prelude
begin

text \<open>
  The SQLite database of the coordinator (\<open>store.go\<close>): one record per row type of the schema,
  one list per table in rowid order, the effect of every kind of statement the store executes,
  and the action monad in which the store's methods are written.

  SQLite itself is not part of the repository.  What the store relies on is stated here as the
  meaning of its statements: a \<open>SELECT\<close> is a comprehension over the tables, an \<open>INSERT\<close>
  checks the \<open>PRIMARY KEY\<close>, \<open>UNIQUE\<close> and \<open>REFERENCES\<close> clauses of the schema (the
  connection sets \<open>foreign_keys(1)\<close>), an \<open>UPDATE\<close> rewrites the rows its \<open>WHERE\<close> clause
  selects and reports how many there were, and a transaction that does not commit leaves the
  database as it was.  Any statement may fail for a reason outside the model (disk, lock): the
  store carries a list of booleans, its fault schedule, from which each statement takes the next
  one.  A theorem that quantifies over the store therefore covers every pattern of failures.
\<close>

section \<open>Rows and tables\<close>

datatype pair_state = Invited | Approved | Active | Rejected | Revoked

record user_row =
  u_id :: string
  u_email :: string
  u_hash :: bytes
  u_disabled :: bool

record session_row =
  us_hash :: string
  us_user :: string
  us_expires :: int

record network_row =
  n_id :: string
  n_user :: string
  n_name :: string
  n_deleted :: bool
  n_max :: int

record token_row =
  t_hash :: string
  t_user :: string
  t_network :: string
  t_expires :: int
  t_used :: bool

record device_row =
  d_id :: string
  d_user :: string
  d_key :: bytes
  d_name :: string
  d_cert :: bytes
  d_revoked :: bool
  d_request :: string
  d_last_seen :: int
  d_version :: string
  d_platform :: string
  d_arch :: string

record binding_row =
  b_network :: string
  b_device :: string
  b_active :: bool

record share_row =
  s_nonce :: string
  s_device :: string
  s_network :: string
  s_expires :: int
  s_used :: bool

record pair_row =
  p_id :: string
  p_network :: string
  p_initiator :: string
  p_target :: string
  p_state :: pair_state
  p_expires :: int
  p_revision :: nat

record renewal_row =
  r_device :: string
  r_request :: string
  r_cert :: bytes

record audit_row =
  a_event :: string
  a_subject :: string
  a_at :: int

record db =
  users :: "user_row list"
  user_sessions :: "session_row list"
  networks :: "network_row list"
  tokens :: "token_row list"
  devices :: "device_row list"
  device_users :: "(string \<times> string) list"
  bindings :: "binding_row list"
  shares :: "share_row list"
  pairs :: "pair_row list"
  renewals :: "renewal_row list"
  audit :: "audit_row list"

definition empty_db :: db where
  "empty_db = \<lparr>users = [], user_sessions = [], networks = [], tokens = [], devices = [],
     device_users = [], bindings = [], shares = [], pairs = [], renewals = [], audit = []\<rparr>"

text \<open>
  The life of a pair only moves forward: the states are ordered by their position in it, so
  that ``no operation takes a pair back'' is an inequality.
\<close>

fun stage :: "pair_state \<Rightarrow> nat" where
  "stage Invited = 0"
| "stage Approved = 1"
| "stage Active = 2"
| "stage Rejected = 3"
| "stage Revoked = 4"

lemma stage_inj: "stage x = stage y \<Longrightarrow> x = y"
  by (cases x; cases y) simp_all

instantiation pair_state :: linorder
begin

definition less_eq_pair_state :: "pair_state \<Rightarrow> pair_state \<Rightarrow> bool" where
  "x \<le> y \<longleftrightarrow> stage x \<le> stage y"

definition less_pair_state :: "pair_state \<Rightarrow> pair_state \<Rightarrow> bool" where
  "x < y \<longleftrightarrow> stage x < stage y"

instance
  by standard (auto simp: less_eq_pair_state_def less_pair_state_def intro: stage_inj)

end

lemma Revoked_top [simp]: "x \<le> Revoked"
  by (cases x) (simp_all add: less_eq_pair_state_def)

lemma Revoked_le [simp]: "Revoked \<le> x \<longleftrightarrow> x = Revoked"
  by (cases x) (simp_all add: less_eq_pair_state_def)

text \<open>\<open>state IN ('invited','approved','active')\<close>.\<close>

definition live :: "pair_state \<Rightarrow> bool" where
  "live st \<longleftrightarrow> st = Invited \<or> st = Approved \<or> st = Active"

lemma live_simps [simp]:
  "live Invited" "live Approved" "live Active" "\<not> live Rejected" "\<not> live Revoked"
  by (simp_all add: live_def)

section \<open>Insertions with the constraints of the schema\<close>

definition ins_user :: "user_row \<Rightarrow> db \<Rightarrow> db option" where
  "ins_user r d =
     (if u_id r \<in> u_id ` set (users d) \<or> u_email r \<in> u_email ` set (users d) then None
      else Some (d\<lparr>users := users d @ [r]\<rparr>))"

definition ins_session :: "session_row \<Rightarrow> db \<Rightarrow> db option" where
  "ins_session r d =
     (if us_hash r \<in> us_hash ` set (user_sessions d) \<or> us_user r \<notin> u_id ` set (users d) then None
      else Some (d\<lparr>user_sessions := user_sessions d @ [r]\<rparr>))"

definition ins_network :: "network_row \<Rightarrow> db \<Rightarrow> db option" where
  "ins_network r d =
     (if n_id r \<in> n_id ` set (networks d) \<or> n_user r \<notin> u_id ` set (users d) then None
      else Some (d\<lparr>networks := networks d @ [r]\<rparr>))"

definition ins_token :: "token_row \<Rightarrow> db \<Rightarrow> db option" where
  "ins_token r d =
     (if t_hash r \<in> t_hash ` set (tokens d) \<or> t_user r \<notin> u_id ` set (users d)
         \<or> t_network r \<notin> n_id ` set (networks d) then None
      else Some (d\<lparr>tokens := tokens d @ [r]\<rparr>))"

definition ins_device :: "device_row \<Rightarrow> db \<Rightarrow> db option" where
  "ins_device r d =
     (if d_id r \<in> d_id ` set (devices d) \<or> d_key r \<in> d_key ` set (devices d)
         \<or> d_request r \<in> d_request ` set (devices d) \<or> d_user r \<notin> u_id ` set (users d) then None
      else Some (d\<lparr>devices := devices d @ [r]\<rparr>))"

text \<open>\<open>ON CONFLICT(device_id,user_id) DO NOTHING\<close>.\<close>

definition link_device :: "string \<Rightarrow> string \<Rightarrow> db \<Rightarrow> db option" where
  "link_device dev usr d =
     (if (dev, usr) \<in> set (device_users d) then Some d
      else if dev \<notin> d_id ` set (devices d) \<or> usr \<notin> u_id ` set (users d) then None
      else Some (d\<lparr>device_users := device_users d @ [(dev, usr)]\<rparr>))"

text \<open>\<open>ON CONFLICT(network_id,device_id) DO UPDATE SET active=1\<close>.\<close>

definition bind_active :: "string \<Rightarrow> string \<Rightarrow> db \<Rightarrow> db option" where
  "bind_active net dev d =
     (if (net, dev) \<in> (\<lambda>b. (b_network b, b_device b)) ` set (bindings d)
      then Some (d\<lparr>bindings := update_where (\<lambda>b. b_network b = net \<and> b_device b = dev)
                     (\<lambda>b. b\<lparr>b_active := True\<rparr>) (bindings d)\<rparr>)
      else if net \<notin> n_id ` set (networks d) \<or> dev \<notin> d_id ` set (devices d) then None
      else Some (d\<lparr>bindings := bindings d @ [\<lparr>b_network = net, b_device = dev, b_active = True\<rparr>]\<rparr>))"

definition ins_share :: "share_row \<Rightarrow> db \<Rightarrow> db option" where
  "ins_share r d =
     (if s_nonce r \<in> s_nonce ` set (shares d) \<or> s_device r \<notin> d_id ` set (devices d)
         \<or> s_network r \<notin> n_id ` set (networks d) then None
      else Some (d\<lparr>shares := shares d @ [r]\<rparr>))"

definition ins_pair :: "pair_row \<Rightarrow> db \<Rightarrow> db option" where
  "ins_pair r d =
     (if p_id r \<in> p_id ` set (pairs d) \<or> p_network r \<notin> n_id ` set (networks d)
         \<or> p_initiator r \<notin> d_id ` set (devices d) \<or> p_target r \<notin> d_id ` set (devices d) then None
      else Some (d\<lparr>pairs := pairs d @ [r]\<rparr>))"

definition ins_renewal :: "renewal_row \<Rightarrow> db \<Rightarrow> db option" where
  "ins_renewal r d =
     (if (r_device r, r_request r) \<in> (\<lambda>q. (r_device q, r_request q)) ` set (renewals d)
         \<or> r_device r \<notin> d_id ` set (devices d) then None
      else Some (d\<lparr>renewals := renewals d @ [r]\<rparr>))"

definition ins_audit :: "string \<Rightarrow> string \<Rightarrow> int \<Rightarrow> db \<Rightarrow> db option" where
  "ins_audit event subject at d =
     Some (d\<lparr>audit := audit d @ [\<lparr>a_event = event, a_subject = subject, a_at = at\<rparr>]\<rparr>)"

lemmas ins_defs = ins_user_def ins_session_def ins_network_def ins_token_def ins_device_def
  link_device_def bind_active_def ins_share_def ins_pair_def ins_renewal_def ins_audit_def

section \<open>Updates\<close>

definition upd_users :: "(user_row \<Rightarrow> bool) \<Rightarrow> (user_row \<Rightarrow> user_row) \<Rightarrow> db \<Rightarrow> db \<times> nat" where
  "upd_users P f d = (d\<lparr>users := update_where P f (users d)\<rparr>, count_where P (users d))"

definition del_sessions :: "(session_row \<Rightarrow> bool) \<Rightarrow> db \<Rightarrow> db \<times> nat" where
  "del_sessions P d =
     (d\<lparr>user_sessions := filter (\<lambda>r. \<not> P r) (user_sessions d)\<rparr>, count_where P (user_sessions d))"

definition upd_networks ::
  "(network_row \<Rightarrow> bool) \<Rightarrow> (network_row \<Rightarrow> network_row) \<Rightarrow> db \<Rightarrow> db \<times> nat" where
  "upd_networks P f d = (d\<lparr>networks := update_where P f (networks d)\<rparr>, count_where P (networks d))"

definition upd_tokens :: "(token_row \<Rightarrow> bool) \<Rightarrow> (token_row \<Rightarrow> token_row) \<Rightarrow> db \<Rightarrow> db \<times> nat" where
  "upd_tokens P f d = (d\<lparr>tokens := update_where P f (tokens d)\<rparr>, count_where P (tokens d))"

definition upd_devices :: "(device_row \<Rightarrow> bool) \<Rightarrow> (device_row \<Rightarrow> device_row) \<Rightarrow> db \<Rightarrow> db \<times> nat" where
  "upd_devices P f d = (d\<lparr>devices := update_where P f (devices d)\<rparr>, count_where P (devices d))"

definition upd_bindings ::
  "(binding_row \<Rightarrow> bool) \<Rightarrow> (binding_row \<Rightarrow> binding_row) \<Rightarrow> db \<Rightarrow> db \<times> nat" where
  "upd_bindings P f d = (d\<lparr>bindings := update_where P f (bindings d)\<rparr>, count_where P (bindings d))"

definition upd_shares :: "(share_row \<Rightarrow> bool) \<Rightarrow> (share_row \<Rightarrow> share_row) \<Rightarrow> db \<Rightarrow> db \<times> nat" where
  "upd_shares P f d = (d\<lparr>shares := update_where P f (shares d)\<rparr>, count_where P (shares d))"

definition upd_pairs :: "(pair_row \<Rightarrow> bool) \<Rightarrow> (pair_row \<Rightarrow> pair_row) \<Rightarrow> db \<Rightarrow> db \<times> nat" where
  "upd_pairs P f d = (d\<lparr>pairs := update_where P f (pairs d)\<rparr>, count_where P (pairs d))"

lemmas upd_defs = upd_users_def del_sessions_def upd_networks_def upd_tokens_def upd_devices_def
  upd_bindings_def upd_shares_def upd_pairs_def

text \<open>\<open>SET state=?,revision=revision+1\<close>, the assignment of every statement that moves a pair.\<close>

definition set_state :: "pair_state \<Rightarrow> pair_row \<Rightarrow> pair_row" where
  "set_state st p = p\<lparr>p_state := st, p_revision := p_revision p + 1\<rparr>"

lemma set_state_simps [simp]:
  "p_id (set_state st p) = p_id p" "p_network (set_state st p) = p_network p"
  "p_initiator (set_state st p) = p_initiator p" "p_target (set_state st p) = p_target p"
  "p_state (set_state st p) = st" "p_expires (set_state st p) = p_expires p"
  "p_revision (set_state st p) = p_revision p + 1"
  by (simp_all add: set_state_def)

section \<open>The store and its actions\<close>

text \<open>
  The fields of \<open>Store\<close>: the database, the signing key, the CA certificate, the service id,
  the number of logins in flight (the buffered channel \<open>logins\<close>) and the hash compared for an
  unknown account; and the fault schedule of the model.
\<close>

record store =
  st_db :: db
  st_faults :: "bool list"
  st_key :: bytes
  st_CA :: bytes
  st_serviceID :: string
  st_logins :: nat
  st_unknownPassword :: bytes

text \<open>
  An action is a Go method with an error result: it takes the state and returns an error or a value,
  and the new state.  The methods of the store act on the store, or on a record that extends it.
\<close>

type_synonym ('s, 'a) action = "'s \<Rightarrow> (err + 'a) \<times> 's"
type_synonym ('z, 'a) act = "('z store_scheme, 'a) action"

definition ret :: "'a \<Rightarrow> ('s, 'a) action" where
  "ret x s = (Inr x, s)"

definition throw :: "err \<Rightarrow> ('s, 'a) action" where
  "throw e s = (Inl e, s)"

text \<open>\<open>x, err := m; if err != nil { return err }; f x\<close>.\<close>

definition bnd :: "('s, 'a) action \<Rightarrow> ('a \<Rightarrow> ('s, 'b) action) \<Rightarrow> ('s, 'b) action" where
  "bnd m f s = (case m s of (Inl e, t) \<Rightarrow> (Inl e, t) | (Inr x, t) \<Rightarrow> f x t)"

text \<open>\<open>if !c { return errors.New(e) }; m\<close>.\<close>

definition guard :: "bool \<Rightarrow> string \<Rightarrow> ('s, 'a) action \<Rightarrow> ('s, 'a) action" where
  "guard c e m = (if c then m else throw (P2p e))"

text \<open>\<open>if err != nil { return errors.New(...) }\<close>, and a call whose error the code inspects.\<close>

definition mapErr :: "(err \<Rightarrow> err) \<Rightarrow> ('s, 'a) action \<Rightarrow> ('s, 'a) action" where
  "mapErr g m s = (case m s of (Inl e, t) \<Rightarrow> (Inl (g e), t) | (Inr x, t) \<Rightarrow> (Inr x, t))"

definition attempt :: "('s, 'a) action \<Rightarrow> ('s, err + 'a) action" where
  "attempt m s = (case m s of (r, t) \<Rightarrow> (Inr r, t))"

text \<open>A method that reads a field of the store.\<close>

definition withStore :: "('s \<Rightarrow> ('s, 'a) action) \<Rightarrow> ('s, 'a) action" where
  "withStore f s = f s s"

text \<open>An assignment to a field of the receiver, for records that extend the store.\<close>

definition modify :: "('s \<Rightarrow> 's) \<Rightarrow> ('s, unit) action" where
  "modify f s = (Inr (), f s)"

definition faulty :: "'z store_scheme \<Rightarrow> bool" where
  "faulty s \<longleftrightarrow> (case st_faults s of [] \<Rightarrow> False | f # _ \<Rightarrow> f)"

definition tick :: "'z store_scheme \<Rightarrow> 'z store_scheme" where
  "tick s = s\<lparr>st_faults := tl (st_faults s)\<rparr>"

text \<open>\<open>db.Query\<close> with all its rows, and \<open>db.QueryRow(...).Scan\<close>, the first row or
  \<open>sql.ErrNoRows\<close>.\<close>

definition query :: "(db \<Rightarrow> 'a) \<Rightarrow> ('z, 'a) act" where
  "query q s = (if faulty s then (Inl Db_error, tick s) else (Inr (q (st_db s)), tick s))"

definition queryRow :: "(db \<Rightarrow> 'a list) \<Rightarrow> ('z, 'a) act" where
  "queryRow q s =
     (if faulty s then (Inl Db_error, tick s)
      else case q (st_db s) of [] \<Rightarrow> (Inl No_rows, tick s) | x # _ \<Rightarrow> (Inr x, tick s))"

text \<open>\<open>Exec\<close>: an insertion (which may violate a constraint) and an update, whose value is
  \<open>RowsAffected\<close>.\<close>

definition execInsert :: "(db \<Rightarrow> db option) \<Rightarrow> ('z, unit) act" where
  "execInsert g s =
     (if faulty s then (Inl Db_error, tick s)
      else case g (st_db s) of
        None \<Rightarrow> (Inl Db_error, tick s)
      | Some d \<Rightarrow> (Inr (), (tick s)\<lparr>st_db := d\<rparr>))"

definition execUpdate :: "(db \<Rightarrow> db \<times> nat) \<Rightarrow> ('z, nat) act" where
  "execUpdate g s =
     (if faulty s then (Inl Db_error, tick s)
      else case g (st_db s) of (d, n) \<Rightarrow> (Inr n, (tick s)\<lparr>st_db := d\<rparr>))"

text \<open>\<open>INSERT ... SELECT\<close>: it may violate a constraint, and reports how many rows it inserted.\<close>

definition execSelect :: "(db \<Rightarrow> (db \<times> nat) option) \<Rightarrow> ('z, nat) act" where
  "execSelect g s =
     (if faulty s then (Inl Db_error, tick s)
      else case g (st_db s) of
        None \<Rightarrow> (Inl Db_error, tick s)
      | Some (d, n) \<Rightarrow> (Inr n, (tick s)\<lparr>st_db := d\<rparr>))"

text \<open>
  \<open>tx, err := db.Begin(); defer tx.Rollback(); ...\<close>: the body ends with \<open>tx.Commit()\<close>, with a
  return that leaves the roll-back to the deferred call, or with an error (also rolled back).
\<close>

datatype 'a outcome = Commit 'a | Rollback 'a

definition transaction :: "('z, 'a outcome) act \<Rightarrow> ('z, 'a) act" where
  "transaction m s =
     (if faulty s then (Inl Db_error, tick s)
      else case m (tick s) of
        (Inl e, t) \<Rightarrow> (Inl e, t\<lparr>st_db := st_db s\<rparr>)
      | (Inr (Rollback x), t) \<Rightarrow> (Inr x, t\<lparr>st_db := st_db s\<rparr>)
      | (Inr (Commit x), t) \<Rightarrow>
          if faulty t then (Inl Db_error, (tick t)\<lparr>st_db := st_db s\<rparr>) else (Inr x, tick t))"

lemmas act_defs = ret_def throw_def bnd_def guard_def mapErr_def attempt_def withStore_def query_def
  queryRow_def execInsert_def execUpdate_def execSelect_def transaction_def

lemma tick_simps [simp]:
  "st_db (tick s) = st_db s" "st_key (tick s) = st_key s" "st_CA (tick s) = st_CA s"
  "st_serviceID (tick s) = st_serviceID s" "st_logins (tick s) = st_logins s"
  "st_unknownPassword (tick s) = st_unknownPassword s" "store.more (tick s) = store.more s"
  by (simp_all add: tick_def)

section \<open>Weakest preconditions\<close>

text \<open>
  \<open>wp m Q E s\<close>: running \<open>m\<close> from \<open>s\<close> ends in \<open>Q\<close> if it returns a value and in
  \<open>E\<close> if it returns an error.  Every action has an equation for it, collected in
  \<open>wp_simps\<close>, so that a method's behaviour is computed by the simplifier.
\<close>

definition wp ::
  "('s, 'a) action \<Rightarrow> ('a \<Rightarrow> 's \<Rightarrow> bool) \<Rightarrow> (err \<Rightarrow> 's \<Rightarrow> bool) \<Rightarrow> 's \<Rightarrow> bool" where
  "wp m Q E s \<longleftrightarrow> (case m s of (Inl e, t) \<Rightarrow> E e t | (Inr x, t) \<Rightarrow> Q x t)"

lemma wp_ret [wp_simps]: "wp (ret x) Q E s \<longleftrightarrow> Q x s"
  by (simp add: wp_def ret_def)

lemma wp_throw [wp_simps]: "wp (throw e) Q E s \<longleftrightarrow> E e s"
  by (simp add: wp_def throw_def)

lemma wp_bnd [wp_simps]: "wp (bnd m f) Q E s \<longleftrightarrow> wp m (\<lambda>x. wp (f x) Q E) E s"
  by (auto simp: wp_def bnd_def split: prod.splits sum.splits)

lemma wp_guard [wp_simps]:
  "wp (guard c e m) Q E s \<longleftrightarrow> (c \<longrightarrow> wp m Q E s) \<and> (\<not> c \<longrightarrow> E (P2p e) s)"
  by (simp add: guard_def wp_throw)

lemma wp_if [wp_simps]: "wp (if c then m else n) Q E s \<longleftrightarrow> (if c then wp m Q E s else wp n Q E s)"
  by simp

lemma wp_mapErr [wp_simps]: "wp (mapErr g m) Q E s \<longleftrightarrow> wp m Q (\<lambda>e. E (g e)) s"
  by (auto simp: wp_def mapErr_def split: prod.splits sum.splits)

lemma wp_attempt [wp_simps]:
  "wp (attempt m) Q E s \<longleftrightarrow> wp m (\<lambda>x. Q (Inr x)) (\<lambda>e. Q (Inl e)) s"
  by (auto simp: wp_def attempt_def split: prod.splits sum.splits)

lemma wp_withStore [wp_simps]: "wp (withStore f) Q E s \<longleftrightarrow> wp (f s) Q E s"
  by (simp add: wp_def withStore_def)

lemma wp_modify [wp_simps]: "wp (modify f) Q E s \<longleftrightarrow> Q () (f s)"
  by (simp add: wp_def modify_def)

lemma wp_query [wp_simps]:
  "wp (query q) Q E s \<longleftrightarrow>
     (faulty s \<longrightarrow> E Db_error (tick s)) \<and> (\<not> faulty s \<longrightarrow> Q (q (st_db s)) (tick s))"
  by (simp add: wp_def query_def)

lemma wp_queryRow [wp_simps]:
  "wp (queryRow q) Q E s \<longleftrightarrow>
     (faulty s \<longrightarrow> E Db_error (tick s)) \<and>
     (\<not> faulty s \<longrightarrow> (q (st_db s) = [] \<longrightarrow> E No_rows (tick s)) \<and>
        (\<forall>x xs. q (st_db s) = x # xs \<longrightarrow> Q x (tick s)))"
  by (auto simp: wp_def queryRow_def split: list.splits)

lemma wp_execInsert [wp_simps]:
  "wp (execInsert g) Q E s \<longleftrightarrow>
     (faulty s \<longrightarrow> E Db_error (tick s)) \<and>
     (\<not> faulty s \<longrightarrow> (g (st_db s) = None \<longrightarrow> E Db_error (tick s)) \<and>
        (\<forall>d. g (st_db s) = Some d \<longrightarrow> Q () ((tick s)\<lparr>st_db := d\<rparr>)))"
  by (auto simp: wp_def execInsert_def split: option.splits)

lemma wp_execUpdate [wp_simps]:
  "wp (execUpdate g) Q E s \<longleftrightarrow>
     (faulty s \<longrightarrow> E Db_error (tick s)) \<and>
     (\<not> faulty s \<longrightarrow> Q (snd (g (st_db s))) ((tick s)\<lparr>st_db := fst (g (st_db s))\<rparr>))"
  by (simp add: wp_def execUpdate_def split: prod.splits)

lemma wp_execSelect [wp_simps]:
  "wp (execSelect g) Q E s \<longleftrightarrow>
     (faulty s \<longrightarrow> E Db_error (tick s)) \<and>
     (\<not> faulty s \<longrightarrow> (g (st_db s) = None \<longrightarrow> E Db_error (tick s)) \<and>
        (\<forall>d n. g (st_db s) = Some (d, n) \<longrightarrow> Q n ((tick s)\<lparr>st_db := d\<rparr>)))"
  by (auto simp: wp_def execSelect_def split: option.splits)

lemma wp_transaction [wp_simps]:
  "wp (transaction m) Q E s \<longleftrightarrow>
     (faulty s \<longrightarrow> E Db_error (tick s)) \<and>
     (\<not> faulty s \<longrightarrow>
        wp m (\<lambda>r t. case r of
                 Commit x \<Rightarrow> (faulty t \<longrightarrow> E Db_error ((tick t)\<lparr>st_db := st_db s\<rparr>)) \<and>
                              (\<not> faulty t \<longrightarrow> Q x (tick t))
               | Rollback x \<Rightarrow> Q x (t\<lparr>st_db := st_db s\<rparr>))
             (\<lambda>e t. E e (t\<lparr>st_db := st_db s\<rparr>)) (tick s))"
  by (auto simp: wp_def transaction_def split: prod.splits sum.splits outcome.splits)

lemma wpD:
  "wp m Q E s \<Longrightarrow> m s = (Inr x, t) \<Longrightarrow> Q x t"
  "wp m Q E s \<Longrightarrow> m s = (Inl e, t) \<Longrightarrow> E e t"
  by (simp_all add: wp_def)

lemma wpI:
  "(\<And>x t. m s = (Inr x, t) \<Longrightarrow> Q x t) \<Longrightarrow> (\<And>e t. m s = (Inl e, t) \<Longrightarrow> E e t) \<Longrightarrow> wp m Q E s"
  by (auto simp: wp_def split: prod.splits sum.splits)

lemma wp_mono:
  "wp m Q E s \<Longrightarrow> (\<And>x t. Q x t \<Longrightarrow> Q' x t) \<Longrightarrow> (\<And>e t. E e t \<Longrightarrow> E' e t) \<Longrightarrow> wp m Q' E' s"
  by (auto simp: wp_def split: prod.splits sum.splits)

section \<open>The contracts of reading and of transactional actions\<close>

text \<open>An action that only reads: whatever happens, the database is as it was.\<close>

locale reading =
  fixes m :: "('z, 'a) act"
  assumes reads: "st_db (snd (m s)) = st_db s"
begin

lemma reading_wp: "wp m (\<lambda>_ t. st_db t = st_db s) (\<lambda>_ t. st_db t = st_db s) s"
  using reads [of s] by (auto simp: wp_def split: prod.splits sum.splits)

lemma reading_keeps: "I (st_db s) \<Longrightarrow> I (st_db (snd (m s)))"
  by (simp add: reads)

end

text \<open>An action that fails without effect: every error leaves the database as it was.\<close>

locale atomic =
  fixes m :: "('z, 'a) act"
  assumes fails_clean: "m s = (Inl e, t) \<Longrightarrow> st_db t = st_db s"
begin

lemma changed_succeeds: "st_db (snd (m s)) \<noteq> st_db s \<Longrightarrow> \<exists>x. fst (m s) = Inr x"
proof (cases "fst (m s)")
  case (Inl e)
  then have "m s = (Inl e, snd (m s))" by (simp add: prod_eq_iff)
  then have "st_db (snd (m s)) = st_db s" by (rule fails_clean)
  then show "st_db (snd (m s)) \<noteq> st_db s \<Longrightarrow> \<exists>x. fst (m s) = Inr x" by simp
qed simp

end

sublocale reading \<subseteq> atomic
  by unfold_locales (metis reads snd_conv)

lemma transaction_atomic: "transaction m s = (Inl e, t) \<Longrightarrow> st_db t = st_db s"
  by (auto simp: transaction_def split: if_splits prod.splits sum.splits outcome.splits)

interpretation tx: atomic "transaction m" for m :: "('z, 'a outcome) act"
  by unfold_locales (rule transaction_atomic)

lemma query_reads: "st_db (snd (query q s)) = st_db s"
  by (simp add: query_def)

lemma queryRow_reads: "st_db (snd (queryRow q s)) = st_db s"
  by (simp add: queryRow_def split: list.splits)

interpretation query: reading "query q" for q
  by unfold_locales (rule query_reads)

interpretation queryRow: reading "queryRow q" for q
  by unfold_locales (rule queryRow_reads)

end
