(* ===== verification/StoreInv.thy ===== *)
theory StoreInv
  imports Database
begin

text \<open>
  The invariant of the coordinator's database: the keys and references of the schema, and what
  the store's methods keep true between the tables (who may be bound to what, which tokens,
  shares and pairs can still be alive, how many networks and devices there are).  Each kind of
  statement has a lemma that says when it keeps the invariant; the theories of the methods use
  only these lemmas.
\<close>

section \<open>Keyed tables\<close>

text \<open>
  A table with a unique column: insertion of a fresh key and every update that leaves the column
  alone keep it unique, and a key selects at most one row.
\<close>

locale keyed =
  fixes key :: "'r \<Rightarrow> 'k"
begin

definition unique :: "'r list \<Rightarrow> bool" where
  "unique rs \<longleftrightarrow> distinct (map key rs)"

lemma unique_append: "unique rs \<Longrightarrow> key r \<notin> key ` set rs \<Longrightarrow> unique (rs @ [r])"
  by (auto simp: unique_def)

lemma unique_update:
  "unique rs \<Longrightarrow> (\<And>r. P r \<Longrightarrow> key (f r) = key r) \<Longrightarrow> unique (update_where P f rs)"
  by (simp add: unique_def map_update_where)

lemma unique_filter: "unique rs \<Longrightarrow> unique (filter P rs)"
  by (simp add: unique_def distinct_map_filter)

lemma unique_eq: "unique rs \<Longrightarrow> r \<in> set rs \<Longrightarrow> q \<in> set rs \<Longrightarrow> key r = key q \<Longrightarrow> r = q"
  unfolding unique_def by (rule distinct_key_eq)

lemmas unique_intros = unique_append unique_update unique_filter

end

interpretation user_id: keyed u_id .
interpretation user_email: keyed u_email .
interpretation session_hash: keyed us_hash .
interpretation network_id: keyed n_id .
interpretation token_hash: keyed t_hash .
interpretation device_id: keyed d_id .
interpretation device_key: keyed d_key .
interpretation device_request: keyed d_request .
interpretation binding_key: keyed "\<lambda>b. (b_network b, b_device b)" .
interpretation share_nonce: keyed s_nonce .
interpretation pair_id: keyed p_id .
interpretation renewal_key: keyed "\<lambda>r. (r_device r, r_request r)" .

lemmas unique_defs = user_id.unique_def user_email.unique_def session_hash.unique_def
  network_id.unique_def token_hash.unique_def device_id.unique_def device_key.unique_def
  device_request.unique_def binding_key.unique_def share_nonce.unique_def pair_id.unique_def
  renewal_key.unique_def

section \<open>The invariant\<close>

definition bound :: "db \<Rightarrow> string \<Rightarrow> string \<Rightarrow> bool" where
  "bound d net dev \<longleftrightarrow> (\<exists>b \<in> set (bindings d). b_network b = net \<and> b_device b = dev \<and> b_active b)"

definition enabled :: "db \<Rightarrow> string \<Rightarrow> bool" where
  "enabled d usr \<longleftrightarrow> (\<exists>u \<in> set (users d). u_id u = usr \<and> \<not> u_disabled u)"

definition owned :: "db \<Rightarrow> string \<Rightarrow> string \<Rightarrow> bool" where
  "owned d net usr \<longleftrightarrow> (\<exists>n \<in> set (networks d). n_id n = net \<and> n_user n = usr)"

definition alive :: "db \<Rightarrow> string \<Rightarrow> string \<Rightarrow> bool" where
  "alive d net usr \<longleftrightarrow> (\<exists>n \<in> set (networks d). n_id n = net \<and> n_user n = usr \<and> \<not> n_deleted n)"

definition active_count :: "db \<Rightarrow> string \<Rightarrow> nat" where
  "active_count d net = count_where (\<lambda>b. b_network b = net \<and> b_active b) (bindings d)"

definition network_count :: "db \<Rightarrow> string \<Rightarrow> nat" where
  "network_count d usr = count_where (\<lambda>n. n_user n = usr \<and> \<not> n_deleted n) (networks d)"

definition inv_keys :: "db \<Rightarrow> bool" where
  "inv_keys d \<longleftrightarrow> user_id.unique (users d) \<and> user_email.unique (users d)
     \<and> session_hash.unique (user_sessions d) \<and> network_id.unique (networks d)
     \<and> token_hash.unique (tokens d) \<and> device_id.unique (devices d)
     \<and> device_key.unique (devices d) \<and> device_request.unique (devices d)
     \<and> distinct (device_users d) \<and> binding_key.unique (bindings d)
     \<and> share_nonce.unique (shares d) \<and> pair_id.unique (pairs d) \<and> renewal_key.unique (renewals d)"

definition inv_refs :: "db \<Rightarrow> bool" where
  "inv_refs d \<longleftrightarrow>
     (\<forall>n \<in> set (networks d). n_user n \<in> u_id ` set (users d))
     \<and> (\<forall>r \<in> set (devices d). d_user r \<in> u_id ` set (users d))
     \<and> (\<forall>l \<in> set (device_users d). fst l \<in> d_id ` set (devices d) \<and> snd l \<in> u_id ` set (users d))
     \<and> (\<forall>b \<in> set (bindings d). b_network b \<in> n_id ` set (networks d) \<and> b_device b \<in> d_id ` set (devices d))
     \<and> (\<forall>s \<in> set (shares d). s_network s \<in> n_id ` set (networks d) \<and> s_device s \<in> d_id ` set (devices d))
     \<and> (\<forall>p \<in> set (pairs d). p_network p \<in> n_id ` set (networks d)
          \<and> p_initiator p \<in> d_id ` set (devices d) \<and> p_target p \<in> d_id ` set (devices d))
     \<and> (\<forall>r \<in> set (renewals d). r_device r \<in> d_id ` set (devices d))"

text \<open>Every device is linked to the account that enrolled it first.\<close>

definition inv_linked :: "db \<Rightarrow> bool" where
  "inv_linked d \<longleftrightarrow> (\<forall>r \<in> set (devices d). (d_id r, d_user r) \<in> set (device_users d))"

text \<open>An active binding is to a network that is not deleted, of an account the device is linked to.\<close>

definition inv_bound :: "db \<Rightarrow> bool" where
  "inv_bound d \<longleftrightarrow> (\<forall>b \<in> set (bindings d). b_active b \<longrightarrow>
     (\<exists>usr. alive d (b_network b) usr \<and> (b_device b, usr) \<in> set (device_users d)))"

text \<open>A token belongs to a network of its own account; a deleted network has no usable token.\<close>

definition inv_token :: "db \<Rightarrow> bool" where
  "inv_token d \<longleftrightarrow> (\<forall>t \<in> set (tokens d).
     owned d (t_network t) (t_user t) \<and> (\<not> t_used t \<longrightarrow> alive d (t_network t) (t_user t)))"

text \<open>An unused share is of a device that is bound to the share's network.\<close>

definition inv_share :: "db \<Rightarrow> bool" where
  "inv_share d \<longleftrightarrow> (\<forall>s \<in> set (shares d). \<not> s_used s \<longrightarrow> bound d (s_network s) (s_device s))"

text \<open>A live pair is of two different devices bound to a network whose owner is enabled.\<close>

definition inv_pair :: "db \<Rightarrow> bool" where
  "inv_pair d \<longleftrightarrow> (\<forall>p \<in> set (pairs d). p_initiator p \<noteq> p_target p \<and> 1 \<le> p_revision p
     \<and> (live (p_state p) \<longrightarrow> bound d (p_network p) (p_initiator p) \<and> bound d (p_network p) (p_target p)
          \<and> (\<exists>usr. owned d (p_network p) usr \<and> enabled d usr)))"

text \<open>A disabled account has no session.\<close>

definition inv_session :: "db \<Rightarrow> bool" where
  "inv_session d \<longleftrightarrow> (\<forall>r \<in> set (user_sessions d). enabled d (us_user r))"

text \<open>Capacities: the selectable limits, two networks for an account, thirty devices in a network.\<close>

definition inv_limits :: "db \<Rightarrow> bool" where
  "inv_limits d \<longleftrightarrow> (\<forall>n \<in> set (networks d). n_max n \<in> {10, 20, 30})
     \<and> (\<forall>usr. network_count d usr \<le> 2) \<and> (\<forall>net. active_count d net \<le> 30)"

definition db_inv :: "db \<Rightarrow> bool" where
  "db_inv d \<longleftrightarrow> inv_keys d \<and> inv_refs d \<and> inv_linked d \<and> inv_bound d \<and> inv_token d \<and> inv_share d
     \<and> inv_pair d \<and> inv_session d \<and> inv_limits d"

lemmas inv_defs = inv_keys_def inv_refs_def inv_linked_def inv_bound_def inv_token_def inv_share_def
  inv_pair_def inv_session_def inv_limits_def

lemmas view_defs = bound_def enabled_def owned_def alive_def active_count_def network_count_def

lemma db_invI:
  "inv_keys d \<Longrightarrow> inv_refs d \<Longrightarrow> inv_linked d \<Longrightarrow> inv_bound d \<Longrightarrow> inv_token d \<Longrightarrow> inv_share d \<Longrightarrow>
   inv_pair d \<Longrightarrow> inv_session d \<Longrightarrow> inv_limits d \<Longrightarrow> db_inv d"
  by (simp add: db_inv_def)

lemma db_invD:
  assumes "db_inv d"
  shows "inv_keys d" "inv_refs d" "inv_linked d" "inv_bound d" "inv_token d" "inv_share d"
    "inv_pair d" "inv_session d" "inv_limits d"
  using assms by (simp_all add: db_inv_def)

lemma db_inv_empty: "db_inv empty_db"
  by (simp add: db_inv_def inv_defs view_defs unique_defs empty_db_def)

text \<open>
  Each part of the invariant reads a few tables and a few views (\<open>bound\<close>, \<open>owned\<close>, ...); a
  step that leaves those tables alone and does not shrink those views keeps that part.
\<close>

lemma inv_bound_transfer:
  "inv_bound d \<Longrightarrow> bindings d' = bindings d \<Longrightarrow> set (device_users d) \<subseteq> set (device_users d') \<Longrightarrow>
   (\<And>i u. alive d i u \<Longrightarrow> alive d' i u) \<Longrightarrow> inv_bound d'"
  by (metis (no_types, lifting) inv_bound_def subsetD)

lemma inv_token_transfer:
  "inv_token d \<Longrightarrow> tokens d' = tokens d \<Longrightarrow> (\<And>i u. owned d i u \<Longrightarrow> owned d' i u) \<Longrightarrow>
   (\<And>i u. alive d i u \<Longrightarrow> alive d' i u) \<Longrightarrow> inv_token d'"
  by (simp add: inv_token_def)

lemma inv_share_transfer:
  "inv_share d \<Longrightarrow> shares d' = shares d \<Longrightarrow> (\<And>i x. bound d i x \<Longrightarrow> bound d' i x) \<Longrightarrow> inv_share d'"
  by (simp add: inv_share_def)

lemma inv_pair_transfer:
  "inv_pair d \<Longrightarrow> pairs d' = pairs d \<Longrightarrow> (\<And>i x. bound d i x \<Longrightarrow> bound d' i x) \<Longrightarrow>
   (\<And>i u. owned d i u \<Longrightarrow> owned d' i u) \<Longrightarrow> (\<And>u. enabled d u \<Longrightarrow> enabled d' u) \<Longrightarrow> inv_pair d'"
  unfolding inv_pair_def by metis

lemma inv_session_transfer:
  "inv_session d \<Longrightarrow> user_sessions d' = user_sessions d \<Longrightarrow>
   (\<And>u. enabled d u \<Longrightarrow> enabled d' u) \<Longrightarrow> inv_session d'"
  by (simp add: inv_session_def)

lemma inv_limits_transfer:
  assumes "inv_limits d" "\<And>n. n \<in> set (networks d') \<Longrightarrow> n_max n \<in> {10, 20, 30}"
    and "\<And>u. network_count d' u \<le> network_count d u" "\<And>i. active_count d' i \<le> active_count d i"
  shows "inv_limits d'"
  using assms order_trans unfolding inv_limits_def by blast

lemmas inv_transfers = inv_bound_transfer inv_token_transfer inv_share_transfer inv_pair_transfer
  inv_session_transfer inv_limits_transfer

text \<open>The views after an insertion.\<close>

lemma view_append [simp]:
  "enabled (d\<lparr>users := users d @ [r]\<rparr>) u \<longleftrightarrow> enabled d u \<or> (u_id r = u \<and> \<not> u_disabled r)"
  "owned (d\<lparr>networks := networks d @ [n]\<rparr>) i u \<longleftrightarrow> owned d i u \<or> (n_id n = i \<and> n_user n = u)"
  "alive (d\<lparr>networks := networks d @ [n]\<rparr>) i u \<longleftrightarrow>
     alive d i u \<or> (n_id n = i \<and> n_user n = u \<and> \<not> n_deleted n)"
  "network_count (d\<lparr>networks := networks d @ [n]\<rparr>) u =
     network_count d u + (if n_user n = u \<and> \<not> n_deleted n then 1 else 0)"
  "bound (d\<lparr>bindings := bindings d @ [b]\<rparr>) i x \<longleftrightarrow>
     bound d i x \<or> (b_network b = i \<and> b_device b = x \<and> b_active b)"
  "active_count (d\<lparr>bindings := bindings d @ [b]\<rparr>) i =
     active_count d i + (if b_network b = i \<and> b_active b then 1 else 0)"
  by (auto simp: view_defs)

text \<open>The views do not look at the other tables.\<close>

lemma view_frame [simp]:
  "enabled (d\<lparr>user_sessions := a\<rparr>) = enabled d" "enabled (d\<lparr>networks := b\<rparr>) = enabled d"
  "enabled (d\<lparr>tokens := c\<rparr>) = enabled d" "enabled (d\<lparr>devices := e\<rparr>) = enabled d"
  "enabled (d\<lparr>device_users := f\<rparr>) = enabled d" "enabled (d\<lparr>bindings := g\<rparr>) = enabled d"
  "enabled (d\<lparr>shares := h\<rparr>) = enabled d" "enabled (d\<lparr>pairs := j\<rparr>) = enabled d"
  "enabled (d\<lparr>renewals := k\<rparr>) = enabled d" "enabled (d\<lparr>audit := l\<rparr>) = enabled d"
  "owned (d\<lparr>user_sessions := a\<rparr>) = owned d" "owned (d\<lparr>users := m\<rparr>) = owned d"
  "owned (d\<lparr>tokens := c\<rparr>) = owned d" "owned (d\<lparr>devices := e\<rparr>) = owned d"
  "owned (d\<lparr>device_users := f\<rparr>) = owned d" "owned (d\<lparr>bindings := g\<rparr>) = owned d"
  "owned (d\<lparr>shares := h\<rparr>) = owned d" "owned (d\<lparr>pairs := j\<rparr>) = owned d"
  "owned (d\<lparr>renewals := k\<rparr>) = owned d" "owned (d\<lparr>audit := l\<rparr>) = owned d"
  "alive (d\<lparr>user_sessions := a\<rparr>) = alive d" "alive (d\<lparr>users := m\<rparr>) = alive d"
  "alive (d\<lparr>tokens := c\<rparr>) = alive d" "alive (d\<lparr>devices := e\<rparr>) = alive d"
  "alive (d\<lparr>device_users := f\<rparr>) = alive d" "alive (d\<lparr>bindings := g\<rparr>) = alive d"
  "alive (d\<lparr>shares := h\<rparr>) = alive d" "alive (d\<lparr>pairs := j\<rparr>) = alive d"
  "alive (d\<lparr>renewals := k\<rparr>) = alive d" "alive (d\<lparr>audit := l\<rparr>) = alive d"
  "bound (d\<lparr>user_sessions := a\<rparr>) = bound d" "bound (d\<lparr>networks := b\<rparr>) = bound d"
  "bound (d\<lparr>tokens := c\<rparr>) = bound d" "bound (d\<lparr>devices := e\<rparr>) = bound d"
  "bound (d\<lparr>device_users := f\<rparr>) = bound d" "bound (d\<lparr>users := m\<rparr>) = bound d"
  "bound (d\<lparr>shares := h\<rparr>) = bound d" "bound (d\<lparr>pairs := j\<rparr>) = bound d"
  "bound (d\<lparr>renewals := k\<rparr>) = bound d" "bound (d\<lparr>audit := l\<rparr>) = bound d"
  "active_count (d\<lparr>user_sessions := a\<rparr>) = active_count d"
  "active_count (d\<lparr>networks := b\<rparr>) = active_count d"
  "active_count (d\<lparr>tokens := c\<rparr>) = active_count d" "active_count (d\<lparr>devices := e\<rparr>) = active_count d"
  "active_count (d\<lparr>device_users := f\<rparr>) = active_count d" "active_count (d\<lparr>users := m\<rparr>) = active_count d"
  "active_count (d\<lparr>shares := h\<rparr>) = active_count d" "active_count (d\<lparr>pairs := j\<rparr>) = active_count d"
  "active_count (d\<lparr>renewals := k\<rparr>) = active_count d" "active_count (d\<lparr>audit := l\<rparr>) = active_count d"
  "network_count (d\<lparr>user_sessions := a\<rparr>) = network_count d"
  "network_count (d\<lparr>users := m\<rparr>) = network_count d"
  "network_count (d\<lparr>tokens := c\<rparr>) = network_count d" "network_count (d\<lparr>devices := e\<rparr>) = network_count d"
  "network_count (d\<lparr>device_users := f\<rparr>) = network_count d"
  "network_count (d\<lparr>bindings := g\<rparr>) = network_count d"
  "network_count (d\<lparr>shares := h\<rparr>) = network_count d" "network_count (d\<lparr>pairs := j\<rparr>) = network_count d"
  "network_count (d\<lparr>renewals := k\<rparr>) = network_count d" "network_count (d\<lparr>audit := l\<rparr>) = network_count d"
  by (simp_all add: view_defs fun_eq_iff)

section \<open>Statements that keep the invariant\<close>

text \<open>An insertion that succeeds has inserted its row at the end, and its checks held.\<close>

lemma ins_SomeD:
  "ins_user r d = Some d' \<Longrightarrow> d' = d\<lparr>users := users d @ [r]\<rparr>
     \<and> u_id r \<notin> u_id ` set (users d) \<and> u_email r \<notin> u_email ` set (users d)"
  "ins_session rs d = Some d' \<Longrightarrow> d' = d\<lparr>user_sessions := user_sessions d @ [rs]\<rparr>
     \<and> us_hash rs \<notin> us_hash ` set (user_sessions d)"
  "ins_network rn d = Some d' \<Longrightarrow> d' = d\<lparr>networks := networks d @ [rn]\<rparr>
     \<and> n_id rn \<notin> n_id ` set (networks d) \<and> n_user rn \<in> u_id ` set (users d)"
  "ins_token rt d = Some d' \<Longrightarrow> d' = d\<lparr>tokens := tokens d @ [rt]\<rparr>
     \<and> t_hash rt \<notin> t_hash ` set (tokens d)"
  "ins_device rd d = Some d' \<Longrightarrow> d' = d\<lparr>devices := devices d @ [rd]\<rparr>
     \<and> d_id rd \<notin> d_id ` set (devices d) \<and> d_key rd \<notin> d_key ` set (devices d)
     \<and> d_request rd \<notin> d_request ` set (devices d) \<and> d_user rd \<in> u_id ` set (users d)"
  "ins_share rh d = Some d' \<Longrightarrow> d' = d\<lparr>shares := shares d @ [rh]\<rparr>
     \<and> s_nonce rh \<notin> s_nonce ` set (shares d) \<and> s_device rh \<in> d_id ` set (devices d)
     \<and> s_network rh \<in> n_id ` set (networks d)"
  "ins_pair rp d = Some d' \<Longrightarrow> d' = d\<lparr>pairs := pairs d @ [rp]\<rparr>
     \<and> p_id rp \<notin> p_id ` set (pairs d) \<and> p_network rp \<in> n_id ` set (networks d)
     \<and> p_initiator rp \<in> d_id ` set (devices d) \<and> p_target rp \<in> d_id ` set (devices d)"
  "ins_renewal rr d = Some d' \<Longrightarrow> d' = d\<lparr>renewals := renewals d @ [rr]\<rparr>
     \<and> (r_device rr, r_request rr) \<notin> (\<lambda>q. (r_device q, r_request q)) ` set (renewals d)
     \<and> r_device rr \<in> d_id ` set (devices d)"
  "ins_audit ev sub at d = Some d' \<Longrightarrow>
     d' = d\<lparr>audit := audit d @ [\<lparr>a_event = ev, a_subject = sub, a_at = at\<rparr>]\<rparr>"
  by (auto simp: ins_defs split: if_splits)

lemma inv_audit:
  "db_inv d \<Longrightarrow> ins_audit ev sub at d = Some d' \<Longrightarrow> db_inv d'"
  by (drule ins_SomeD) (simp add: db_inv_def inv_defs)

lemma inv_ins_user:
  assumes "db_inv d" "ins_user r d = Some d'"
  shows "db_inv d'"
proof -
  note d' = ins_SomeD(1) [OF assms(2)] and inv = db_invD [OF assms(1)]
  show ?thesis
  proof (rule db_invI)
    show "inv_keys d'" using inv(1) d' by (auto simp: inv_keys_def unique_defs)
    show "inv_refs d'" using inv(2) d' by (auto simp: inv_refs_def)
    show "inv_pair d'" using d' by (intro inv_pair_transfer [OF inv(7)]) auto
    show "inv_session d'" using d' by (intro inv_session_transfer [OF inv(8)]) auto
  qed (use inv d' in \<open>simp_all add: inv_defs\<close>)
qed

lemma inv_ins_session:
  assumes "db_inv d" "ins_session r d = Some d'" "enabled d (us_user r)"
  shows "db_inv d'"
proof -
  note d' = ins_SomeD(2) [OF assms(2)] and inv = db_invD [OF assms(1)]
  show ?thesis
  proof (rule db_invI)
    show "inv_keys d'" using inv(1) d' by (auto simp: inv_keys_def unique_defs)
  qed (use inv d' assms(3) in \<open>auto simp: inv_defs\<close>)
qed

lemma inv_del_sessions: "db_inv d \<Longrightarrow> db_inv (fst (del_sessions P d))"
  by (auto simp: db_inv_def inv_defs upd_defs session_hash.unique_filter)

lemma inv_ins_network:
  assumes "db_inv d" "ins_network r d = Some d'" "network_count d (n_user r) < 2"
    and "n_max r = 10" "\<not> n_deleted r"
  shows "db_inv d'"
proof -
  note d' = ins_SomeD(3) [OF assms(2)] and inv = db_invD [OF assms(1)]
  show ?thesis
  proof (rule db_invI)
    show "inv_keys d'" using inv(1) d' by (auto simp: inv_keys_def unique_defs)
    show "inv_refs d'" using inv(2) d' by (auto simp: inv_refs_def)
    show "inv_bound d'" using d' by (intro inv_bound_transfer [OF inv(4)]) auto
    show "inv_token d'" using d' by (intro inv_token_transfer [OF inv(5)]) auto
    show "inv_pair d'" using d' by (intro inv_pair_transfer [OF inv(7)]) auto
    show "inv_limits d'" using inv(9) d' assms(3,4) by (auto simp: inv_limits_def)
  qed (use inv d' in \<open>simp_all add: inv_defs\<close>)
qed

text \<open>Renaming a network or changing its limit.\<close>

lemma inv_upd_networks:
  assumes "db_inv d"
    and f: "\<And>n. n_id (f n) = n_id n" "\<And>n. n_user (f n) = n_user n" "\<And>n. n_deleted (f n) = n_deleted n"
    and max: "\<And>n. n_max (f n) = n_max n \<or> n_max (f n) \<in> {10, 20, 30}"
  shows "db_inv (fst (upd_networks P f d))"
proof -
  note inv = db_invD [OF assms(1)]
  let ?d = "fst (upd_networks P f d)"
  have ids: "n_id ` set (update_where P f (networks d)) = n_id ` set (networks d)"
    using f(1) by (simp add: image_update_where)
  have views: "owned ?d = owned d" "alive ?d = alive d" "network_count ?d = network_count d"
    using f by (auto simp: upd_defs owned_def alive_def network_count_def bex_update_where
        count_update_where if_distrib fun_eq_iff cong: if_cong)
  show ?thesis
  proof (rule db_invI)
    show "inv_keys ?d" using inv(1) f
      by (simp add: inv_keys_def upd_defs network_id.unique_update)
    show "inv_refs ?d" using inv(2) f ids
      by (simp add: inv_refs_def upd_defs ball_update_where)
    show "inv_bound ?d" using views by (intro inv_bound_transfer [OF inv(4)]) (auto simp: upd_defs)
    show "inv_token ?d" using views by (intro inv_token_transfer [OF inv(5)]) (auto simp: upd_defs)
    show "inv_pair ?d" using views by (intro inv_pair_transfer [OF inv(7)]) (auto simp: upd_defs)
    show "inv_limits ?d"
    proof (rule inv_limits_transfer [OF inv(9)])
      fix n assume "n \<in> set (networks ?d)"
      then obtain m where "m \<in> set (networks d)" "n = (if P m then f m else m)"
        by (auto simp: upd_defs in_update_where)
      with inv(9) max [of m] show "n_max n \<in> {10, 20, 30}" unfolding inv_limits_def by metis
    qed (use views in \<open>simp_all add: upd_defs\<close>)
  qed (use inv in \<open>simp_all add: inv_defs upd_defs\<close>)
qed

subsection \<open>Tokens\<close>

lemma inv_ins_token:
  assumes "db_inv d" "ins_token r d = Some d'" "alive d (t_network r) (t_user r)"
  shows "db_inv d'"
proof -
  note d' = ins_SomeD(4) [OF assms(2)] and inv = db_invD [OF assms(1)]
  have "owned d (t_network r) (t_user r)"
    using assms(3) by (auto simp: owned_def alive_def)
  then show ?thesis
  proof (intro db_invI)
    show "inv_keys d'" using inv(1) d' by (auto simp: inv_keys_def unique_defs)
  qed (use inv d' assms(3) in \<open>auto simp: inv_defs\<close>)
qed

lemma inv_use_tokens: "db_inv d \<Longrightarrow> db_inv (fst (upd_tokens P (\<lambda>t. t\<lparr>t_used := True\<rparr>) d))"
  by (auto simp: db_inv_def inv_defs upd_defs token_hash.unique_update ball_update_where)

subsection \<open>Devices and bindings\<close>

text \<open>An update that leaves a device's identity alone.\<close>

lemma inv_upd_devices:
  assumes "db_inv d"
    and f: "\<And>r. d_id (f r) = d_id r" "\<And>r. d_user (f r) = d_user r" "\<And>r. d_key (f r) = d_key r"
    and u: "device_request.unique (update_where P f (devices d))"
  shows "db_inv (fst (upd_devices P f d))"
proof -
  note inv = db_invD [OF assms(1)]
  have ids: "d_id ` set (update_where P f (devices d)) = d_id ` set (devices d)"
    using f(1) by (simp add: image_update_where)
  have "inv_keys (fst (upd_devices P f d))" using inv(1) f u
    by (simp add: inv_keys_def upd_defs device_id.unique_update device_key.unique_update)
  moreover have "inv_refs (fst (upd_devices P f d))" using inv(2) f ids
    by (simp add: inv_refs_def upd_defs ball_update_where)
  moreover have "inv_linked (fst (upd_devices P f d))" using inv(3) f
    by (simp add: inv_linked_def upd_defs ball_update_where)
  ultimately show ?thesis
    using inv by (simp add: db_inv_def inv_bound_def inv_token_def inv_share_def inv_pair_def
        inv_session_def inv_limits_def upd_defs)
qed

text \<open>Binding a device: the views after it, and the invariant.\<close>

lemma bind_activeE:
  assumes "bind_active net dev d = Some d'"
  obtains (old) b where "b \<in> set (bindings d)" "b_network b = net" "b_device b = dev"
      "d' = d\<lparr>bindings := update_where (\<lambda>b. b_network b = net \<and> b_device b = dev)
                   (\<lambda>b. b\<lparr>b_active := True\<rparr>) (bindings d)\<rparr>"
    | (new) "(net, dev) \<notin> (\<lambda>b. (b_network b, b_device b)) ` set (bindings d)"
      "net \<in> n_id ` set (networks d)" "dev \<in> d_id ` set (devices d)"
      "d' = d\<lparr>bindings := bindings d @ [\<lparr>b_network = net, b_device = dev, b_active = True\<rparr>]\<rparr>"
  using assms by (auto simp: bind_active_def split: if_splits)

lemma bind_active_bound:
  assumes "bind_active net dev d = Some d'"
  shows "bound d' i x \<longleftrightarrow> bound d i x \<or> (i = net \<and> x = dev)"
  using assms
proof (cases rule: bind_activeE)
  case (old b)
  have "bound d' i x \<longleftrightarrow> (\<exists>c \<in> set (bindings d). b_network c = i \<and> b_device c = x
      \<and> (b_network c = net \<and> b_device c = dev \<or> b_active c))"
    unfolding bound_def old(4) by (simp add: bex_update_where) (rule bex_cong, auto)
  then show ?thesis using old by (auto simp: bound_def)
qed auto

lemma bind_active_bound_same:
  assumes "bind_active net dev d = Some d'" "inv_keys d" "bound d net dev"
  shows "d' = d"
  using assms(1)
proof (cases rule: bind_activeE)
  case (old b)
  have same: "c = b" if "c \<in> set (bindings d)" "b_network c = net \<and> b_device c = dev" for c
    using binding_key.unique_eq [of "bindings d" c b] assms(2) old that
    by (simp add: inv_keys_def)
  with assms(3) have "b_active b" by (auto simp: bound_def)
  then have "b\<lparr>b_active := True\<rparr> = b" by (cases b) simp
  with same have "update_where (\<lambda>b. b_network b = net \<and> b_device b = dev)
      (\<lambda>b. b\<lparr>b_active := True\<rparr>) (bindings d) = bindings d"
    unfolding update_where_def by (intro map_idI) metis
  then show ?thesis using old(4) by (cases d) simp
next
  case new
  then show ?thesis using assms(3) by (force simp: bound_def)
qed

lemma bind_active_count:
  assumes "bind_active net dev d = Some d'" "inv_keys d"
  shows "active_count d' i \<le> active_count d i + (if i = net \<and> \<not> bound d net dev then 1 else 0)"
proof (cases "bound d net dev")
  case True
  then show ?thesis using bind_active_bound_same [OF assms] by simp
next
  case False
  let ?key = "\<lambda>b. (b_network b, b_device b)"
  let ?R = "\<lambda>b. ?key b = (net, dev) \<and> i = net"
  have "count_where ?R (bindings d) \<le> (if i = net then 1 else 0)"
    using count_key_le_1 [of ?key "bindings d" "(net, dev)" "\<lambda>_. i = net"] assms(2)
    by (auto simp: inv_keys_def binding_key.unique_def count_where_0)
  moreover from assms(1) have "active_count d' i \<le> active_count d i + count_where ?R (bindings d)
      \<or> active_count d' i \<le> active_count d i + (if i = net then 1 else 0)"
  proof (cases rule: bind_activeE)
    case (old b)
    have "active_count d' i \<le> count_where (\<lambda>b. (b_network b = i \<and> b_active b) \<or> ?R b) (bindings d)"
      unfolding active_count_def old(4)
      by (simp add: count_update_where) (rule count_where_mono, auto split: if_splits)
    also have "\<dots> \<le> active_count d i + count_where ?R (bindings d)"
      unfolding active_count_def by (rule count_where_or)
    finally show ?thesis ..
  qed simp
  ultimately show ?thesis using False by auto
qed

lemma inv_bind_active:
  assumes "db_inv d" "bind_active net dev d = Some d'"
    and "alive d net usr" "(dev, usr) \<in> set (device_users d)"
    and "\<not> bound d net dev \<Longrightarrow> active_count d net < 30"
  shows "db_inv d'"
proof -
  note inv = db_invD [OF assms(1)] and views = bind_active_bound [OF assms(2)]
  have cnt: "active_count d' i \<le> 30" for i
    using bind_active_count [OF assms(2) inv(1), of i] inv(9) assms(5)
    by (auto simp: inv_limits_def split: if_splits intro: order_trans)
  obtain bs where d': "d' = d\<lparr>bindings := bs\<rparr>"
    using assms(2) by (cases rule: bind_activeE) simp_all
  from assms(2) have "inv_keys d' \<and> inv_refs d' \<and> inv_bound d'"
  proof (cases rule: bind_activeE)
    case (old b)
    then show ?thesis using inv(1,2,4) assms(3,4)
      by (auto simp: inv_keys_def inv_refs_def inv_bound_def ball_update_where
          intro: binding_key.unique_update)
  next
    case new
    then show ?thesis using inv(1,2,4) assms(3,4)
      by (auto simp: inv_keys_def inv_refs_def inv_bound_def intro: binding_key.unique_append)
  qed
  moreover have "inv_share d'"
    using views by (intro inv_share_transfer [OF inv(6)]) (simp_all add: d')
  moreover have "inv_pair d'"
    using views by (intro inv_pair_transfer [OF inv(7)]) (simp_all add: d')
  moreover have "inv_linked d' \<and> inv_token d' \<and> inv_session d' \<and> inv_limits d'"
    using inv(3,5,8,9) cnt
    by (simp add: d' inv_linked_def inv_token_def inv_session_def inv_limits_def)
  ultimately show ?thesis by (simp add: db_inv_def)
qed

text \<open>Linking an enrolled device to one more account, and enrolling a new one.\<close>

lemma link_device_linked:
  "link_device dev usr d = Some d' \<Longrightarrow> (dev, usr) \<in> set (device_users d')"
  by (auto simp: link_device_def split: if_splits)

lemma inv_link_device:
  assumes "db_inv d" "link_device dev usr d = Some d'"
  shows "db_inv d'"
proof (cases "(dev, usr) \<in> set (device_users d)")
  case True
  with assms show ?thesis by (simp add: link_device_def)
next
  case False
  then have d': "d' = d\<lparr>device_users := device_users d @ [(dev, usr)]\<rparr>"
    and ids: "dev \<in> d_id ` set (devices d)" "usr \<in> u_id ` set (users d)"
    using assms(2) by (auto simp: link_device_def split: if_splits)
  note inv = db_invD [OF assms(1)]
  have "inv_bound d'" using d' by (intro inv_bound_transfer [OF inv(4)]) auto
  moreover have "inv_keys d'" "inv_refs d'" "inv_linked d'"
    using inv(1,2,3) False ids by (auto simp: d' inv_keys_def inv_refs_def inv_linked_def)
  ultimately show ?thesis
    using inv by (simp add: db_inv_def d' inv_token_def inv_share_def inv_pair_def
        inv_session_def inv_limits_def)
qed

lemma inv_new_device:
  assumes "db_inv d" "ins_device r d = Some d1" "link_device (d_id r) (d_user r) d1 = Some d2"
  shows "db_inv d2"
proof -
  note d1 = ins_SomeD(5) [OF assms(2)] and inv = db_invD [OF assms(1)]
  have "(d_id r, d_user r) \<notin> set (device_users d)"
    using inv(2) d1 by (force simp: inv_refs_def)
  then have d2: "d2 = d\<lparr>devices := devices d @ [r],
      device_users := device_users d @ [(d_id r, d_user r)]\<rparr>"
    using assms(3) d1 by (auto simp: link_device_def split: if_splits)
  show ?thesis
  proof (rule db_invI)
    show "inv_keys d2" using inv(1) d1 \<open>_ \<notin> _\<close> by (auto simp: d2 inv_keys_def unique_defs)
    show "inv_refs d2" using inv(2) d1 by (auto simp: d2 inv_refs_def)
    show "inv_linked d2" using inv(3) by (auto simp: d2 inv_linked_def)
    show "inv_bound d2" by (intro inv_bound_transfer [OF inv(4)]) (auto simp: d2)
  qed (use inv in \<open>simp_all add: d2 inv_token_def inv_share_def inv_pair_def inv_session_def inv_limits_def\<close>)
qed

subsection \<open>Shares, pairs and renewals\<close>

lemma inv_ins_share:
  assumes "db_inv d" "ins_share r d = Some d'" "bound d (s_network r) (s_device r)"
  shows "db_inv d'"
proof -
  note d' = ins_SomeD(6) [OF assms(2)] and inv = db_invD [OF assms(1)]
  show ?thesis
  proof (rule db_invI)
    show "inv_keys d'" using inv(1) d' by (auto simp: inv_keys_def unique_defs)
    show "inv_refs d'" using inv(2) d' by (auto simp: inv_refs_def)
  qed (use inv d' assms(3) in \<open>auto simp: inv_defs\<close>)
qed

lemma inv_use_shares: "db_inv d \<Longrightarrow> db_inv (fst (upd_shares P (\<lambda>r. r\<lparr>s_used := True\<rparr>) d))"
  by (auto simp: db_inv_def inv_defs upd_defs share_nonce.unique_update ball_update_where)

lemma inv_ins_pair:
  assumes "db_inv d" "ins_pair r d = Some d'"
    and "p_initiator r \<noteq> p_target r" "1 \<le> p_revision r"
    and "bound d (p_network r) (p_initiator r)" "bound d (p_network r) (p_target r)"
    and "owned d (p_network r) usr" "enabled d usr"
  shows "db_inv d'"
proof -
  note d' = ins_SomeD(7) [OF assms(2)] and inv = db_invD [OF assms(1)]
  show ?thesis
  proof (rule db_invI)
    show "inv_keys d'" using inv(1) d' by (auto simp: inv_keys_def unique_defs)
    show "inv_refs d'" using inv(2) d' by (auto simp: inv_refs_def)
    show "inv_pair d'" using inv(7) d' assms(3-) by (auto simp: inv_pair_def)
  qed (use inv d' in \<open>simp_all add: inv_defs\<close>)
qed

lemma inv_upd_pairs:
  assumes "db_inv d"
    and "\<And>p. p \<in> set (pairs d) \<Longrightarrow> P p \<Longrightarrow> live st \<Longrightarrow> live (p_state p)"
  shows "db_inv (fst (upd_pairs P (set_state st) d))"
proof -
  note inv = db_invD [OF assms(1)]
  let ?d = "fst (upd_pairs P (set_state st) d)"
  have "inv_keys ?d" using inv(1) by (simp add: inv_keys_def upd_defs pair_id.unique_update)
  moreover have "inv_refs ?d" using inv(2) by (auto simp: inv_refs_def upd_defs ball_update_where)
  moreover have "inv_pair ?d" using inv(7) assms(2)
    by (auto simp: inv_pair_def upd_defs ball_update_where)
  ultimately show ?thesis using inv
    by (simp add: db_inv_def inv_linked_def inv_bound_def inv_token_def inv_share_def
        inv_session_def inv_limits_def upd_defs)
qed

lemma inv_revoke_pairs: "db_inv d \<Longrightarrow> db_inv (fst (upd_pairs P (set_state Revoked) d))"
  by (rule inv_upd_pairs) simp_all

lemma inv_ins_renewal: "db_inv d \<Longrightarrow> ins_renewal r d = Some d' \<Longrightarrow> db_inv d'"
  by (drule ins_SomeD) (auto simp: db_inv_def inv_defs unique_defs)

section \<open>Operations that change several tables at once\<close>

text \<open>The statements of \<open>DeleteNetwork\<close>, of \<open>UnbindDevice\<close> and of \<open>DisableUser\<close>.  Between them
  the invariant does not hold; at the end of each group it does.\<close>

definition wipe_network :: "string \<Rightarrow> db \<Rightarrow> db" where
  "wipe_network i d = d\<lparr>
     networks := update_where (\<lambda>n. n_id n = i) (\<lambda>n. n\<lparr>n_deleted := True\<rparr>) (networks d),
     bindings := update_where (\<lambda>b. b_network b = i) (\<lambda>b. b\<lparr>b_active := False\<rparr>) (bindings d),
     tokens := update_where (\<lambda>t. t_network t = i) (\<lambda>t. t\<lparr>t_used := True\<rparr>) (tokens d),
     shares := update_where (\<lambda>r. s_network r = i) (\<lambda>r. r\<lparr>s_used := True\<rparr>) (shares d),
     pairs := update_where (\<lambda>p. p_network p = i \<and> live (p_state p)) (set_state Revoked) (pairs d)\<rparr>"

definition unbind :: "string \<Rightarrow> string \<Rightarrow> db \<Rightarrow> db" where
  "unbind i x d = d\<lparr>
     bindings := update_where (\<lambda>b. b_network b = i \<and> b_device b = x) (\<lambda>b. b\<lparr>b_active := False\<rparr>) (bindings d),
     pairs := update_where (\<lambda>p. p_network p = i \<and> (p_initiator p = x \<or> p_target p = x) \<and> live (p_state p))
                (set_state Revoked) (pairs d),
     shares := update_where (\<lambda>r. s_network r = i \<and> s_device r = x) (\<lambda>r. r\<lparr>s_used := True\<rparr>) (shares d)\<rparr>"

definition disable :: "string \<Rightarrow> db \<Rightarrow> db" where
  "disable usr d = d\<lparr>
     users := update_where (\<lambda>u. u_id u = usr \<and> \<not> u_disabled u) (\<lambda>u. u\<lparr>u_disabled := True\<rparr>) (users d),
     user_sessions := filter (\<lambda>r. us_user r \<noteq> usr) (user_sessions d),
     pairs := update_where (\<lambda>p. p_network p \<in> n_id ` {n \<in> set (networks d). n_user n = usr} \<and> live (p_state p))
                (set_state Revoked) (pairs d)\<rparr>"

lemma wipe_network_tables:
  "tokens (wipe_network i d) = update_where (\<lambda>t. t_network t = i) (\<lambda>t. t\<lparr>t_used := True\<rparr>) (tokens d)"
  "shares (wipe_network i d) = update_where (\<lambda>r. s_network r = i) (\<lambda>r. r\<lparr>s_used := True\<rparr>) (shares d)"
  "pairs (wipe_network i d) =
     update_where (\<lambda>p. p_network p = i \<and> live (p_state p)) (set_state Revoked) (pairs d)"
  "user_sessions (wipe_network i d) = user_sessions d" "users (wipe_network i d) = users d"
  "devices (wipe_network i d) = devices d" "device_users (wipe_network i d) = device_users d"
  by (simp_all add: wipe_network_def)

lemma wipe_network_views:
  "bound (wipe_network i d) j x \<longleftrightarrow> bound d j x \<and> j \<noteq> i"
  "alive (wipe_network i d) j usr \<longleftrightarrow> alive d j usr \<and> j \<noteq> i"
  "owned (wipe_network i d) = owned d"
  "enabled (wipe_network i d) = enabled d"
  "active_count (wipe_network i d) j \<le> active_count d j"
  "network_count (wipe_network i d) usr \<le> network_count d usr"
proof -
  show "bound (wipe_network i d) j x \<longleftrightarrow> bound d j x \<and> j \<noteq> i"
    by (auto simp: wipe_network_def bound_def bex_update_where)
  show "alive (wipe_network i d) j usr \<longleftrightarrow> alive d j usr \<and> j \<noteq> i"
    by (auto simp: wipe_network_def alive_def bex_update_where)
  show "owned (wipe_network i d) = owned d"
    by (auto simp: wipe_network_def owned_def bex_update_where if_distrib fun_eq_iff cong: if_cong)
  show "enabled (wipe_network i d) = enabled d"
    by (simp add: wipe_network_def enabled_def fun_eq_iff)
  show "active_count (wipe_network i d) j \<le> active_count d j"
    unfolding active_count_def wipe_network_def
    by (simp add: count_update_where) (rule count_where_mono, auto split: if_splits)
  show "network_count (wipe_network i d) usr \<le> network_count d usr"
    unfolding network_count_def wipe_network_def
    by (simp add: count_update_where) (rule count_where_mono, auto split: if_splits)
qed

lemma inv_wipe_network:
  assumes "db_inv d"
  shows "db_inv (wipe_network i d)"
proof -
  note inv = db_invD [OF assms] and views = wipe_network_views
  let ?d = "wipe_network i d"
  have ids: "n_id ` set (networks ?d) = n_id ` set (networks d)"
    by (simp add: wipe_network_def image_update_where)
  show ?thesis
  proof (rule db_invI)
    show "inv_keys ?d" using inv(1)
      by (simp add: inv_keys_def wipe_network_def binding_key.unique_update network_id.unique_update
          token_hash.unique_update share_nonce.unique_update pair_id.unique_update)
    show "inv_refs ?d" using inv(2) ids
      by (auto simp: inv_refs_def wipe_network_def ball_update_where)
    show "inv_linked ?d" using inv(3) by (simp add: inv_linked_def wipe_network_def)
    show "inv_bound ?d" using inv(4) views(2) [of i d]
      by (auto simp: inv_bound_def wipe_network_def ball_update_where)
    show "inv_token ?d" using inv(5)
      by (auto simp: inv_token_def views wipe_network_tables ball_update_where)
    show "inv_share ?d" using inv(6)
      by (auto simp: inv_share_def views wipe_network_tables ball_update_where)
    show "inv_pair ?d" using inv(7)
      by (auto simp: inv_pair_def views wipe_network_tables ball_update_where)
    show "inv_session ?d" using inv(8) by (simp add: inv_session_def views) (simp add: wipe_network_def)
    show "inv_limits ?d"
    proof (rule inv_limits_transfer [OF inv(9)])
      fix n assume "n \<in> set (networks ?d)"
      then obtain m where "m \<in> set (networks d)" "n_max n = n_max m"
        by (auto simp: wipe_network_def in_update_where split: if_splits)
      with inv(9) show "n_max n \<in> {10, 20, 30}" unfolding inv_limits_def by metis
    qed (simp_all only: views)
  qed
qed

lemma unbind_tables:
  "pairs (unbind i x d) = update_where
     (\<lambda>p. p_network p = i \<and> (p_initiator p = x \<or> p_target p = x) \<and> live (p_state p)) (set_state Revoked) (pairs d)"
  "shares (unbind i x d) = update_where (\<lambda>r. s_network r = i \<and> s_device r = x) (\<lambda>r. r\<lparr>s_used := True\<rparr>) (shares d)"
  "user_sessions (unbind i x d) = user_sessions d" "users (unbind i x d) = users d"
  "networks (unbind i x d) = networks d" "tokens (unbind i x d) = tokens d"
  "devices (unbind i x d) = devices d" "device_users (unbind i x d) = device_users d"
  by (simp_all add: unbind_def)

lemma unbind_views:
  "bound (unbind i x d) j y \<longleftrightarrow> bound d j y \<and> \<not> (j = i \<and> y = x)"
  "alive (unbind i x d) = alive d" "owned (unbind i x d) = owned d" "enabled (unbind i x d) = enabled d"
  "active_count (unbind i x d) j \<le> active_count d j"
  "network_count (unbind i x d) = network_count d"
proof -
  show "bound (unbind i x d) j y \<longleftrightarrow> bound d j y \<and> \<not> (j = i \<and> y = x)"
    by (auto simp: unbind_def bound_def bex_update_where)
  show "active_count (unbind i x d) j \<le> active_count d j"
    unfolding active_count_def unbind_def
    by (simp add: count_update_where) (rule count_where_mono, auto split: if_splits)
qed (simp_all add: unbind_def alive_def owned_def enabled_def network_count_def fun_eq_iff)

lemma inv_unbind:
  assumes "db_inv d"
  shows "db_inv (unbind i x d)"
proof -
  note inv = db_invD [OF assms] and views = unbind_views
  let ?d = "unbind i x d"
  show ?thesis
  proof (rule db_invI)
    show "inv_keys ?d" using inv(1)
      by (simp add: inv_keys_def unbind_def binding_key.unique_update share_nonce.unique_update
          pair_id.unique_update)
    show "inv_refs ?d" using inv(2) by (auto simp: inv_refs_def unbind_def ball_update_where)
    show "inv_linked ?d" using inv(3) by (simp add: inv_linked_def unbind_def)
    show "inv_bound ?d" using inv(4)
      by (simp add: inv_bound_def views) (auto simp: unbind_def ball_update_where)
    show "inv_token ?d" using inv(5) by (simp add: inv_token_def views unbind_tables)
    show "inv_share ?d" using inv(6)
      by (auto simp: inv_share_def views unbind_tables ball_update_where)
    show "inv_pair ?d" using inv(7)
      by (auto simp: inv_pair_def views unbind_tables ball_update_where)
    show "inv_session ?d" using inv(8) by (simp add: inv_session_def views) (simp add: unbind_def)
    show "inv_limits ?d"
      using inv(9) views(5,6)
      by (intro inv_limits_transfer [OF inv(9)]) (auto simp: unbind_def inv_limits_def)
  qed
qed

lemma disable_tables:
  "pairs (disable usr d) = update_where
     (\<lambda>p. p_network p \<in> n_id ` {n \<in> set (networks d). n_user n = usr} \<and> live (p_state p))
     (set_state Revoked) (pairs d)"
  "user_sessions (disable usr d) = filter (\<lambda>r. us_user r \<noteq> usr) (user_sessions d)"
  "networks (disable usr d) = networks d" "tokens (disable usr d) = tokens d"
  "devices (disable usr d) = devices d" "device_users (disable usr d) = device_users d"
  "bindings (disable usr d) = bindings d" "shares (disable usr d) = shares d"
  by (simp_all add: disable_def)

lemma disable_views:
  "enabled (disable usr d) v \<longleftrightarrow> enabled d v \<and> v \<noteq> usr"
  "alive (disable usr d) = alive d" "owned (disable usr d) = owned d" "bound (disable usr d) = bound d"
  "active_count (disable usr d) = active_count d" "network_count (disable usr d) = network_count d"
  by (auto simp: disable_def alive_def owned_def bound_def enabled_def active_count_def
      network_count_def bex_update_where fun_eq_iff)

lemma inv_disable:
  assumes "db_inv d"
  shows "db_inv (disable usr d)"
proof -
  note inv = db_invD [OF assms] and views = disable_views
  let ?d = "disable usr d"
  have ids: "u_id ` set (users ?d) = u_id ` set (users d)"
    by (simp add: disable_def image_update_where)
  show ?thesis
  proof (rule db_invI)
    show "inv_keys ?d" using inv(1)
      by (simp add: inv_keys_def disable_def user_id.unique_update user_email.unique_update
          session_hash.unique_filter pair_id.unique_update)
    show "inv_refs ?d" using inv(2) ids by (simp add: inv_refs_def disable_def ball_update_where)
    show "inv_pair ?d"
      unfolding inv_pair_def views
    proof (intro ballI)
      fix p assume "p \<in> set (pairs ?d)"
      then obtain q where q: "q \<in> set (pairs d)"
        "p = (if p_network q \<in> n_id ` {n \<in> set (networks d). n_user n = usr} \<and> live (p_state q)
              then set_state Revoked q else q)"
        by (auto simp: disable_def in_update_where)
      have other: "v \<noteq> usr" if "p_network q \<notin> n_id ` {n \<in> set (networks d). n_user n = usr}"
        "owned d (p_network q) v" for v
        using that by (force simp: owned_def)
      have "p_initiator q \<noteq> p_target q \<and> 1 \<le> p_revision q \<and> (live (p_state q) \<longrightarrow>
          bound d (p_network q) (p_initiator q) \<and> bound d (p_network q) (p_target q) \<and>
          (\<exists>v. owned d (p_network q) v \<and> enabled d v))"
        using inv(7) q(1) unfolding inv_pair_def by blast
      then show "p_initiator p \<noteq> p_target p \<and> 1 \<le> p_revision p \<and> (live (p_state p) \<longrightarrow>
          bound d (p_network p) (p_initiator p) \<and> bound d (p_network p) (p_target p) \<and>
          (\<exists>v. owned d (p_network p) v \<and> enabled d v \<and> v \<noteq> usr))"
      proof (cases "p_network q \<in> n_id ` {n \<in> set (networks d). n_user n = usr} \<and> live (p_state q)")
        case False
        with q(2) have "p = q" by simp
        with \<open>_ \<and> _ \<and> (_ \<longrightarrow> _)\<close> False other show ?thesis by blast
      qed (simp add: q(2))
    qed
    show "inv_session ?d" using inv(8) by (simp add: inv_session_def views disable_tables)
  qed (use inv in \<open>simp_all add: inv_linked_def inv_bound_def inv_token_def inv_share_def
      inv_limits_def views disable_tables\<close>)
qed

section \<open>Actions that keep the invariant\<close>

locale keeping =
  fixes m :: "('z, 'a) act"
  assumes keeps: "db_inv (st_db s) \<Longrightarrow> db_inv (st_db (snd (m s)))"
begin

lemma keeps_result: "db_inv (st_db s) \<Longrightarrow> m s = (r, t) \<Longrightarrow> db_inv (st_db t)"
  using keeps [of s] by simp

end

text \<open>An action that only reads keeps it.\<close>

sublocale reading \<subseteq> keeping
  by unfold_locales (simp add: reads)

text \<open>How \<open>wp\<close> gives the law.\<close>

lemma keeps_wp:
  "wp m (\<lambda>_ t. db_inv (st_db t)) (\<lambda>_ t. db_inv (st_db t)) s \<Longrightarrow> db_inv (st_db (snd (m s)))"
  by (auto simp: wp_def split: prod.splits sum.splits)

lemma wp_keeps:
  assumes "db_inv (st_db (snd (m s)))"
  shows "wp m (\<lambda>_ t. db_inv (st_db t)) (\<lambda>_ t. db_inv (st_db t)) s"
  using assms by (auto simp: wp_def split: prod.splits sum.splits)

end
