(* ===== verification/History.thy ===== *)
theory History
  imports StoreInv
begin

text \<open>
  What the store's operations never take back.  \<open>advances d d'\<close> says that \<open>d'\<close> is a later state
  of the database \<open>d\<close>: rows are never removed (login sessions apart), their identity never changes,
  and the flags and states in them only move forward.  It is a preorder that every kind of statement
  respects, so whether an operation respects it follows from its syntax; the contracts \<open>reading\<close>
  and \<open>atomic\<close> of Database get the same treatment.
\<close>

named_theorems contract_intros "contracts of an action from the contracts of its parts"

section \<open>Tables that only grow\<close>

definition grows :: "('r \<Rightarrow> 'r \<Rightarrow> bool) \<Rightarrow> 'r list \<Rightarrow> 'r list \<Rightarrow> bool" where
  "grows R rs qs \<longleftrightarrow> length rs \<le> length qs \<and> (\<forall>i < length rs. R (rs ! i) (qs ! i))"

text \<open>A row order: what may happen to a row of a table.\<close>

locale row_order =
  fixes R :: "'r \<Rightarrow> 'r \<Rightarrow> bool"
  assumes row_refl: "R r r"
    and row_trans: "R r q \<Longrightarrow> R q p \<Longrightarrow> R r p"
begin

lemma grows_refl: "grows R rs rs"
  by (simp add: grows_def row_refl)

lemma grows_trans: "grows R rs qs \<Longrightarrow> grows R qs ps \<Longrightarrow> grows R rs ps"
  unfolding grows_def by (meson order_less_le_trans order_trans row_trans)

lemma grows_append: "grows R rs (rs @ qs)"
  by (simp add: grows_def nth_append row_refl)

lemma grows_update: "(\<And>r. P r \<Longrightarrow> R r (f r)) \<Longrightarrow> grows R rs (update_where P f rs)"
  by (simp add: grows_def update_where_def row_refl)

lemma grows_in:
  assumes "grows R rs qs" "r \<in> set rs"
  shows "\<exists>q \<in> set qs. R r q"
proof -
  obtain i where "i < length rs" "r = rs ! i" using assms(2) by (metis in_set_conv_nth)
  then show ?thesis using assms(1) by (auto simp: grows_def intro!: bexI [of _ "qs ! i"])
qed

lemmas grows_intros = grows_refl grows_append grows_update

end

section \<open>The order of each table\<close>

definition user_le :: "user_row \<Rightarrow> user_row \<Rightarrow> bool" where
  "user_le u v \<longleftrightarrow> u_id u = u_id v \<and> u_email u = u_email v \<and> u_hash u = u_hash v
     \<and> (u_disabled u \<longrightarrow> u_disabled v)"

definition network_le :: "network_row \<Rightarrow> network_row \<Rightarrow> bool" where
  "network_le n m \<longleftrightarrow> n_id n = n_id m \<and> n_user n = n_user m \<and> (n_deleted n \<longrightarrow> n_deleted m)"

definition token_le :: "token_row \<Rightarrow> token_row \<Rightarrow> bool" where
  "token_le t u \<longleftrightarrow> t_hash t = t_hash u \<and> t_user t = t_user u \<and> t_network t = t_network u
     \<and> t_expires t = t_expires u \<and> (t_used t \<longrightarrow> t_used u)"

definition device_le :: "device_row \<Rightarrow> device_row \<Rightarrow> bool" where
  "device_le r q \<longleftrightarrow> d_id r = d_id q \<and> d_user r = d_user q \<and> d_key r = d_key q
     \<and> (d_revoked r \<longrightarrow> d_revoked q)"

definition binding_le :: "binding_row \<Rightarrow> binding_row \<Rightarrow> bool" where
  "binding_le b c \<longleftrightarrow> b_network b = b_network c \<and> b_device b = b_device c"

definition share_le :: "share_row \<Rightarrow> share_row \<Rightarrow> bool" where
  "share_le s q \<longleftrightarrow> s_nonce s = s_nonce q \<and> s_device s = s_device q \<and> s_network s = s_network q
     \<and> s_expires s = s_expires q \<and> (s_used s \<longrightarrow> s_used q)"

text \<open>A pair moves forward, and every move has a new revision.\<close>

definition pair_le :: "pair_row \<Rightarrow> pair_row \<Rightarrow> bool" where
  "pair_le p q \<longleftrightarrow> p_id p = p_id q \<and> p_network p = p_network q \<and> p_initiator p = p_initiator q
     \<and> p_target p = p_target q \<and> p_expires p = p_expires q \<and> p_state p \<le> p_state q
     \<and> p_revision p \<le> p_revision q \<and> (p_revision p = p_revision q \<longrightarrow> p_state p = p_state q)"

lemmas le_defs = user_le_def network_le_def token_le_def device_le_def binding_le_def share_le_def
  pair_le_def

interpretation user: row_order user_le
  by unfold_locales (simp_all add: user_le_def)

interpretation network: row_order network_le
  by unfold_locales (simp_all add: network_le_def)

interpretation token: row_order token_le
  by unfold_locales (simp_all add: token_le_def)

interpretation device: row_order device_le
  by unfold_locales (simp_all add: device_le_def)

interpretation binding: row_order binding_le
  by unfold_locales (simp_all add: binding_le_def)

interpretation share: row_order share_le
  by unfold_locales (simp_all add: share_le_def)

interpretation pair: row_order pair_le
  by unfold_locales (auto simp: pair_le_def)

interpretation same: row_order "(=)"
  by unfold_locales simp_all

section \<open>The order of databases\<close>

definition advances :: "db \<Rightarrow> db \<Rightarrow> bool" where
  "advances d d' \<longleftrightarrow> grows user_le (users d) (users d') \<and> grows network_le (networks d) (networks d')
     \<and> grows token_le (tokens d) (tokens d') \<and> grows device_le (devices d) (devices d')
     \<and> grows (=) (device_users d) (device_users d') \<and> grows binding_le (bindings d) (bindings d')
     \<and> grows share_le (shares d) (shares d') \<and> grows pair_le (pairs d) (pairs d')
     \<and> grows (=) (renewals d) (renewals d') \<and> grows (=) (audit d) (audit d')"

lemmas all_grows_intros = user.grows_intros network.grows_intros token.grows_intros
  device.grows_intros binding.grows_intros share.grows_intros pair.grows_intros same.grows_intros

lemma advances_refl [simp]: "advances d d"
  by (simp add: advances_def all_grows_intros)

lemma advances_trans: "advances d e \<Longrightarrow> advances e f \<Longrightarrow> advances d f"
  unfolding advances_def
  by (intro conjI; elim conjE)
    (erule (1) user.grows_trans network.grows_trans token.grows_trans device.grows_trans
      binding.grows_trans share.grows_trans pair.grows_trans same.grows_trans)+

text \<open>Every insertion advances.\<close>

lemma advances_ins:
  "ins_user ru d = Some d' \<Longrightarrow> advances d d'"
  "ins_session rs d = Some d' \<Longrightarrow> advances d d'"
  "ins_network rn d = Some d' \<Longrightarrow> advances d d'"
  "ins_token rt d = Some d' \<Longrightarrow> advances d d'"
  "ins_device rd d = Some d' \<Longrightarrow> advances d d'"
  "link_device dev usr d = Some d' \<Longrightarrow> advances d d'"
  "bind_active net dev d = Some d' \<Longrightarrow> advances d d'"
  "ins_share rh d = Some d' \<Longrightarrow> advances d d'"
  "ins_pair rp d = Some d' \<Longrightarrow> advances d d'"
  "ins_renewal rr d = Some d' \<Longrightarrow> advances d d'"
  "ins_audit ev sub at d = Some d' \<Longrightarrow> advances d d'"
  by (auto simp: ins_defs advances_def binding_le_def intro!: all_grows_intros split: if_splits)

text \<open>An update advances when it respects the order of its table.\<close>

lemma advances_upd:
  "(\<And>r. P1 r \<Longrightarrow> user_le r (f1 r)) \<Longrightarrow> advances d (fst (upd_users P1 f1 d))"
  "advances d (fst (del_sessions P2 d))"
  "(\<And>r. P3 r \<Longrightarrow> network_le r (f3 r)) \<Longrightarrow> advances d (fst (upd_networks P3 f3 d))"
  "(\<And>r. P4 r \<Longrightarrow> token_le r (f4 r)) \<Longrightarrow> advances d (fst (upd_tokens P4 f4 d))"
  "(\<And>r. P5 r \<Longrightarrow> device_le r (f5 r)) \<Longrightarrow> advances d (fst (upd_devices P5 f5 d))"
  "(\<And>r. P6 r \<Longrightarrow> binding_le r (f6 r)) \<Longrightarrow> advances d (fst (upd_bindings P6 f6 d))"
  "(\<And>r. P7 r \<Longrightarrow> share_le r (f7 r)) \<Longrightarrow> advances d (fst (upd_shares P7 f7 d))"
  "(\<And>r. P8 r \<Longrightarrow> pair_le r (f8 r)) \<Longrightarrow> advances d (fst (upd_pairs P8 f8 d))"
  by (simp_all add: upd_defs advances_def all_grows_intros)

lemma set_state_le [simp]: "pair_le p (set_state st p) \<longleftrightarrow> p_state p \<le> st"
  by (auto simp: pair_le_def)

section \<open>Actions that advance\<close>

locale advancing =
  fixes m :: "('z, 'a) act"
  assumes advance: "advances (st_db s) (st_db (snd (m s)))"
begin

lemma advance_result: "m s = (r, t) \<Longrightarrow> advances (st_db s) (st_db t)"
  using advance [of s] by simp

end

sublocale reading \<subseteq> advancing
  by unfold_locales (simp add: reads)

lemma advancingI: "(\<And>s r t. m s = (r, t) \<Longrightarrow> advances (st_db s) (st_db t)) \<Longrightarrow> advancing m"
  by unfold_locales (metis prod.collapse)

lemma advancing_ret [contract_intros]: "advancing (ret x)"
  by (rule advancingI) (simp add: ret_def)

lemma advancing_throw [contract_intros]: "advancing (throw e)"
  by (rule advancingI) (simp add: throw_def)

lemma advancing_bnd [contract_intros]:
  assumes "advancing m" "\<And>x. advancing (f x)"
  shows "advancing (bnd m f)"
proof (rule advancingI)
  fix s r t
  assume "bnd m f s = (r, t)"
  moreover obtain r' u where "m s = (r', u)" by fastforce
  ultimately show "advances (st_db s) (st_db t)"
    using advancing.advance_result [OF assms(1), of s r' u] advancing.advance_result [OF assms(2)]
    by (auto simp: bnd_def split: sum.splits intro: advances_trans)
qed

lemma advancing_guard [contract_intros]: "advancing m \<Longrightarrow> advancing (guard c e m)"
  by (simp add: guard_def advancing_throw)

lemma advancing_if [contract_intros]: "advancing m \<Longrightarrow> advancing n \<Longrightarrow> advancing (if c then m else n)"
  by simp

lemma advancing_sum [contract_intros]:
  "(\<And>e. advancing (f e)) \<Longrightarrow> (\<And>x. advancing (g x)) \<Longrightarrow> advancing (case r of Inl e \<Rightarrow> f e | Inr x \<Rightarrow> g x)"
  by (simp split: sum.splits)

lemma advancing_option [contract_intros]:
  "advancing m \<Longrightarrow> (\<And>x. advancing (g x)) \<Longrightarrow> advancing (case r of None \<Rightarrow> m | Some x \<Rightarrow> g x)"
  by (simp split: option.splits)

lemma advancing_prod [contract_intros]:
  "(\<And>x y. advancing (f x y)) \<Longrightarrow> advancing (case p of (x, y) \<Rightarrow> f x y)"
  by (simp split: prod.splits)

lemma advancing_mapErr [contract_intros]: "advancing m \<Longrightarrow> advancing (mapErr g m)"
  by (rule advancingI)
    (auto simp: mapErr_def split: prod.splits sum.splits dest: advancing.advance_result)

lemma advancing_attempt [contract_intros]: "advancing m \<Longrightarrow> advancing (attempt m)"
  by (rule advancingI) (auto simp: attempt_def split: prod.splits dest: advancing.advance_result)

lemma advancing_withStore [contract_intros]: "(\<And>s. advancing (f s)) \<Longrightarrow> advancing (withStore f)"
  by (rule advancingI) (metis withStore_def advancing.advance_result)

lemma advancing_query [contract_intros]: "advancing (query q)"
  by (rule advancingI) (auto simp: query_def split: if_splits)

lemma advancing_queryRow [contract_intros]: "advancing (queryRow q)"
  by (rule advancingI) (auto simp: queryRow_def split: if_splits list.splits)

lemma advancing_execInsert [contract_intros]:
  "(\<And>d d'. g d = Some d' \<Longrightarrow> advances d d') \<Longrightarrow> advancing (execInsert g)"
  by (rule advancingI) (auto simp: execInsert_def split: if_splits option.splits)

lemma advancing_execUpdate [contract_intros]:
  "(\<And>d. advances d (fst (g d))) \<Longrightarrow> advancing (execUpdate g)"
  by (rule advancingI) (auto simp: execUpdate_def split: if_splits prod.splits, metis fst_conv)

lemma advancing_execSelect [contract_intros]:
  "(\<And>d d' n. g d = Some (d', n) \<Longrightarrow> advances d d') \<Longrightarrow> advancing (execSelect g)"
  by (rule advancingI) (auto simp: execSelect_def split: if_splits option.splits)

lemma advancing_transaction [contract_intros]:
  assumes "advancing m"
  shows "advancing (transaction m)"
proof (rule advancingI)
  fix s r t
  assume "transaction m s = (r, t)"
  then show "advances (st_db s) (st_db t)"
    using advancing.advance_result [OF assms, of "tick s"]
    by (auto simp: transaction_def split: if_splits prod.splits sum.splits outcome.splits)
qed

section \<open>Actions that read, and actions that fail without effect\<close>

lemma readingI: "(\<And>s r t. m s = (r, t) \<Longrightarrow> st_db t = st_db s) \<Longrightarrow> reading m"
  by unfold_locales (metis prod.collapse)

lemma reading_result: "reading m \<Longrightarrow> m s = (r, t) \<Longrightarrow> st_db t = st_db s"
  using reading.reads [of m s] by simp

lemma reading_ret [contract_intros]: "reading (ret x)"
  by (rule readingI) (simp add: ret_def)

lemma reading_throw [contract_intros]: "reading (throw e)"
  by (rule readingI) (simp add: throw_def)

lemma reading_bnd [contract_intros]:
  "reading m \<Longrightarrow> (\<And>x. reading (f x)) \<Longrightarrow> reading (bnd m f)"
  by (rule readingI) (auto simp: bnd_def split: prod.splits sum.splits, (metis reading_result)+)

lemma reading_guard [contract_intros]: "reading m \<Longrightarrow> reading (guard c e m)"
  by (simp add: guard_def reading_throw)

lemma reading_if [contract_intros]: "reading m \<Longrightarrow> reading n \<Longrightarrow> reading (if c then m else n)"
  by simp

lemma reading_sum [contract_intros]:
  "(\<And>e. reading (f e)) \<Longrightarrow> (\<And>x. reading (g x)) \<Longrightarrow> reading (case r of Inl e \<Rightarrow> f e | Inr x \<Rightarrow> g x)"
  by (simp split: sum.splits)

lemma reading_option [contract_intros]:
  "reading m \<Longrightarrow> (\<And>x. reading (g x)) \<Longrightarrow> reading (case r of None \<Rightarrow> m | Some x \<Rightarrow> g x)"
  by (simp split: option.splits)

lemma reading_prod [contract_intros]:
  "(\<And>x y. reading (f x y)) \<Longrightarrow> reading (case p of (x, y) \<Rightarrow> f x y)"
  by (simp split: prod.splits)

lemma reading_mapErr [contract_intros]: "reading m \<Longrightarrow> reading (mapErr g m)"
  by (rule readingI) (auto simp: mapErr_def split: prod.splits sum.splits dest: reading_result)

lemma reading_attempt [contract_intros]: "reading m \<Longrightarrow> reading (attempt m)"
  by (rule readingI) (auto simp: attempt_def split: prod.splits dest: reading_result)

lemma reading_withStore [contract_intros]: "(\<And>s. reading (f s)) \<Longrightarrow> reading (withStore f)"
  by (rule readingI) (metis withStore_def reading_result)

lemma reading_query [contract_intros]: "reading (query q)"
  by (rule readingI) (auto simp: query_def split: if_splits)

lemma reading_queryRow [contract_intros]: "reading (queryRow q)"
  by (rule readingI) (auto simp: queryRow_def split: if_splits list.splits)

lemma atomic_reading: "reading m \<Longrightarrow> atomic m"
  by (rule atomic.intro) (rule reading_result)

lemma atomic_throw [contract_intros]: "atomic (throw e)"
  by (rule atomic.intro) (simp add: throw_def)

lemma atomic_ret [contract_intros]: "atomic (ret x)"
  by (rule atomic.intro) (simp add: ret_def)

lemma atomic_tx [contract_intros]: "atomic (transaction m)"
  by (rule tx.atomic_axioms)

lemma atomic_bnd [contract_intros]:
  assumes "reading m" "\<And>x. atomic (f x)"
  shows "atomic (bnd m f)"
proof
  fix s e t
  assume "bnd m f s = (Inl e, t)"
  then show "st_db t = st_db s"
    using reading_result [OF assms(1)] atomic.fails_clean [OF assms(2)]
    by (auto simp: bnd_def split: prod.splits sum.splits)
qed

lemma atomic_guard [contract_intros]: "atomic m \<Longrightarrow> atomic (guard c e m)"
  by (simp add: guard_def atomic_throw)

lemma atomic_if [contract_intros]: "atomic m \<Longrightarrow> atomic n \<Longrightarrow> atomic (if c then m else n)"
  by simp

lemma atomic_sum [contract_intros]:
  "(\<And>e. atomic (f e)) \<Longrightarrow> (\<And>x. atomic (g x)) \<Longrightarrow> atomic (case r of Inl e \<Rightarrow> f e | Inr x \<Rightarrow> g x)"
  by (simp split: sum.splits)

lemma atomic_option [contract_intros]:
  "atomic m \<Longrightarrow> (\<And>x. atomic (g x)) \<Longrightarrow> atomic (case r of None \<Rightarrow> m | Some x \<Rightarrow> g x)"
  by (simp split: option.splits)

lemma atomic_withStore [contract_intros]: "(\<And>s. atomic (f s)) \<Longrightarrow> atomic (withStore f)"
  by (rule atomic.intro) (metis withStore_def atomic.fails_clean)

section \<open>Actions that keep the invariant\<close>

lemma keepingI: "(\<And>s r t. m s = (r, t) \<Longrightarrow> db_inv (st_db s) \<Longrightarrow> db_inv (st_db t)) \<Longrightarrow> keeping m"
  by unfold_locales (metis prod.collapse)

lemma keeping_reading: "reading m \<Longrightarrow> keeping m"
  by (rule keepingI) (simp add: reading_result)

lemma keeping_ret [contract_intros]: "keeping (ret x)"
  by (rule keepingI) (simp add: ret_def)

lemma keeping_throw [contract_intros]: "keeping (throw e)"
  by (rule keepingI) (simp add: throw_def)

lemma keeping_bnd [contract_intros]:
  "keeping m \<Longrightarrow> (\<And>x. keeping (f x)) \<Longrightarrow> keeping (bnd m f)"
  by (rule keepingI) (auto simp: bnd_def split: prod.splits sum.splits dest: keeping.keeps_result)

lemma keeping_guard [contract_intros]: "keeping m \<Longrightarrow> keeping (guard c e m)"
  by (simp add: guard_def keeping_throw)

lemma keeping_if [contract_intros]: "keeping m \<Longrightarrow> keeping n \<Longrightarrow> keeping (if c then m else n)"
  by simp

lemma keeping_sum [contract_intros]:
  "(\<And>e. keeping (f e)) \<Longrightarrow> (\<And>x. keeping (g x)) \<Longrightarrow> keeping (case r of Inl e \<Rightarrow> f e | Inr x \<Rightarrow> g x)"
  by (simp split: sum.splits)

lemma keeping_option [contract_intros]:
  "keeping m \<Longrightarrow> (\<And>x. keeping (g x)) \<Longrightarrow> keeping (case r of None \<Rightarrow> m | Some x \<Rightarrow> g x)"
  by (simp split: option.splits)

lemma keeping_attempt [contract_intros]: "keeping m \<Longrightarrow> keeping (attempt m)"
  by (rule keepingI) (auto simp: attempt_def split: prod.splits dest: keeping.keeps_result)

lemma keeping_mapErr [contract_intros]: "keeping m \<Longrightarrow> keeping (mapErr g m)"
  by (rule keepingI) (auto simp: mapErr_def split: prod.splits sum.splits dest: keeping.keeps_result)

lemma keeping_withStore [contract_intros]: "(\<And>s. keeping (f s)) \<Longrightarrow> keeping (withStore f)"
  by (rule keepingI) (metis withStore_def keeping.keeps_result)

lemma keeping_query [contract_intros]: "keeping (query q)" "keeping (queryRow r)"
  by (rule keeping_reading, rule reading_query) (rule keeping_reading, rule reading_queryRow)

end
