(* ===== verification/GoText.thy ===== *)
theory GoText
  imports Prelude
begin

text \<open>
  The parts of Go's \<open>unicode/utf8\<close>, \<open>strings\<close>, \<open>regexp\<close>, \<open>encoding/hex\<close>,
  \<open>encoding/base64\<close> and \<open>strconv\<close> packages that the server uses, on byte lists, with the
  round-trip facts of the codecs.  The locale \<open>codec\<close> states what an encoder and a decoder
  promise each other; hex and unpadded URL base64 are its instances.
\<close>

section \<open>UTF-8\<close>

abbreviation byte_of :: "char \<Rightarrow> nat" where
  "byte_of c \<equiv> of_char c"

definition rune_error :: nat where
  "rune_error = 65533"

text \<open>\<open>utf8.DecodeRune\<close>: the first rune and its width; an invalid encoding is
  \<open>RuneError\<close> of width 1, the empty string \<open>RuneError\<close> of width 0.\<close>

definition continuation :: "nat \<Rightarrow> nat \<Rightarrow> nat \<Rightarrow> bool" where
  "continuation lo hi b \<longleftrightarrow> lo \<le> b \<and> b \<le> hi"

definition second_lo :: "nat \<Rightarrow> nat" where
  "second_lo b = (if b = 0xE0 then 0xA0 else if b = 0xF0 then 0x90 else 0x80)"

definition second_hi :: "nat \<Rightarrow> nat" where
  "second_hi b = (if b = 0xED then 0x9F else if b = 0xF4 then 0x8F else 0xBF)"

definition decode_multi :: "nat \<Rightarrow> nat list \<Rightarrow> nat \<times> nat" where
  "decode_multi b0 rest =
     (if b0 < 0xC2 \<or> 0xF4 < b0 then (rune_error, 1)
      else case rest of
        [] \<Rightarrow> (rune_error, 1)
      | b1 # rest1 \<Rightarrow>
          if \<not> continuation (second_lo b0) (second_hi b0) b1 then (rune_error, 1)
          else if b0 < 0xE0 then ((b0 mod 32) * 64 + b1 mod 64, 2)
          else case rest1 of
            [] \<Rightarrow> (rune_error, 1)
          | b2 # rest2 \<Rightarrow>
              if \<not> continuation 0x80 0xBF b2 then (rune_error, 1)
              else if b0 < 0xF0 then ((b0 mod 16) * 4096 + (b1 mod 64) * 64 + b2 mod 64, 3)
              else case rest2 of
                [] \<Rightarrow> (rune_error, 1)
              | b3 # _ \<Rightarrow>
                  if \<not> continuation 0x80 0xBF b3 then (rune_error, 1)
                  else ((b0 mod 8) * 262144 + (b1 mod 64) * 4096 + (b2 mod 64) * 64 + b3 mod 64, 4))"

definition decode_rune :: "bytes \<Rightarrow> nat \<times> nat" where
  "decode_rune s = (case s of
     [] \<Rightarrow> (rune_error, 0)
   | c # cs \<Rightarrow> if byte_of c < 0x80 then (byte_of c, 1)
       else decode_multi (byte_of c) (map byte_of (take 3 cs)))"

lemma decode_rune_Nil [simp]: "decode_rune [] = (rune_error, 0)"
  by (simp add: decode_rune_def)

lemma decode_multi_width: "1 \<le> snd (decode_multi b rest) \<and> snd (decode_multi b rest) \<le> 4"
  by (simp add: decode_multi_def split: list.splits)

lemma decode_rune_width_pos: "s \<noteq> [] \<Longrightarrow> 1 \<le> snd (decode_rune s)"
  using decode_multi_width by (cases s) (auto simp: decode_rune_def)

text \<open>\<open>utf8.ValidString\<close>.\<close>

function valid_utf8 :: "bytes \<Rightarrow> bool" where
  "valid_utf8 s =
     (if s = [] then True
      else let (r, w) = decode_rune s
           in if r = rune_error \<and> w = 1 then False else valid_utf8 (drop w s))"
  by pat_completeness auto
termination
proof (relation "measure length")
  fix s :: bytes and x :: "nat \<times> nat" and r w :: nat
  assume "s \<noteq> []" "x = decode_rune s" "(r, w) = x"
  then have "1 \<le> w" using decode_rune_width_pos [of s] by (metis snd_conv)
  with \<open>s \<noteq> []\<close> show "(drop w s, s) \<in> measure length" by simp
qed simp

declare valid_utf8.simps [simp del]

text \<open>\<open>utf8.DecodeLastRune\<close>: back over at most three continuation bytes.\<close>

definition rune_start :: "char \<Rightarrow> bool" where
  "rune_start c \<longleftrightarrow> byte_of c < 0x80 \<or> 0xC0 \<le> byte_of c"

definition decode_last_rune :: "bytes \<Rightarrow> nat \<times> nat" where
  "decode_last_rune s =
     (if s = [] then (rune_error, 0)
      else if byte_of (last s) < 0x80 then (byte_of (last s), 1)
      else let tail = rev (take 3 (tl (rev s)));
               back = length (takeWhile (\<lambda>c. \<not> rune_start c) (rev tail));
               n = min (length s) (back + 2);
               (r, w) = decode_rune (drop (length s - n) s)
           in if w = n then (r, w) else (rune_error, 1))"

section \<open>The functions of package strings\<close>

text \<open>\<open>unicode.IsSpace\<close>: the code points with property White Space.\<close>

definition is_space :: "nat \<Rightarrow> bool" where
  "is_space r \<longleftrightarrow> (9 \<le> r \<and> r \<le> 13) \<or> r = 32 \<or> r = 0x85 \<or> r = 0xA0 \<or> r = 0x1680
     \<or> (0x2000 \<le> r \<and> r \<le> 0x200A) \<or> r = 0x2028 \<or> r = 0x2029 \<or> r = 0x202F \<or> r = 0x205F
     \<or> r = 0x3000"

function trim_left :: "bytes \<Rightarrow> bytes" where
  "trim_left s =
     (if s = [] then []
      else let (r, w) = decode_rune s
           in if is_space r then trim_left (drop w s) else s)"
  by pat_completeness auto
termination
proof (relation "measure length")
  fix s :: bytes and x :: "nat \<times> nat" and r w :: nat
  assume "s \<noteq> []" "x = decode_rune s" "(r, w) = x"
  then have "1 \<le> w" using decode_rune_width_pos [of s] by (metis snd_conv)
  with \<open>s \<noteq> []\<close> show "(drop w s, s) \<in> measure length" by simp
qed simp

declare trim_left.simps [simp del]

lemma decode_last_rune_width_pos: "s \<noteq> [] \<Longrightarrow> 1 \<le> snd (decode_last_rune s)"
  by (cases s) (auto simp: decode_last_rune_def Let_def min_def split: prod.splits if_splits)

function trim_right :: "bytes \<Rightarrow> bytes" where
  "trim_right s =
     (if s = [] then []
      else let (r, w) = decode_last_rune s
           in if is_space r then trim_right (take (length s - w) s) else s)"
  by pat_completeness auto
termination
proof (relation "measure length")
  fix s :: bytes and x :: "nat \<times> nat" and r w :: nat
  assume "s \<noteq> []" "x = decode_last_rune s" "(r, w) = x"
  then have "1 \<le> w" using decode_last_rune_width_pos [of s] by (metis snd_conv)
  with \<open>s \<noteq> []\<close> show "(take (length s - w) s, s) \<in> measure length" by (cases s) auto
qed simp

declare trim_right.simps [simp del]

text \<open>\<open>strings.TrimSpace\<close> and \<open>strings.ContainsAny\<close> (for a set of ASCII bytes).\<close>

definition trim_space :: "bytes \<Rightarrow> bytes" where
  "trim_space s = trim_right (trim_left s)"

definition contains_any :: "bytes \<Rightarrow> bytes \<Rightarrow> bool" where
  "contains_any s chars \<longleftrightarrow> list_ex (\<lambda>c. List.member chars c) s"

text \<open>The set \<open>"\r\n\x00"\<close> every name and telemetry field is checked against.\<close>

definition line_breaks :: bytes where
  "line_breaks = [CHR 0x0D, CHR 0x0A, CHR 0x00]"

section \<open>Hexadecimal\<close>

definition hex_digit :: "nat \<Rightarrow> char" where
  "hex_digit n = (if n < 10 then char_of (48 + n) else char_of (87 + n))"

definition hex_encode :: "bytes \<Rightarrow> bytes" where
  "hex_encode s = concat (map (\<lambda>c. [hex_digit (byte_of c div 16), hex_digit (byte_of c mod 16)]) s)"

definition hex_value :: "char \<Rightarrow> nat option" where
  "hex_value c = (let b = byte_of c in
     if 48 \<le> b \<and> b \<le> 57 then Some (b - 48)
     else if 97 \<le> b \<and> b \<le> 102 then Some (b - 87)
     else if 65 \<le> b \<and> b \<le> 70 then Some (b - 55)
     else None)"

text \<open>\<open>hex.DecodeString\<close>; \<open>None\<close> is its error.\<close>

fun hex_decode :: "bytes \<Rightarrow> bytes option" where
  "hex_decode [] = Some []"
| "hex_decode [c] = None"
| "hex_decode (c # d # s) =
     (case (hex_value c, hex_value d, hex_decode s) of
        (Some h, Some l, Some rest) \<Rightarrow> Some (char_of (16 * h + l) # rest)
      | _ \<Rightarrow> None)"

text \<open>The class \<open>[a-f0-9]\<close> of the identifier patterns.\<close>

definition lower_hex :: "char \<Rightarrow> bool" where
  "lower_hex c \<longleftrightarrow> (let b = byte_of c in (97 \<le> b \<and> b \<le> 102) \<or> (48 \<le> b \<and> b \<le> 57))"

lemma byte_of_char_of [simp]: "byte_of (char_of n) = n mod 256"
  by simp

lemma byte_lt [simp]: "byte_of c < 256"
  by simp

lemma hex_digit_value [simp]: "n < 16 \<Longrightarrow> hex_value (hex_digit n) = Some n"
  by (simp add: hex_value_def hex_digit_def Let_def)

lemma hex_digit_lower: "n < 16 \<Longrightarrow> lower_hex (hex_digit n)"
  by (simp add: lower_hex_def hex_digit_def Let_def)

lemma nibbles [simp]: "byte_of c div 16 < 16" "byte_of c mod 16 < 16"
  using byte_lt [of c] by (simp_all add: less_mult_imp_div_less)

lemma length_hex_encode [simp]: "length (hex_encode s) = 2 * length s"
  by (induction s) (simp_all add: hex_encode_def)

lemma hex_encode_lower: "list_all lower_hex (hex_encode s)"
  by (induction s) (simp_all add: hex_encode_def hex_digit_lower)

lemma hex_roundtrip: "hex_decode (hex_encode s) = Some s"
proof (induction s)
  case (Cons c s)
  have "16 * (byte_of c div 16) + byte_of c mod 16 = byte_of c"
    by simp
  then show ?case
    using Cons by (simp add: hex_encode_def)
qed (simp add: hex_encode_def)

section \<open>Unpadded URL base64\<close>

definition b64_char :: "nat \<Rightarrow> char" where
  "b64_char n =
     (if n < 26 then char_of (65 + n)
      else if n < 52 then char_of (71 + n)
      else if n < 62 then char_of (n - 4)
      else if n = 62 then CHR 0x2D else CHR 0x5F)"

definition b64_value :: "char \<Rightarrow> nat option" where
  "b64_value c = (let b = byte_of c in
     if 65 \<le> b \<and> b \<le> 90 then Some (b - 65)
     else if 97 \<le> b \<and> b \<le> 122 then Some (b - 71)
     else if 48 \<le> b \<and> b \<le> 57 then Some (b + 4)
     else if b = 0x2D then Some 62
     else if b = 0x5F then Some 63
     else None)"

text \<open>\<open>base64.RawURLEncoding.EncodeToString\<close>.\<close>

fun b64_encode :: "bytes \<Rightarrow> bytes" where
  "b64_encode [] = []"
| "b64_encode [a] = (let x = byte_of a in [b64_char (x div 4), b64_char ((x mod 4) * 16)])"
| "b64_encode [a, b] = (let x = byte_of a; y = byte_of b in
     [b64_char (x div 4), b64_char ((x mod 4) * 16 + y div 16), b64_char ((y mod 16) * 4)])"
| "b64_encode (a # b # c # s) = (let x = byte_of a; y = byte_of b; z = byte_of c in
     b64_char (x div 4) # b64_char ((x mod 4) * 16 + y div 16)
     # b64_char ((y mod 16) * 4 + z div 64) # b64_char (z mod 64) # b64_encode s)"

text \<open>
  \<open>base64.RawURLEncoding.DecodeString\<close>: carriage returns and line feeds are skipped wherever
  they stand, the unused low bits of a last short group are not checked (the encoding is not
  \<open>Strict\<close>), any other foreign byte and a lone last character are errors.
\<close>

fun b64_groups :: "nat list \<Rightarrow> bytes option" where
  "b64_groups [] = Some []"
| "b64_groups [v] = None"
| "b64_groups [v, w] = Some [char_of (v * 4 + w div 16)]"
| "b64_groups [v, w, x] = Some [char_of (v * 4 + w div 16), char_of ((w mod 16) * 16 + x div 4)]"
| "b64_groups (v # w # x # y # s) =
     map_option (\<lambda>rest. char_of (v * 4 + w div 16) # char_of ((w mod 16) * 16 + x div 4)
       # char_of ((x mod 4) * 64 + y) # rest) (b64_groups s)"

fun b64_values :: "bytes \<Rightarrow> nat list option" where
  "b64_values [] = Some []"
| "b64_values (c # s) =
     (if c = CHR 0x0D \<or> c = CHR 0x0A then b64_values s
      else case (b64_value c, b64_values s) of
        (Some v, Some vs) \<Rightarrow> Some (v # vs)
      | _ \<Rightarrow> None)"

definition b64_decode :: "bytes \<Rightarrow> bytes option" where
  "b64_decode s = (case b64_values s of None \<Rightarrow> None | Some vs \<Rightarrow> b64_groups vs)"

lemma b64_char_value [simp]: "n < 64 \<Longrightarrow> b64_value (b64_char n) = Some n"
  by (auto simp: b64_value_def b64_char_def Let_def)

lemma b64_char_no_break [simp]:
  "n < 64 \<Longrightarrow> b64_char n \<noteq> CHR 0x0D \<and> b64_char n \<noteq> CHR 0x0A"
proof -
  assume "n < 64"
  then have "b64_value (b64_char n) \<noteq> None" by simp
  moreover have "b64_value (CHR 0x0D) = None" "b64_value (CHR 0x0A) = None"
    by (simp_all add: b64_value_def)
  ultimately show ?thesis by metis
qed

lemma b64_value_cons [simp]:
  "n < 64 \<Longrightarrow> b64_values (b64_char n # s) = map_option (\<lambda>vs. n # vs) (b64_values s)"
  by (simp split: option.splits)

lemma digit_bounds [simp]:
  fixes x y :: nat
  shows "x < 256 \<Longrightarrow> x div 4 < 64" "(x mod 4) * 16 < 64" "(x mod 16) * 4 < 64"
    "y < 256 \<Longrightarrow> (x mod 4) * 16 + y div 16 < 64" "y < 256 \<Longrightarrow> (x mod 16) * 4 + y div 64 < 64"
proof -
  have 4: "x mod 4 \<le> 3" and 16: "x mod 16 \<le> 15"
    using mod_less_divisor [of 4 x] mod_less_divisor [of 16 x] by linarith+
  show "x < 256 \<Longrightarrow> x div 4 < 64" by (simp add: less_mult_imp_div_less)
  show "(x mod 4) * 16 < 64" "(x mod 16) * 4 < 64" using 4 16 by simp_all
  show "(x mod 4) * 16 + y div 16 < 64" if "y < 256"
  proof -
    from that have "y div 16 < 16" by (simp add: less_mult_imp_div_less)
    with 4 show ?thesis by linarith
  qed
  show "(x mod 16) * 4 + y div 64 < 64" if "y < 256"
  proof -
    from that have "y div 64 < 4" by (simp add: less_mult_imp_div_less)
    with 16 show ?thesis by linarith
  qed
qed

lemma high_digits [simp]:
  fixes x :: nat
  shows "x < 256 \<Longrightarrow> x div 16 div 16 = 0" "x < 256 \<Longrightarrow> x div 16 mod 16 = x div 16"
    "x < 256 \<Longrightarrow> x div 64 div 4 = 0" "x < 256 \<Longrightarrow> x div 64 mod 4 = x div 64"
  by (simp_all add: less_mult_imp_div_less)

lemma b64_roundtrip: "b64_decode (b64_encode s) = Some s"
proof (induction s rule: b64_encode.induct)
  case (4 a b c s)
  then have "b64_decode (b64_encode s) = Some s" by blast
  then obtain vs where "b64_values (b64_encode s) = Some vs" "b64_groups vs = Some s"
    by (auto simp: b64_decode_def split: option.splits)
  then show ?case
    by (simp add: b64_decode_def Let_def del: b64_values.simps(2))
qed (simp_all add: b64_decode_def Let_def del: b64_values.simps(2))

section \<open>The contract of a codec\<close>

locale codec =
  fixes enc :: "'a \<Rightarrow> bytes" and dec :: "bytes \<Rightarrow> 'a option"
  assumes dec_enc: "dec (enc x) = Some x"
begin

lemma enc_inj: "enc x = enc y \<Longrightarrow> x = y"
  by (metis dec_enc option.inject)

lemma enc_eq_iff: "enc x = enc y \<longleftrightarrow> x = y"
  by (auto dest: enc_inj)

end

interpretation hex: codec hex_encode hex_decode
  by unfold_locales (rule hex_roundtrip)

interpretation b64: codec b64_encode b64_decode
  by unfold_locales (rule b64_roundtrip)

section \<open>Decimal numbers\<close>

text \<open>\<open>strconv.Itoa\<close> and \<open>FormatInt(_, 10)\<close>.\<close>

fun decimal_nat :: "nat \<Rightarrow> bytes" where
  "decimal_nat n = (if n < 10 then [char_of (48 + n)] else decimal_nat (n div 10) @ [char_of (48 + n mod 10)])"

declare decimal_nat.simps [simp del]

definition itoa :: "int \<Rightarrow> bytes" where
  "itoa i = (if i < 0 then CHR 0x2D # decimal_nat (nat (- i)) else decimal_nat (nat i))"

fun parse_nat :: "nat \<Rightarrow> bytes \<Rightarrow> nat option" where
  "parse_nat acc [] = Some acc"
| "parse_nat acc (c # s) =
     (if 48 \<le> byte_of c \<and> byte_of c \<le> 57 then parse_nat (10 * acc + (byte_of c - 48)) s else None)"

definition read_decimal :: "bytes \<Rightarrow> int option" where
  "read_decimal s = (case s of
     [] \<Rightarrow> None
   | c # t \<Rightarrow> if c = CHR 0x2D then map_option (\<lambda>n. - int n) (parse_nat 0 t)
              else map_option int (parse_nat 0 s))"

lemma parse_nat_append:
  "parse_nat acc (s @ t) = (case parse_nat acc s of None \<Rightarrow> None | Some a \<Rightarrow> parse_nat a t)"
  by (induction s arbitrary: acc) auto

lemma parse_decimal_nat: "parse_nat 0 (decimal_nat n) = Some n"
proof (induction n rule: decimal_nat.induct)
  case (1 n)
  show ?case
  proof (cases "n < 10")
    case True
    then show ?thesis by (simp add: decimal_nat.simps [of n])
  next
    case False
    with 1 have "parse_nat 0 (decimal_nat (n div 10)) = Some (n div 10)" by simp
    with False show ?thesis
      by (simp add: decimal_nat.simps [of n] parse_nat_append)
  qed
qed

lemma decimal_nat_digits: "c \<in> set (decimal_nat n) \<Longrightarrow> 48 \<le> byte_of c \<and> byte_of c \<le> 57"
proof (induction n rule: decimal_nat.induct)
  case (1 n)
  show ?case
  proof (cases "n < 10")
    case True
    with 1 show ?thesis by (auto simp: decimal_nat.simps [of n])
  next
    case False
    with 1 show ?thesis by (auto simp: decimal_nat.simps [of n])
  qed
qed

lemma decimal_nat_nonempty [simp]: "decimal_nat n \<noteq> []"
  by (simp add: decimal_nat.simps [of n])

lemma read_itoa: "read_decimal (itoa i) = Some i"
proof (cases "i < 0")
  case True
  then show ?thesis by (simp add: itoa_def read_decimal_def parse_decimal_nat)
next
  case False
  have "hd (decimal_nat (nat i)) \<in> set (decimal_nat (nat i))"
    by simp
  then have "48 \<le> byte_of (hd (decimal_nat (nat i)))"
    using decimal_nat_digits by blast
  then have "hd (decimal_nat (nat i)) \<noteq> CHR 0x2D"
    by auto
  with False show ?thesis
    using parse_decimal_nat [of "nat i"] decimal_nat_nonempty [of "nat i"]
    by (cases "decimal_nat (nat i)") (auto simp: itoa_def read_decimal_def simp del: parse_nat.simps)
qed

interpretation decimal: codec itoa read_decimal
  by unfold_locales (rule read_itoa)

end
