(* ===== verification/Identity.thy ===== *)
theory Identity
  imports GoText
begin

text \<open>
  Identifiers and secrets (\<open>internal/protocol/signal.go\<close>, lines 15 to 56) and the record of
  the cryptographic functions the server calls.

  Cryptography is a parameter of the model: a value of the record \<open>crypto\<close> is passed to every
  definition that uses SHA-256, Ed25519, bcrypt, PEM or X.509.  No theorem assumes more of it
  than what is named in \<open>sound_crypto\<close>: digests have 32 bytes, keys 32 and a signature made with
  a key verifies under its public key.  Random bytes (\<open>crypto/rand\<close>) are arguments of the
  operations that draw them.
\<close>

section \<open>Cryptography\<close>

text \<open>A parsed certificate request: whether its signature checks, and its Ed25519 key if it has one.\<close>

record csr =
  csr_signature_ok :: bool
  csr_public :: "bytes option"

record certificate =
  cert_CN :: string
  cert_public :: "bytes option"
  cert_notBefore :: time
  cert_notAfter :: time

record crypto =
  sha256 :: "bytes \<Rightarrow> bytes"
  ed_public :: "bytes \<Rightarrow> bytes"
  ed_sign :: "bytes \<Rightarrow> bytes \<Rightarrow> bytes"
  ed_verify :: "bytes \<Rightarrow> bytes \<Rightarrow> bytes \<Rightarrow> bool"
  bcrypt_hash :: "bytes \<Rightarrow> bytes \<Rightarrow> bytes option"
  bcrypt_matches :: "bytes \<Rightarrow> bytes \<Rightarrow> bool"
  pem_decode :: "bytes \<Rightarrow> (string \<times> bytes \<times> bytes) option"
  parse_csr :: "bytes \<Rightarrow> csr option"
  create_cert :: "bytes \<Rightarrow> bytes \<Rightarrow> bytes \<Rightarrow> string \<Rightarrow> time \<Rightarrow> time \<Rightarrow> bytes \<Rightarrow> bytes option"
  parse_cert :: "bytes \<Rightarrow> certificate option"
  verify_cert :: "bytes \<Rightarrow> certificate \<Rightarrow> time \<Rightarrow> bool"

definition sound_crypto :: "crypto \<Rightarrow> bool" where
  "sound_crypto C \<longleftrightarrow> (\<forall>x. length (sha256 C x) = 32) \<and> (\<forall>k. length (ed_public C k) = 32)
     \<and> (\<forall>k m. ed_verify C (ed_public C k) m (ed_sign C k m))"

section \<open>Identifiers\<close>

text \<open>\<open>identifier\<close> matches \<open>^[a-f0-9]{12}$\<close>, \<open>nonceShape\<close> \<open>^[a-f0-9]{32}$\<close>; Go's \<open>$\<close>
  without the \<open>m\<close> flag is the end of the text.\<close>

definition ValidID :: "string \<Rightarrow> bool" where
  "ValidID value \<longleftrightarrow> length value = 12 \<and> list_all lower_hex value"

definition ValidNonce :: "string \<Rightarrow> bool" where
  "ValidNonce value \<longleftrightarrow> length value = 32 \<and> list_all lower_hex value"

text \<open>\<open>NewID\<close> of the six random bytes it read (the process panics if it can read none).\<close>

definition NewID :: "bytes \<Rightarrow> string" where
  "NewID value = hex_encode value"

text \<open>\<open>NewSecret\<close> of the 32 random bytes it read, or of the error of \<open>rand.Read\<close>.\<close>

definition NewSecret :: "bytes option \<Rightarrow> err + string" where
  "NewSecret value = (case value of None \<Rightarrow> Inl Lib_error | Some b \<Rightarrow> Inr (hex_encode b))"

definition KeyID :: "crypto \<Rightarrow> bytes \<Rightarrow> string" where
  "KeyID C public = hex_encode (take 6 (sha256 C public))"

text \<open>\<open>digest\<close> of \<open>enrollment.go\<close>: what the database keeps of a secret.\<close>

definition digest :: "crypto \<Rightarrow> string \<Rightarrow> string" where
  "digest C value = hex_encode (sha256 C value)"

lemma ValidID_NewID: "length value = 6 \<Longrightarrow> ValidID (NewID value)"
  by (simp add: ValidID_def NewID_def hex_encode_lower)

lemma ValidID_KeyID: "sound_crypto C \<Longrightarrow> ValidID (KeyID C public)"
  by (simp add: ValidID_def KeyID_def hex_encode_lower sound_crypto_def)

lemma NewID_inj: "NewID a = NewID b \<Longrightarrow> a = b"
  unfolding NewID_def by (rule hex.enc_inj)

lemma NewSecret_length: "length b = 32 \<Longrightarrow> NewSecret (Some b) = Inr t \<Longrightarrow> length t = 64"
  by (auto simp: NewSecret_def)

end
