(* ===== verification/Users.thy ===== *)
theory Users
  imports History Identity
begin

text \<open>
  Accounts and login sessions (\<open>internal/coordinator/users.go\<close>): \<open>CreateUser\<close>, \<open>Login\<close>,
  \<open>AuthenticateUser\<close>, \<open>Logout\<close> and \<open>DisableUser\<close>.
\<close>

section \<open>Data\<close>

record User =
  usr_ID :: string
  usr_Username :: string

record UserSession =
  ses_User :: User
  ses_Token :: string
  ses_ExpiresAt :: int

text \<open>\<open>emailPattern\<close>: \<open>^[a-zA-Z0-9._%+-]+@[a-zA-Z0-9.-]+\.[a-zA-Z]{2,}$\<close>.  A match is a
  split at an at sign and, after it, at a full stop.\<close>

definition letter :: "char \<Rightarrow> bool" where
  "letter c \<longleftrightarrow> (let b = byte_of c in (65 \<le> b \<and> b \<le> 90) \<or> (97 \<le> b \<and> b \<le> 122))"

definition digit :: "char \<Rightarrow> bool" where
  "digit c \<longleftrightarrow> (let b = byte_of c in 48 \<le> b \<and> b \<le> 57)"

definition local_char :: "char \<Rightarrow> bool" where
  "local_char c \<longleftrightarrow> letter c \<or> digit c \<or> List.member ''._%+-'' c"

definition domain_char :: "char \<Rightarrow> bool" where
  "domain_char c \<longleftrightarrow> letter c \<or> digit c \<or> List.member ''.-'' c"

definition domain_ok :: "string \<Rightarrow> bool" where
  "domain_ok t = list_ex (\<lambda>j. t ! j = CHR ''.'' \<and> 0 < j \<and> list_all domain_char (take j t)
     \<and> 2 \<le> length (drop (Suc j) t) \<and> list_all letter (drop (Suc j) t)) [0..<length t]"

definition emailPattern :: "string \<Rightarrow> bool" where
  "emailPattern s = list_ex (\<lambda>i. s ! i = CHR ''@'' \<and> 0 < i \<and> list_all local_char (take i s)
     \<and> domain_ok (drop (Suc i) s)) [0..<length s]"

section \<open>Operations\<close>

definition CreateUser :: "crypto \<Rightarrow> bytes \<Rightarrow> bytes \<Rightarrow> string \<Rightarrow> string \<Rightarrow> ('z, User) act" where
  "CreateUser C salt rnd email password =
     guard (emailPattern email \<and> length email \<le> 254 \<and> 12 \<le> length password \<and> length password \<le> 72)
       ''p2p.invalid_user_credentials''
     (case bcrypt_hash C salt password of
        None \<Rightarrow> throw Lib_error
      | Some hash \<Rightarrow>
          (let user = \<lparr>usr_ID = NewID rnd, usr_Username = email\<rparr> in
           bnd (mapErr (\<lambda>_. P2p ''p2p.user_conflict'')
                 (execInsert (ins_user \<lparr>u_id = usr_ID user, u_email = email, u_hash = hash, u_disabled = False\<rparr>)))
             (\<lambda>_. ret user)))"

text \<open>\<open>INSERT INTO user_sessions SELECT ?,id,? FROM users WHERE id=? AND disabled=0\<close>.\<close>

definition ins_session_of :: "string \<Rightarrow> int \<Rightarrow> string \<Rightarrow> db \<Rightarrow> (db \<times> nat) option" where
  "ins_session_of hash expires usr d =
     (if list_ex (\<lambda>u. u_id u = usr \<and> \<not> u_disabled u) (users d)
      then map_option (\<lambda>e. (e, 1)) (ins_session \<lparr>us_hash = hash, us_user = usr, us_expires = expires\<rparr> d)
      else Some (d, 0))"

definition login_body ::
  "crypto \<Rightarrow> bytes option \<Rightarrow> string \<Rightarrow> string \<Rightarrow> time \<Rightarrow> ('z, UserSession) act" where
  "login_body C rnd username password now =
     guard (length username \<le> 254 \<and> length password \<le> 72) ''p2p.login_failed''
     (withStore (\<lambda>store. bnd (attempt (queryRow (\<lambda>d. [(u_id u, u_email u, u_hash u). u \<leftarrow> users d,
                                     u_email u = username \<and> \<not> u_disabled u])))
        (\<lambda>row. guard (bcrypt_matches C (case row of Inl err \<Rightarrow> st_unknownPassword store | Inr (_, _, hash) \<Rightarrow> hash)
                          password \<and> \<not> isl row) ''p2p.login_failed''
         (case projr row of (uid, uname, _) \<Rightarrow>
            (case NewSecret rnd of
               Inl err \<Rightarrow> throw err
             | Inr token \<Rightarrow>
                 (let session = \<lparr>ses_User = \<lparr>usr_ID = uid, usr_Username = uname\<rparr>, ses_Token = token,
                                  ses_ExpiresAt = unix (now + 24 * hour)\<rparr> in
                  bnd (execSelect (ins_session_of (digest C token) (ses_ExpiresAt session) uid))
                    (\<lambda>count. guard (count = 1) ''p2p.login_failed'' (ret session))))))))"

text \<open>The buffered channel \<open>logins\<close> has room for four logins in flight; the place taken is given
  back however the login ends.\<close>

definition Login ::
  "crypto \<Rightarrow> bytes option \<Rightarrow> string \<Rightarrow> string \<Rightarrow> time \<Rightarrow> ('z, UserSession) act" where
  "Login C rnd username password now s =
     (if 4 \<le> st_logins s then (Inl (P2p ''p2p.rate_limited''), s)
      else case login_body C rnd username password now (s\<lparr>st_logins := st_logins s + 1\<rparr>) of
        (r, t) \<Rightarrow> (r, t\<lparr>st_logins := st_logins t - 1\<rparr>))"

definition AuthenticateUser :: "crypto \<Rightarrow> string \<Rightarrow> time \<Rightarrow> ('z, User) act" where
  "AuthenticateUser C token now =
     guard (length token = 64) ''p2p.user_unauthorized''
     (mapErr (\<lambda>_. P2p ''p2p.user_unauthorized'')
        (queryRow (\<lambda>d. [\<lparr>usr_ID = u_id u, usr_Username = u_email u\<rparr>.
            u \<leftarrow> users d, r \<leftarrow> user_sessions d,
            us_user r = u_id u \<and> us_hash r = digest C token \<and> unix now < us_expires r \<and> \<not> u_disabled u])))"

definition Logout :: "crypto \<Rightarrow> string \<Rightarrow> ('z, unit) act" where
  "Logout C token =
     bnd (execUpdate (del_sessions (\<lambda>r. us_hash r = digest C token)))
       (\<lambda>count. guard (count = 1) ''p2p.user_unauthorized'' (ret ()))"

definition DisableUser :: "string \<Rightarrow> time \<Rightarrow> ('z, unit) act" where
  "DisableUser i now = transaction
     (bnd (execUpdate (upd_users (\<lambda>u. u_id u = i \<and> \<not> u_disabled u) (\<lambda>u. u\<lparr>u_disabled := True\<rparr>)))
        (\<lambda>count. guard (count = 1) ''p2p.user_not_found''
      (bnd (execUpdate (del_sessions (\<lambda>r. us_user r = i)))
        (\<lambda>_. bnd (execUpdate (\<lambda>d. upd_pairs (\<lambda>p. p_network p \<in> n_id ` {n \<in> set (networks d). n_user n = i}
                                            \<and> live (p_state p)) (set_state Revoked) d))
        (\<lambda>_. bnd (execInsert (ins_audit ''user-disabled'' i (unix now)))
        (\<lambda>_. ret (Commit ())))))))"

section \<open>Behaviour\<close>

lemma CreateUser_keeps: "db_inv (st_db s) \<Longrightarrow> db_inv (st_db (snd (CreateUser C salt rnd email password s)))"
  by (rule keeps_wp) (auto simp: CreateUser_def wp_simps Let_def intro: inv_ins_user split: option.splits)

lemma ins_session_of_keeps: "db_inv d \<Longrightarrow> ins_session_of hash expires usr d = Some (d', n) \<Longrightarrow> db_inv d'"
  by (auto simp: ins_session_of_def list_ex_iff split: if_splits)
    (erule (1) inv_ins_session, auto simp: enabled_def)

lemma login_body_keeps:
  "db_inv (st_db s) \<Longrightarrow> db_inv (st_db (snd (login_body C rnd username password now s)))"
  unfolding login_body_def
  by (rule keeps_wp)
    (auto simp: wp_simps Let_def intro: ins_session_of_keeps split: sum.splits)

lemma Login_keeps: "db_inv (st_db s) \<Longrightarrow> db_inv (st_db (snd (Login C rnd username password now s)))"
  using login_body_keeps [of "s\<lparr>st_logins := st_logins s + 1\<rparr>" C rnd username password now]
  by (auto simp: Login_def split: prod.splits)

lemma Logout_keeps: "db_inv (st_db s) \<Longrightarrow> db_inv (st_db (snd (Logout C token s)))"
  by (rule keeps_wp) (auto simp: Logout_def wp_simps intro: inv_del_sessions)

lemma DisableUser_keeps: "db_inv (st_db s) \<Longrightarrow> db_inv (st_db (snd (DisableUser i now s)))"
proof (rule keeps_wp)
  assume "db_inv (st_db s)"
  then have "db_inv (disable i (st_db s))" by (rule inv_disable)
  then show "wp (DisableUser i now) (\<lambda>_ t. db_inv (st_db t)) (\<lambda>_ t. db_inv (st_db t)) s"
    using \<open>db_inv (st_db s)\<close>
    by (auto simp: DisableUser_def wp_simps upd_defs disable_def intro: inv_audit)
qed

section \<open>Contracts\<close>

lemma CreateUser_advancing [contract_intros]: "advancing (CreateUser C salt rnd email password)"
  unfolding CreateUser_def Let_def by (intro contract_intros) (auto simp: le_defs intro!: advances_upd dest: advances_ins)

lemma Logout_advancing [contract_intros]: "advancing (Logout C token)"
  unfolding Logout_def by (intro contract_intros) (auto simp: le_defs intro!: advances_upd dest: advances_ins)

lemma DisableUser_advancing [contract_intros]: "advancing (DisableUser i now)"
  unfolding DisableUser_def by (intro contract_intros) (auto simp: le_defs intro!: advances_upd dest: advances_ins)

lemma ins_session_of_advances: "ins_session_of hash expires usr d = Some (d', n) \<Longrightarrow> advances d d'"
  by (auto simp: ins_session_of_def split: if_splits dest: advances_ins)

lemma login_body_advancing: "advancing (login_body C rnd username password now)"
  unfolding login_body_def Let_def by (intro contract_intros) (rule ins_session_of_advances)

lemma Login_advancing [contract_intros]: "advancing (Login C rnd username password now)"
proof (rule advancingI)
  fix s r t
  assume "Login C rnd username password now s = (r, t)"
  then show "advances (st_db s) (st_db t)"
    using advancing.advance [OF login_body_advancing, of "s\<lparr>st_logins := st_logins s + 1\<rparr>" C rnd username password now]
    by (auto simp: Login_def split: if_splits prod.splits)
qed

lemma AuthenticateUser_reading [contract_intros]: "reading (AuthenticateUser C token now)"
  unfolding AuthenticateUser_def by (intro contract_intros)

lemma DisableUser_atomic: "atomic (DisableUser i now)"
  unfolding DisableUser_def by (intro contract_intros)

interpretation CreateUser: keeping "CreateUser C salt rnd email password" for C salt rnd email password
  by unfold_locales (rule CreateUser_keeps)

interpretation Login: keeping "Login C rnd username password now" for C rnd username password now
  by unfold_locales (rule Login_keeps)

interpretation Logout: keeping "Logout C token" for C token
  by unfold_locales (rule Logout_keeps)

interpretation DisableUser: keeping "DisableUser i now" for i now
  by unfold_locales (rule DisableUser_keeps)


end
