(* ===== verification/Networks.thy ===== *)
theory Networks
  imports Users
begin

text \<open>
  Private networks and the bindings of devices to them (\<open>internal/coordinator/networks.go\<close>, and
  \<open>NetworkPairs\<close> of \<open>user_api.go\<close>).
\<close>

section \<open>Data\<close>

record Network =
  net_ID :: string
  net_UserID :: string
  net_Name :: string
  net_MaxDevices :: int

definition DefaultNetworkLimit :: int where
  "DefaultNetworkLimit = 10"

definition validNetworkLimit :: "int \<Rightarrow> bool" where
  "validNetworkLimit limit \<longleftrightarrow> limit = 10 \<or> limit = 20 \<or> limit = 30"

record DeviceEntry =
  de_DeviceID :: string
  de_UserID :: string
  de_Name :: string
  de_Presence :: string
  de_LastSeen :: int
  de_Version :: string
  de_Platform :: string
  de_Architecture :: string

definition validName :: "string \<Rightarrow> bool" where
  "validName name \<longleftrightarrow> valid_utf8 name \<and> 0 < length name \<and> length name \<le> 256
     \<and> trim_space name = name \<and> \<not> contains_any name line_breaks"

section \<open>Queries\<close>

definition network_of :: "network_row \<Rightarrow> Network" where
  "network_of n = \<lparr>net_ID = n_id n, net_UserID = n_user n, net_Name = n_name n, net_MaxDevices = n_max n\<rparr>"

definition owned_rows :: "string \<Rightarrow> string \<Rightarrow> db \<Rightarrow> Network list" where
  "owned_rows userID i d = [network_of n. n \<leftarrow> networks d, u \<leftarrow> users d,
     u_id u = n_user n \<and> n_id n = i \<and> n_user n = userID \<and> \<not> n_deleted n \<and> \<not> u_disabled u]"

definition networkOwned :: "string \<Rightarrow> string \<Rightarrow> ('z, Network) act" where
  "networkOwned userID i =
     mapErr (\<lambda>_. P2p ''p2p.network_unauthorized'') (queryRow (owned_rows userID i))"

definition Networks :: "string \<Rightarrow> ('z, Network list) act" where
  "Networks userID = query (\<lambda>d. [network_of n. n \<leftarrow> networks d, u \<leftarrow> users d,
     u_id u = n_user n \<and> n_user n = userID \<and> \<not> n_deleted n \<and> \<not> u_disabled u])"

text \<open>\<open>activeBindingCount\<close> and \<open>bindingFitsCapacity\<close>.\<close>

definition activeBindingCount :: "string \<Rightarrow> ('z, nat) act" where
  "activeBindingCount networkID = query (\<lambda>d. active_count d networkID)"

definition bindingFitsCapacity :: "string \<Rightarrow> ('z, bool) act" where
  "bindingFitsCapacity networkID =
     bnd (queryRow (\<lambda>d. [n_max n. n \<leftarrow> networks d, n_id n = networkID \<and> \<not> n_deleted n]))
       (\<lambda>limit. bnd (activeBindingCount networkID)
       (\<lambda>count. ret (int count < limit)))"

definition linked_rows :: "string \<Rightarrow> string \<Rightarrow> db \<Rightarrow> nat list" where
  "linked_rows deviceID userID d = [1. l \<leftarrow> device_users d, u \<leftarrow> users d,
     u_id u = snd l \<and> fst l = deviceID \<and> snd l = userID \<and> \<not> u_disabled u]"

definition deviceLinkedTo :: "string \<Rightarrow> string \<Rightarrow> ('z, bool) act" where
  "deviceLinkedTo deviceID userID =
     bnd (attempt (queryRow (linked_rows deviceID userID)))
       (\<lambda>found. case found of
          Inl err \<Rightarrow> (if err = No_rows then ret False else throw err)
        | Inr _ \<Rightarrow> ret True)"

definition binding_rows :: "string \<Rightarrow> string \<Rightarrow> db \<Rightarrow> string list" where
  "binding_rows networkID deviceID d = [n_user n. b \<leftarrow> bindings d, n \<leftarrow> networks d, r \<leftarrow> devices d, u \<leftarrow> users d,
     n_id n = b_network b \<and> d_id r = b_device b \<and> u_id u = n_user n
     \<and> b_network b = networkID \<and> b_device b = deviceID \<and> b_active b \<and> \<not> n_deleted n
     \<and> \<not> d_revoked r \<and> \<not> u_disabled u \<and> (d_id r, n_user n) \<in> set (device_users d)]"

definition bindingOwner :: "string \<Rightarrow> string \<Rightarrow> ('z, string) act" where
  "bindingOwner networkID deviceID =
     mapErr (\<lambda>_. P2p ''p2p.binding_unauthorized'') (queryRow (binding_rows networkID deviceID))"

text \<open>\<open>listDevices\<close>: the columns it scans; the presence is filled in by the API layer.\<close>

definition entry_of :: "device_row \<Rightarrow> DeviceEntry" where
  "entry_of r = \<lparr>de_DeviceID = d_id r, de_UserID = d_user r, de_Name = d_name r, de_Presence = '''',
     de_LastSeen = d_last_seen r, de_Version = d_version r, de_Platform = d_platform r,
     de_Architecture = d_arch r\<rparr>"

definition listDevices :: "(db \<Rightarrow> device_row list) \<Rightarrow> ('z, DeviceEntry list) act" where
  "listDevices rows = query (\<lambda>d. map entry_of (rows d))"

definition NetworkDevices :: "string \<Rightarrow> string \<Rightarrow> ('z, DeviceEntry list) act" where
  "NetworkDevices userID networkID =
     bnd (networkOwned userID networkID)
       (\<lambda>_. listDevices (\<lambda>d. [r. r \<leftarrow> devices d, b \<leftarrow> bindings d, n \<leftarrow> networks d, u \<leftarrow> users d,
          b_device b = d_id r \<and> n_id n = b_network b \<and> u_id u = d_user r \<and> b_network b = networkID
          \<and> (d_id r, userID) \<in> set (device_users d) \<and> b_active b \<and> \<not> d_revoked r \<and> \<not> n_deleted n
          \<and> \<not> u_disabled u]))"

definition UserDevices :: "string \<Rightarrow> ('z, DeviceEntry list) act" where
  "UserDevices userID = listDevices (\<lambda>d. [r. r \<leftarrow> devices d, l \<leftarrow> device_users d, u \<leftarrow> users d,
     fst l = d_id r \<and> u_id u = snd l \<and> snd l = userID \<and> \<not> d_revoked r \<and> \<not> u_disabled u])"

definition NetworkPairs :: "string \<Rightarrow> string \<Rightarrow> ('z, pair_row list) act" where
  "NetworkPairs userID networkID =
     bnd (networkOwned userID networkID)
       (\<lambda>_. query (\<lambda>d. [p. p \<leftarrow> pairs d, n \<leftarrow> networks d, u \<leftarrow> users d,
          n_id n = p_network p \<and> u_id u = n_user n \<and> p_network p = networkID \<and> n_user n = userID
          \<and> \<not> n_deleted n \<and> \<not> u_disabled u]))"

section \<open>Operations\<close>

text \<open>\<open>INSERT INTO networks SELECT ?,id,?,? FROM users WHERE id=? AND disabled=0\<close>.\<close>

definition ins_network_of :: "string \<Rightarrow> string \<Rightarrow> int \<Rightarrow> string \<Rightarrow> db \<Rightarrow> (db \<times> nat) option" where
  "ins_network_of i name maxDevices userID d =
     (if list_ex (\<lambda>u. u_id u = userID \<and> \<not> u_disabled u) (users d)
      then map_option (\<lambda>e. (e, 1)) (ins_network \<lparr>n_id = i, n_user = userID, n_name = name,
             n_deleted = False, n_max = maxDevices\<rparr> d)
      else Some (d, 0))"

text \<open>
  \<open>CreateNetwork\<close> counts and inserts in two statements of their own, outside any transaction;
  they are named, so that an interleaving of two requests can be written down.
\<close>

definition countNetworks :: "string \<Rightarrow> ('z, nat) act" where
  "countNetworks userID = query (\<lambda>d. network_count d userID)"

definition insertNetwork :: "bytes \<Rightarrow> string \<Rightarrow> string \<Rightarrow> ('z, Network) act" where
  "insertNetwork rnd userID name =
     (let network = \<lparr>net_ID = NewID rnd, net_UserID = userID, net_Name = name, net_MaxDevices = DefaultNetworkLimit\<rparr> in
      bnd (execSelect (ins_network_of (net_ID network) name (net_MaxDevices network) userID))
        (\<lambda>count. guard (count = 1) ''p2p.user_unauthorized'' (ret network)))"

definition CreateNetwork :: "bytes \<Rightarrow> string \<Rightarrow> string \<Rightarrow> ('z, Network) act" where
  "CreateNetwork rnd userID name =
     guard (validName name) ''p2p.invalid_name''
     (bnd (countNetworks userID)
        (\<lambda>count. guard (\<not> 2 \<le> count) ''p2p.network_limit_reached'' (insertNetwork rnd userID name)))"

definition RenameNetwork :: "string \<Rightarrow> string \<Rightarrow> string \<Rightarrow> ('z, Network) act" where
  "RenameNetwork userID i name =
     guard (validName name) ''p2p.invalid_name''
     (transaction
        (bnd (networkOwned userID i)
           (\<lambda>network. if net_Name network = name then ret (Rollback network)
            else bnd (execUpdate (upd_networks (\<lambda>n. n_id n = i) (\<lambda>n. n\<lparr>n_name := name\<rparr>)))
           (\<lambda>_. ret (Commit (network\<lparr>net_Name := name\<rparr>))))))"

definition UpdateNetworkLimit :: "time \<Rightarrow> string \<Rightarrow> string \<Rightarrow> int \<Rightarrow> ('z, Network) act" where
  "UpdateNetworkLimit now userID i maxDevices =
     guard (validNetworkLimit maxDevices) ''p2p.invalid_network_limit''
     (transaction
        (bnd (networkOwned userID i)
           (\<lambda>network. if net_MaxDevices network = maxDevices then ret (Rollback network)
            else bnd (execUpdate (upd_networks (\<lambda>n. n_id n = i) (\<lambda>n. n\<lparr>n_max := maxDevices\<rparr>)))
           (\<lambda>_. bnd (execInsert (ins_audit ''network-limit'' (i @ '':'' @ itoa maxDevices) (unix now)))
           (\<lambda>_. ret (Commit (network\<lparr>net_MaxDevices := maxDevices\<rparr>)))))))"

definition DeleteNetwork :: "string \<Rightarrow> string \<Rightarrow> time \<Rightarrow> ('z, unit) act" where
  "DeleteNetwork userID i now = transaction
     (bnd (networkOwned userID i)
        (\<lambda>_. bnd (execUpdate (upd_networks (\<lambda>n. n_id n = i) (\<lambda>n. n\<lparr>n_deleted := True\<rparr>)))
        (\<lambda>_. bnd (execUpdate (upd_bindings (\<lambda>b. b_network b = i) (\<lambda>b. b\<lparr>b_active := False\<rparr>)))
        (\<lambda>_. bnd (execUpdate (upd_tokens (\<lambda>t. t_network t = i) (\<lambda>t. t\<lparr>t_used := True\<rparr>)))
        (\<lambda>_. bnd (execUpdate (upd_shares (\<lambda>r. s_network r = i) (\<lambda>r. r\<lparr>s_used := True\<rparr>)))
        (\<lambda>_. bnd (execUpdate (upd_pairs (\<lambda>p. p_network p = i \<and> live (p_state p)) (set_state Revoked)))
        (\<lambda>_. bnd (execInsert (ins_audit ''network-deleted'' i (unix now)))
        (\<lambda>_. ret (Commit ())))))))))"

definition BindDevice :: "string \<Rightarrow> string \<Rightarrow> string \<Rightarrow> ('z, unit) act" where
  "BindDevice userID networkID deviceID = transaction
     (bnd (networkOwned userID networkID)
        (\<lambda>_. bnd (mapErr (\<lambda>_. P2p ''p2p.device_unauthorized'')
                    (queryRow (\<lambda>d. [d_user r. r \<leftarrow> devices d, d_id r = deviceID \<and> \<not> d_revoked r])))
        (\<lambda>owner. guard (owner = userID) ''p2p.device_unauthorized''
        (bnd (query (\<lambda>d. list_ex (\<lambda>b. b_network b = networkID \<and> b_device b = deviceID \<and> b_active b) (bindings d)))
        (\<lambda>already. bnd (if already then ret True else bindingFitsCapacity networkID)
        (\<lambda>fits. guard fits ''p2p.network_full''
        (bnd (execInsert (bind_active networkID deviceID))
        (\<lambda>_. ret (Commit ())))))))))"

definition UnbindDevice :: "string \<Rightarrow> string \<Rightarrow> string \<Rightarrow> time \<Rightarrow> ('z, unit) act" where
  "UnbindDevice userID networkID deviceID now = transaction
     (bnd (networkOwned userID networkID)
        (\<lambda>_. bnd (bindingOwner networkID deviceID)
        (\<lambda>_. bnd (execUpdate (upd_bindings (\<lambda>b. b_network b = networkID \<and> b_device b = deviceID)
                                (\<lambda>b. b\<lparr>b_active := False\<rparr>)))
        (\<lambda>_. bnd (execUpdate (upd_pairs (\<lambda>p. p_network p = networkID
                                  \<and> (p_initiator p = deviceID \<or> p_target p = deviceID) \<and> live (p_state p))
                                (set_state Revoked)))
        (\<lambda>_. bnd (execUpdate (upd_shares (\<lambda>r. s_network r = networkID \<and> s_device r = deviceID)
                                (\<lambda>r. r\<lparr>s_used := True\<rparr>)))
        (\<lambda>_. bnd (execInsert (ins_audit ''device-unbound'' (networkID @ '':'' @ deviceID) (unix now)))
        (\<lambda>_. ret (Commit ()))))))))"

definition DeletePair :: "string \<Rightarrow> string \<Rightarrow> string \<Rightarrow> time \<Rightarrow> ('z, unit) act" where
  "DeletePair userID networkID pairID now = transaction
     (bnd (networkOwned userID networkID)
        (\<lambda>_. bnd (execUpdate (upd_pairs (\<lambda>p. p_id p = pairID \<and> p_network p = networkID \<and> live (p_state p))
                                (set_state Revoked)))
        (\<lambda>count. guard (count = 1) ''p2p.pair_unauthorized''
        (bnd (execInsert (ins_audit ''pair-deleted'' pairID (unix now)))
        (\<lambda>_. ret (Commit ()))))))"

section \<open>What the queries mean\<close>

lemma set_owned_rows:
  "x \<in> set (owned_rows userID i d) \<longleftrightarrow>
     (\<exists>n \<in> set (networks d). x = network_of n \<and> n_id n = i \<and> n_user n = userID \<and> \<not> n_deleted n
        \<and> enabled d userID)"
  by (auto simp: owned_rows_def enabled_def)

lemma owned_rows_alive: "x \<in> set (owned_rows userID i d) \<Longrightarrow> alive d i userID \<and> enabled d userID"
  by (auto simp: set_owned_rows alive_def)

lemma owned_rows_Nil: "owned_rows userID i d = [] \<longleftrightarrow> \<not> (alive d i userID \<and> enabled d userID)"
proof
  show "\<not> (alive d i userID \<and> enabled d userID)" if "owned_rows userID i d = []"
  proof
    assume "alive d i userID \<and> enabled d userID"
    then obtain n where "n \<in> set (networks d)" "n_id n = i" "n_user n = userID" "\<not> n_deleted n" "enabled d userID"
      by (auto simp: alive_def)
    then have "network_of n \<in> set (owned_rows userID i d)" using set_owned_rows by blast
    with that show False by simp
  qed
  show "owned_rows userID i d = []" if "\<not> (alive d i userID \<and> enabled d userID)"
  proof (rule ccontr)
    assume "owned_rows userID i d \<noteq> []"
    then have "hd (owned_rows userID i d) \<in> set (owned_rows userID i d)" by (rule hd_in_set)
    from owned_rows_alive [OF this] that show False by blast
  qed
qed

lemma set_binding_rows:
  "usr \<in> set (binding_rows i x d) \<longleftrightarrow>
     bound d i x \<and> alive d i usr \<and> enabled d usr \<and> (x, usr) \<in> set (device_users d)
     \<and> (\<exists>r \<in> set (devices d). d_id r = x \<and> \<not> d_revoked r)"
  unfolding binding_rows_def select_simps bound_def alive_def enabled_def
  by (rule iffI; elim bexE conjE; hypsubst) (metis, metis)

lemmas owned_rowsD = hd_in [THEN owned_rows_alive]
lemmas binding_rowsD = hd_in [THEN set_binding_rows [THEN iffD1]]

lemma networkOwned_reads: "st_db (snd (networkOwned userID i s)) = st_db s"
  by (simp add: networkOwned_def mapErr_def queryRow_def split: list.splits)

lemma bindingOwner_reads: "st_db (snd (bindingOwner i x s)) = st_db s"
  by (simp add: bindingOwner_def mapErr_def queryRow_def split: list.splits)

interpretation networkOwned: reading "networkOwned userID i" for userID i
  by unfold_locales (rule networkOwned_reads)

interpretation bindingOwner: reading "bindingOwner i x" for i x
  by unfold_locales (rule bindingOwner_reads)

lemma wp_networkOwned [wp_simps]:
  "wp (networkOwned userID i) Q E s \<longleftrightarrow>
     (faulty s \<longrightarrow> E (P2p ''p2p.network_unauthorized'') (tick s)) \<and>
     (\<not> faulty s \<longrightarrow> (owned_rows userID i (st_db s) = [] \<longrightarrow> E (P2p ''p2p.network_unauthorized'') (tick s)) \<and>
        (\<forall>x xs. owned_rows userID i (st_db s) = x # xs \<longrightarrow> Q x (tick s)))"
  by (simp add: networkOwned_def wp_simps)

lemma wp_bindingOwner [wp_simps]:
  "wp (bindingOwner i x) Q E s \<longleftrightarrow>
     (faulty s \<longrightarrow> E (P2p ''p2p.binding_unauthorized'') (tick s)) \<and>
     (\<not> faulty s \<longrightarrow> (binding_rows i x (st_db s) = [] \<longrightarrow> E (P2p ''p2p.binding_unauthorized'') (tick s)) \<and>
        (\<forall>u us. binding_rows i x (st_db s) = u # us \<longrightarrow> Q u (tick s)))"
  by (simp add: bindingOwner_def wp_simps)

section \<open>The invariant\<close>

lemma ins_network_of_keeps:
  assumes "db_inv d" "\<not> 2 \<le> network_count d userID" "ins_network_of i name 10 userID d = Some (d', n)"
  shows "db_inv d'"
proof (cases "list_ex (\<lambda>u. u_id u = userID \<and> \<not> u_disabled u) (users d)")
  case True
  then have "ins_network \<lparr>n_id = i, n_user = userID, n_name = name, n_deleted = False, n_max = 10\<rparr> d = Some d'"
    using assms(3) by (auto simp: ins_network_of_def)
  then show ?thesis by (rule inv_ins_network [OF assms(1)]) (use assms(2) in simp_all)
next
  case False
  then show ?thesis using assms by (auto simp: ins_network_of_def)
qed

lemma CreateNetwork_keeps:
  "db_inv (st_db s) \<Longrightarrow> db_inv (st_db (snd (CreateNetwork rnd userID name s)))"
  by (rule keeps_wp)
    (auto simp: CreateNetwork_def countNetworks_def insertNetwork_def wp_simps Let_def DefaultNetworkLimit_def
      intro: ins_network_of_keeps)

lemma RenameNetwork_keeps:
  "db_inv (st_db s) \<Longrightarrow> db_inv (st_db (snd (RenameNetwork userID i name s)))"
  by (rule keeps_wp) (auto simp: RenameNetwork_def wp_simps intro!: inv_upd_networks)

lemma UpdateNetworkLimit_keeps:
  "db_inv (st_db s) \<Longrightarrow> db_inv (st_db (snd (UpdateNetworkLimit now userID i maxDevices s)))"
  by (rule keeps_wp)
    (auto simp: UpdateNetworkLimit_def wp_simps validNetworkLimit_def intro!: inv_upd_networks elim!: inv_audit [rotated])

lemma DeleteNetwork_keeps:
  "db_inv (st_db s) \<Longrightarrow> db_inv (st_db (snd (DeleteNetwork userID i now s)))"
proof (rule keeps_wp)
  assume "db_inv (st_db s)"
  then have "db_inv (wipe_network i (st_db s))" by (rule inv_wipe_network)
  then show "wp (DeleteNetwork userID i now) (\<lambda>_ t. db_inv (st_db t)) (\<lambda>_ t. db_inv (st_db t)) s"
    using \<open>db_inv (st_db s)\<close>
    by (auto simp: DeleteNetwork_def wp_simps upd_defs wipe_network_def intro: inv_audit)
qed

lemma bind_keeps:
  assumes "db_inv d" "alive d i usr" "(x, usr) \<in> set (device_users d)"
    and "bound d i x \<or> (\<exists>n \<in> set (networks d). n_id n = i \<and> int (active_count d i) < n_max n)"
    and "bind_active i x d = Some d'"
  shows "db_inv d'"
proof (rule inv_bind_active [OF assms(1,5,2,3)])
  assume "\<not> bound d i x"
  with assms(4) obtain n where "n \<in> set (networks d)" "int (active_count d i) < n_max n" by blast
  with db_invD(9) [OF assms(1)] show "active_count d i < 30"
    by (fastforce simp: inv_limits_def)
qed

lemma BindDevice_keeps:
  assumes "db_inv (st_db s)"
  shows "db_inv (st_db (snd (BindDevice userID networkID deviceID s)))"
proof (rule keeps_wp)
  let ?d = "st_db s"
  have link: "(d_id r, d_user r) \<in> set (device_users ?d)" if "r \<in> set (devices ?d)" for r
    using db_invD(3) [OF assms] that by (simp add: inv_linked_def)
  have bind: "db_inv d'" if "owned_rows userID networkID ?d = x # xs"
    "[d_user r. r \<leftarrow> devices ?d, d_id r = deviceID \<and> \<not> d_revoked r] = userID # ys"
    "bound ?d networkID deviceID \<or> (\<exists>n \<in> set (networks ?d). n_id n = networkID
       \<and> int (active_count ?d networkID) < n_max n)"
    "bind_active networkID deviceID ?d = Some d'" for x xs ys d'
  proof (rule bind_keeps [OF assms _ _ that(3,4)])
    show "alive ?d networkID userID" using owned_rowsD [OF that(1)] ..
    have "userID \<in> set [d_user r. r \<leftarrow> devices ?d, d_id r = deviceID \<and> \<not> d_revoked r]"
      using that(2) by simp
    then obtain r where "r \<in> set (devices ?d)" "d_id r = deviceID" "d_user r = userID"
      by (auto split: if_splits)
    with link show "(deviceID, userID) \<in> set (device_users ?d)" by blast
  qed
  have room: "\<exists>n \<in> set (networks ?d). n_id n = networkID \<and> int c < n_max n"
    if "[n_max n. n \<leftarrow> networks ?d, n_id n = networkID \<and> \<not> n_deleted n] = m # ms" "int c < m" for m ms c
  proof -
    have "m \<in> set [n_max n. n \<leftarrow> networks ?d, n_id n = networkID \<and> \<not> n_deleted n]"
      using that(1) by simp
    with that(2) show ?thesis by (auto split: if_splits)
  qed
  show "wp (BindDevice userID networkID deviceID) (\<lambda>_ t. db_inv (st_db t)) (\<lambda>_ t. db_inv (st_db t)) s"
    unfolding BindDevice_def bindingFitsCapacity_def activeBindingCount_def
    using assms bind room by (simp add: wp_simps list_ex_iff flip: bound_def) blast
qed

lemma UnbindDevice_keeps:
  "db_inv (st_db s) \<Longrightarrow> db_inv (st_db (snd (UnbindDevice userID networkID deviceID now s)))"
proof (rule keeps_wp)
  assume "db_inv (st_db s)"
  then have "db_inv (unbind networkID deviceID (st_db s))" by (rule inv_unbind)
  then show "wp (UnbindDevice userID networkID deviceID now) (\<lambda>_ t. db_inv (st_db t)) (\<lambda>_ t. db_inv (st_db t)) s"
    using \<open>db_inv (st_db s)\<close>
    by (auto simp: UnbindDevice_def wp_simps upd_defs unbind_def intro: inv_audit)
qed

lemma DeletePair_keeps:
  "db_inv (st_db s) \<Longrightarrow> db_inv (st_db (snd (DeletePair userID networkID pairID now s)))"
  by (rule keeps_wp) (auto simp: DeletePair_def wp_simps intro: inv_revoke_pairs inv_audit)

section \<open>Contracts\<close>

lemma networkOwned_reading [contract_intros]: "reading (networkOwned userID i)"
  by (rule networkOwned.reading_axioms)

lemma bindingOwner_reading [contract_intros]: "reading (bindingOwner i x)"
  by (rule bindingOwner.reading_axioms)

lemma networkOwned_advancing [contract_intros]: "advancing (networkOwned userID i)"
  by (rule networkOwned.advancing_axioms)

lemma bindingOwner_advancing [contract_intros]: "advancing (bindingOwner i x)"
  by (rule bindingOwner.advancing_axioms)

lemma reads_networks:
  "reading (Networks userID)" "reading (NetworkDevices userID networkID)" "reading (UserDevices userID)"
  "reading (NetworkPairs userID networkID)" "reading (bindingFitsCapacity networkID)"
  "reading (deviceLinkedTo deviceID userID)"
  unfolding Networks_def NetworkDevices_def UserDevices_def NetworkPairs_def listDevices_def
    bindingFitsCapacity_def activeBindingCount_def deviceLinkedTo_def
  by (intro contract_intros)+

lemma ins_network_of_advances: "ins_network_of i name m userID d = Some (d', n) \<Longrightarrow> advances d d'"
  by (auto simp: ins_network_of_def split: if_splits dest: advances_ins)

lemma CreateNetwork_advancing [contract_intros]: "advancing (CreateNetwork rnd userID name)"
  unfolding CreateNetwork_def countNetworks_def insertNetwork_def Let_def by (intro contract_intros) (rule ins_network_of_advances)

lemma RenameNetwork_advancing [contract_intros]: "advancing (RenameNetwork userID i name)"
  unfolding RenameNetwork_def by (intro contract_intros) (auto simp: le_defs intro!: advances_upd dest: advances_ins)

lemma UpdateNetworkLimit_advancing [contract_intros]: "advancing (UpdateNetworkLimit now userID i maxDevices)"
  unfolding UpdateNetworkLimit_def by (intro contract_intros) (auto simp: le_defs intro!: advances_upd dest: advances_ins)

lemma DeleteNetwork_advancing [contract_intros]: "advancing (DeleteNetwork userID i now)"
  unfolding DeleteNetwork_def by (intro contract_intros) (auto simp: le_defs intro!: advances_upd dest: advances_ins)

lemma BindDevice_advancing [contract_intros]: "advancing (BindDevice userID networkID deviceID)"
  unfolding BindDevice_def bindingFitsCapacity_def activeBindingCount_def by (intro contract_intros) (auto simp: le_defs intro!: advances_upd dest: advances_ins)

lemma UnbindDevice_advancing [contract_intros]: "advancing (UnbindDevice userID networkID deviceID now)"
  unfolding UnbindDevice_def by (intro contract_intros) (auto simp: le_defs intro!: advances_upd dest: advances_ins)

lemma DeletePair_advancing [contract_intros]: "advancing (DeletePair userID networkID pairID now)"
  unfolding DeletePair_def by (intro contract_intros) (auto simp: le_defs intro!: advances_upd dest: advances_ins)

lemma RenameNetwork_atomic: "atomic (RenameNetwork userID i name)"
  unfolding RenameNetwork_def by (intro contract_intros)

lemma UpdateNetworkLimit_atomic: "atomic (UpdateNetworkLimit now userID i maxDevices)"
  unfolding UpdateNetworkLimit_def by (intro contract_intros)

lemma DeleteNetwork_atomic: "atomic (DeleteNetwork userID i now)"
  unfolding DeleteNetwork_def by (intro contract_intros)

lemma BindDevice_atomic: "atomic (BindDevice userID networkID deviceID)"
  unfolding BindDevice_def bindingFitsCapacity_def activeBindingCount_def by (intro contract_intros)

lemma UnbindDevice_atomic: "atomic (UnbindDevice userID networkID deviceID now)"
  unfolding UnbindDevice_def by (intro contract_intros)

lemma DeletePair_atomic: "atomic (DeletePair userID networkID pairID now)"
  unfolding DeletePair_def by (intro contract_intros)

interpretation CreateNetwork: keeping "CreateNetwork rnd userID name" for rnd userID name
  by unfold_locales (rule CreateNetwork_keeps)

interpretation RenameNetwork: keeping "RenameNetwork userID i name" for userID i name
  by unfold_locales (rule RenameNetwork_keeps)

interpretation UpdateNetworkLimit: keeping "UpdateNetworkLimit now userID i maxDevices" for now userID i maxDevices
  by unfold_locales (rule UpdateNetworkLimit_keeps)

interpretation DeleteNetwork: keeping "DeleteNetwork userID i now" for userID i now
  by unfold_locales (rule DeleteNetwork_keeps)

interpretation BindDevice: keeping "BindDevice userID networkID deviceID" for userID networkID deviceID
  by unfold_locales (rule BindDevice_keeps)

interpretation UnbindDevice: keeping "UnbindDevice userID networkID deviceID now" for userID networkID deviceID now
  by unfold_locales (rule UnbindDevice_keeps)

interpretation DeletePair: keeping "DeletePair userID networkID pairID now" for userID networkID pairID now
  by unfold_locales (rule DeletePair_keeps)


end
