(* ===== verification/Enrollment.thy ===== *)
theory Enrollment
  imports Networks
begin

text \<open>
  Enrolment, joining by network id, device telemetry and device authentication
  (\<open>internal/coordinator/enrollment.go\<close>).  The random serial number of a certificate
  (\<open>rand.Int\<close>) is an argument, \<open>None\<close> when the operating system has no entropy; a minted
  secret takes its random bytes in the same way.
\<close>

section \<open>Data\<close>

record Enrollment =
  en_RequestID :: string
  en_Token :: string
  en_CSR :: string
  en_Name :: string

record NetworkJoin =
  nj_RequestID :: string
  nj_NetworkID :: string
  nj_CSR :: string
  nj_Name :: string

record Device =
  dev_ID :: string
  dev_UserID :: string
  dev_PublicKey :: bytes
  dev_Name :: string
  dev_Certificate :: bytes

record DeviceTelemetry =
  tel_Version :: string
  tel_Platform :: string
  tel_Architecture :: string

definition no_telemetry :: DeviceTelemetry where
  "no_telemetry = \<lparr>tel_Version = '''', tel_Platform = '''', tel_Architecture = ''''\<rparr>"

definition telemetry_valid :: "DeviceTelemetry \<Rightarrow> bool" where
  "telemetry_valid telemetry = list_all
     (\<lambda>value. length value \<le> 64 \<and> value = trim_space value \<and> \<not> contains_any value line_breaks)
     [tel_Version telemetry, tel_Platform telemetry, tel_Architecture telemetry]"

text \<open>The check of a device name, the same in \<open>Enroll\<close> and \<open>JoinNetwork\<close>.\<close>

definition enrollName :: "string \<Rightarrow> bool" where
  "enrollName name \<longleftrightarrow> name = trim_space name \<and> 1 \<le> length name \<and> length name \<le> 256
     \<and> \<not> contains_any name line_breaks"

section \<open>Telemetry\<close>

text \<open>\<open>SET last_seen=?, version=CASE WHEN ?='' THEN version ELSE ? END, ...\<close>\<close>

definition set_seen :: "int \<Rightarrow> DeviceTelemetry \<Rightarrow> device_row \<Rightarrow> device_row" where
  "set_seen seen telemetry r = r\<lparr>d_last_seen := seen,
     d_version := (if tel_Version telemetry = '''' then d_version r else tel_Version telemetry),
     d_platform := (if tel_Platform telemetry = '''' then d_platform r else tel_Platform telemetry),
     d_arch := (if tel_Architecture telemetry = '''' then d_arch r else tel_Architecture telemetry)\<rparr>"

definition RecordDeviceSeen :: "string \<Rightarrow> DeviceTelemetry \<Rightarrow> time \<Rightarrow> ('z, unit) act" where
  "RecordDeviceSeen i telemetry now =
     guard (ValidID i) ''p2p.invalid_request''
     (let reported = (if telemetry_valid telemetry then telemetry else no_telemetry) in
      bnd (execUpdate (upd_devices (\<lambda>r. d_id r = i \<and> \<not> d_revoked r) (set_seen (unix now) reported)))
        (\<lambda>_. ret ()))"

section \<open>Enrolment tokens\<close>

definition IssueEnrollmentToken ::
  "crypto \<Rightarrow> bytes option \<Rightarrow> string \<Rightarrow> string \<Rightarrow> time \<Rightarrow> ('z, string) act" where
  "IssueEnrollmentToken C rnd userID networkID now =
     (case NewSecret rnd of
        Inl err \<Rightarrow> throw err
      | Inr token \<Rightarrow> transaction
          (bnd (networkOwned userID networkID)
             (\<lambda>_. bnd (execInsert (ins_token \<lparr>t_hash = digest C token, t_user = userID, t_network = networkID,
                                  t_expires = unix (now + 5 * minute), t_used = False\<rparr>))
             (\<lambda>_. ret (Commit token)))))"

definition token_rows :: "crypto \<Rightarrow> string \<Rightarrow> time \<Rightarrow> db \<Rightarrow> (string \<times> string) list" where
  "token_rows C token now d = [(t_user t, t_network t). t \<leftarrow> tokens d, u \<leftarrow> users d, n \<leftarrow> networks d,
     u_id u = t_user t \<and> n_id n = t_network t \<and> t_hash t = digest C token \<and> \<not> t_used t
     \<and> unix now < t_expires t \<and> \<not> u_disabled u \<and> \<not> n_deleted n \<and> n_user n = t_user t]"

definition tokenScope :: "crypto \<Rightarrow> string \<Rightarrow> time \<Rightarrow> ('z, string \<times> string) act" where
  "tokenScope C token now =
     mapErr (\<lambda>_. P2p ''p2p.invalid_enrollment_token'') (queryRow (token_rows C token now))"

definition consumeToken :: "crypto \<Rightarrow> string \<Rightarrow> time \<Rightarrow> ('z, unit) act" where
  "consumeToken C token now =
     bnd (tokenScope C token now)
       (\<lambda>_. bnd (execUpdate (upd_tokens
              (\<lambda>t. t_hash t = digest C token \<and> \<not> t_used t \<and> unix now < t_expires t)
              (\<lambda>t. t\<lparr>t_used := True\<rparr>)))
       (\<lambda>count. guard (count = 1) ''p2p.invalid_enrollment_token'' (ret ())))"

section \<open>Certificates\<close>

definition csrKey :: "crypto \<Rightarrow> string \<Rightarrow> err + bytes" where
  "csrKey C encoded =
     (case pem_decode C encoded of
        None \<Rightarrow> Inl (P2p ''p2p.invalid_csr'')
      | Some (typ, block, rest) \<Rightarrow>
          if typ \<noteq> ''CERTIFICATE REQUEST'' \<or> rest \<noteq> [] then Inl (P2p ''p2p.invalid_csr'')
          else case parse_csr C block of
            None \<Rightarrow> Inl (P2p ''p2p.invalid_csr'')
          | Some request \<Rightarrow>
              if \<not> csr_signature_ok request then Inl (P2p ''p2p.invalid_csr'')
              else case csr_public request of
                None \<Rightarrow> Inl (P2p ''p2p.invalid_device_key'')
              | Some public \<Rightarrow> Inr public)"

definition issueCertificate ::
  "crypto \<Rightarrow> bytes option \<Rightarrow> 'z store_scheme \<Rightarrow> string \<Rightarrow> bytes \<Rightarrow> time \<Rightarrow> err + bytes" where
  "issueCertificate C serial store i public now =
     (case serial of
        None \<Rightarrow> Inl Lib_error
      | Some number \<Rightarrow>
          case create_cert C number (st_CA store) (st_key store) i (now - minute) (now + 30 * day) public of
            None \<Rightarrow> Inl Lib_error
          | Some cert \<Rightarrow> Inr cert)"

section \<open>Admission\<close>

text \<open>\<open>UPDATE devices SET name=?, request_id=? WHERE id=?\<close>: \<open>request_id\<close> is a unique column, so
  the request id of another device violates it.\<close>

definition upd_request :: "string \<Rightarrow> string \<Rightarrow> string \<Rightarrow> db \<Rightarrow> db option" where
  "upd_request name requestID i d =
     (if list_ex (\<lambda>r. d_id r = i) (devices d) \<and> list_ex (\<lambda>r. d_id r \<noteq> i \<and> d_request r = requestID) (devices d)
      then None
      else Some (fst (upd_devices (\<lambda>r. d_id r = i) (\<lambda>r. r\<lparr>d_name := name, d_request := requestID\<rparr>) d)))"

definition new_device :: "Device \<Rightarrow> string \<Rightarrow> device_row" where
  "new_device device requestID = \<lparr>d_id = dev_ID device, d_user = dev_UserID device,
     d_key = dev_PublicKey device, d_name = dev_Name device, d_cert = dev_Certificate device,
     d_revoked = False, d_request = requestID, d_last_seen = 0, d_version = '''', d_platform = '''',
     d_arch = ''''\<rparr>"

text \<open>A machine that is already enrolled keeps its row and its certificate (the \<open>switch\<close> of \<open>Enroll\<close>
  and of \<open>JoinNetwork\<close>).\<close>

definition knownDevice :: "Device \<Rightarrow> string \<Rightarrow> ('z, Device) act" where
  "knownDevice device requestID =
     bnd (attempt (queryRow (\<lambda>d. [d_id r. r \<leftarrow> devices d, d_key r = dev_PublicKey device])))
       (\<lambda>known. case known of
          Inl err \<Rightarrow>
            (if err = No_rows then
               bnd (mapErr (\<lambda>_. P2p ''p2p.device_already_enrolled'')
                     (execInsert (ins_device (new_device device requestID))))
                 (\<lambda>_. ret device)
             else throw err)
        | Inr i \<Rightarrow>
            bnd (execInsert (upd_request (dev_Name device) requestID i))
              (\<lambda>_. bnd (queryRow (\<lambda>d. [d_cert r. r \<leftarrow> devices d, d_id r = i]))
              (\<lambda>cert. ret (device\<lparr>dev_ID := i, dev_Certificate := cert\<rparr>))))"

text \<open>The link, the binding and the audit entry that end both.\<close>

definition admitDevice :: "string \<Rightarrow> Device \<Rightarrow> string \<Rightarrow> time \<Rightarrow> ('z, Device outcome) act" where
  "admitDevice event device networkID now =
     bnd (execInsert (link_device (dev_ID device) (dev_UserID device)))
       (\<lambda>_. bnd (execInsert (bind_active networkID (dev_ID device)))
       (\<lambda>_. bnd (execInsert (ins_audit event (dev_ID device) (unix now)))
       (\<lambda>_. ret (Commit device))))"

definition Enroll :: "crypto \<Rightarrow> bytes option \<Rightarrow> Enrollment \<Rightarrow> time \<Rightarrow> ('z, Device) act" where
  "Enroll C serial request now =
     guard (ValidID (en_RequestID request) \<and> length (en_Token request) = 64 \<and> enrollName (en_Name request))
       ''p2p.invalid_enrollment''
     (case csrKey C (en_CSR request) of
        Inl err \<Rightarrow> throw err
      | Inr public \<Rightarrow> withStore (\<lambda>store.
          case issueCertificate C serial store (KeyID C public) public now of
            Inl err \<Rightarrow> throw err
          | Inr certificate \<Rightarrow> transaction
              (bnd (tokenScope C (en_Token request) now)
                 (\<lambda>(userID, networkID). bnd (bindingFitsCapacity networkID)
                 (\<lambda>fits. guard fits ''p2p.network_full''
                 (bnd (consumeToken C (en_Token request) now)
                 (\<lambda>_. bnd (knownDevice \<lparr>dev_ID = KeyID C public, dev_UserID = userID, dev_PublicKey = public,
                               dev_Name = en_Name request, dev_Certificate = certificate\<rparr> (en_RequestID request))
                 (\<lambda>device. admitDevice ''enrolled'' device networkID now))))))))"

definition JoinNetwork :: "crypto \<Rightarrow> bytes option \<Rightarrow> NetworkJoin \<Rightarrow> time \<Rightarrow> ('z, Device) act" where
  "JoinNetwork C serial request now =
     guard (ValidID (nj_RequestID request) \<and> ValidID (nj_NetworkID request) \<and> enrollName (nj_Name request))
       ''p2p.invalid_enrollment''
     (case csrKey C (nj_CSR request) of
        Inl err \<Rightarrow> throw err
      | Inr public \<Rightarrow> withStore (\<lambda>store.
          case issueCertificate C serial store (KeyID C public) public now of
            Inl err \<Rightarrow> throw err
          | Inr certificate \<Rightarrow> transaction
              (bnd (mapErr (\<lambda>_. P2p ''p2p.network_unauthorized'')
                     (queryRow (\<lambda>d. [n_user n. n \<leftarrow> networks d, n_id n = nj_NetworkID request \<and> \<not> n_deleted n])))
                 (\<lambda>ownerUserID. bnd (mapErr (\<lambda>_. P2p ''p2p.network_unauthorized'')
                     (queryRow (\<lambda>d. [u_disabled u. u \<leftarrow> users d, u_id u = ownerUserID])))
                 (\<lambda>ownerDisabled. guard (\<not> ownerDisabled) ''p2p.network_unauthorized''
                 (bnd (bindingFitsCapacity (nj_NetworkID request))
                 (\<lambda>fits. guard fits ''p2p.network_full''
                 (bnd (knownDevice \<lparr>dev_ID = KeyID C public, dev_UserID = ownerUserID, dev_PublicKey = public,
                          dev_Name = nj_Name request, dev_Certificate = certificate\<rparr> (nj_RequestID request))
                 (\<lambda>device. admitDevice ''network-join'' device (nj_NetworkID request) now)))))))))"

section \<open>Authentication\<close>

definition device_of :: "device_row \<Rightarrow> Device" where
  "device_of r = \<lparr>dev_ID = d_id r, dev_UserID = d_user r, dev_PublicKey = d_key r, dev_Name = d_name r,
     dev_Certificate = d_cert r\<rparr>"

definition device_rows :: "string \<Rightarrow> db \<Rightarrow> Device list" where
  "device_rows i d = [device_of r. r \<leftarrow> devices d, u \<leftarrow> users d,
     u_id u = d_user r \<and> d_id r = i \<and> \<not> d_revoked r \<and> \<not> u_disabled u]"

definition Device_of :: "string \<Rightarrow> ('z, Device) act" where
  "Device_of i = mapErr (\<lambda>_. P2p ''p2p.device_unauthorized'') (queryRow (device_rows i))"

definition Authenticate :: "crypto \<Rightarrow> certificate option \<Rightarrow> time \<Rightarrow> ('z, Device) act" where
  "Authenticate C certificate now =
     (case certificate of
        None \<Rightarrow> throw (P2p ''p2p.device_unauthorized'')
      | Some cert \<Rightarrow> withStore (\<lambda>store.
          guard (verify_cert C (st_CA store) cert now) ''p2p.device_unauthorized''
          (bnd (attempt (Device_of (cert_CN cert)))
             (\<lambda>found. case found of
                Inl _ \<Rightarrow> throw (P2p ''p2p.identity_mismatch'')
              | Inr device \<Rightarrow>
                  guard (cert_public cert = Some (dev_PublicKey device)) ''p2p.identity_mismatch'' (ret device)))))"

section \<open>What the queries mean\<close>

lemma set_token_rows:
  "(usr, net) \<in> set (token_rows C token now d) \<longleftrightarrow>
     alive d net usr \<and> enabled d usr \<and> (\<exists>t \<in> set (tokens d). t_hash t = digest C token \<and> \<not> t_used t
        \<and> unix now < t_expires t \<and> t_user t = usr \<and> t_network t = net)"
  unfolding token_rows_def select_simps alive_def enabled_def
  by (rule iffI; elim bexE conjE; simp only: prod.inject) (metis, metis)

lemma set_device_rows:
  "x \<in> set (device_rows i d) \<longleftrightarrow>
     (\<exists>r \<in> set (devices d). x = device_of r \<and> d_id r = i \<and> \<not> d_revoked r \<and> enabled d (d_user r))"
  unfolding device_rows_def select_simps enabled_def by (rule iffI; elim bexE conjE) (metis, metis)

lemma wp_tokenScope [wp_simps]:
  "wp (tokenScope C token now) Q E s \<longleftrightarrow>
     (faulty s \<longrightarrow> E (P2p ''p2p.invalid_enrollment_token'') (tick s)) \<and>
     (\<not> faulty s \<longrightarrow> (token_rows C token now (st_db s) = [] \<longrightarrow> E (P2p ''p2p.invalid_enrollment_token'') (tick s)) \<and>
        (\<forall>x xs. token_rows C token now (st_db s) = x # xs \<longrightarrow> Q x (tick s)))"
  by (simp add: tokenScope_def wp_simps)

lemma wp_Device_of [wp_simps]:
  "wp (Device_of i) Q E s \<longleftrightarrow>
     (faulty s \<longrightarrow> E (P2p ''p2p.device_unauthorized'') (tick s)) \<and>
     (\<not> faulty s \<longrightarrow> (device_rows i (st_db s) = [] \<longrightarrow> E (P2p ''p2p.device_unauthorized'') (tick s)) \<and>
        (\<forall>x xs. device_rows i (st_db s) = x # xs \<longrightarrow> Q x (tick s)))"
  by (simp add: Device_of_def wp_simps)

section \<open>The contracts\<close>

lemma set_seen_simps [simp]:
  "d_id (set_seen a t r) = d_id r" "d_user (set_seen a t r) = d_user r" "d_key (set_seen a t r) = d_key r"
  "d_request (set_seen a t r) = d_request r" "d_revoked (set_seen a t r) = d_revoked r"
  by (simp_all add: set_seen_def)

lemma RecordDeviceSeen_keeps:
  "db_inv (st_db s) \<Longrightarrow> db_inv (st_db (snd (RecordDeviceSeen i telemetry now s)))"
proof (rule keeps_wp)
  assume inv: "db_inv (st_db s)"
  have "db_inv (fst (upd_devices (\<lambda>r. d_id r = i \<and> \<not> d_revoked r) (set_seen a t) (st_db s)))" for a t
  proof (rule inv_upd_devices [OF inv])
    show "device_request.unique (update_where (\<lambda>r. d_id r = i \<and> \<not> d_revoked r) (set_seen a t) (devices (st_db s)))"
      using db_invD(1) [OF inv] by (simp add: inv_keys_def device_request.unique_update)
  qed simp_all
  then show "wp (RecordDeviceSeen i telemetry now) (\<lambda>_ t. db_inv (st_db t)) (\<lambda>_ t. db_inv (st_db t)) s"
    using inv by (simp add: RecordDeviceSeen_def wp_simps Let_def)
qed

lemma IssueEnrollmentToken_keeps:
  "db_inv (st_db s) \<Longrightarrow> db_inv (st_db (snd (IssueEnrollmentToken C rnd userID networkID now s)))"
  by (rule keeps_wp)
    (auto simp: IssueEnrollmentToken_def wp_simps dest!: owned_rowsD split: sum.splits
      elim: inv_ins_token)

text \<open>The request id of a device stays unique.\<close>

lemma upd_request_keeps:
  assumes "db_inv d" "upd_request name req i d = Some d'"
  shows "db_inv d'"
proof -
  let ?P = "\<lambda>r. d_id r = i" and ?f = "\<lambda>r :: device_row. r\<lparr>d_name := name, d_request := req\<rparr>"
  have keys: "distinct (map d_id (devices d))" "distinct (map d_request (devices d))"
    using db_invD(1) [OF assms(1)] by (simp_all add: inv_keys_def unique_defs)
  have d': "d' = fst (upd_devices ?P ?f d)"
    and new: "(\<exists>r \<in> set (devices d). d_id r = i) \<Longrightarrow> \<forall>r \<in> set (devices d). d_id r \<noteq> i \<longrightarrow> d_request r \<noteq> req"
    using assms(2) by (auto simp: upd_request_def list_ex_iff split: if_splits)
  have "inj_on (\<lambda>r. d_request (if ?P r then ?f r else r)) (set (devices d))"
    using keys new by (auto simp: inj_on_def dest: distinct_key_eq)
  moreover have "distinct (devices d)" using keys(1) by (simp add: distinct_map)
  ultimately have "device_request.unique (update_where ?P ?f (devices d))"
    by (simp add: device_request.unique_def update_where_def distinct_map inj_on_def)
  then show ?thesis unfolding d' by (intro inv_upd_devices [OF assms(1)]) simp_all
qed

lemma upd_request_tables:
  assumes "upd_request name req i d = Some d'"
  shows "alive d' = alive d" "bound d' = bound d" "active_count d' = active_count d"
    "networks d' = networks d" "device_users d' = device_users d"
  using assms by (auto simp: upd_request_def upd_defs split: if_splits)

lemma link_device_tables:
  assumes "link_device x usr d = Some d'"
  shows "alive d' = alive d" "bound d' = bound d" "active_count d' = active_count d"
    "networks d' = networks d"
  using assms by (auto simp: link_device_def split: if_splits)

lemma ins_device_tables:
  assumes "ins_device r d = Some d'"
  shows "alive d' = alive d" "bound d' = bound d" "active_count d' = active_count d"
    "networks d' = networks d"
  using assms by (auto dest!: ins_SomeD)

text \<open>Room in a network, and the admission of a device to it.\<close>

definition room :: "db \<Rightarrow> string \<Rightarrow> bool" where
  "room d net \<longleftrightarrow> (\<exists>n \<in> set (networks d). n_id n = net \<and> int (active_count d net) < n_max n)"

lemma admit_step:
  assumes "db_inv d" "alive d net usr" "room d net" "link_device x usr d0 = Some d"
    and "bind_active net x d = Some d1"
  shows "db_inv d1"
  by (rule bind_keeps [OF assms(1,2) link_device_linked [OF assms(4)] _ assms(5)])
    (use assms(3) in \<open>simp add: room_def\<close>)

lemma admitDevice_keeps:
  assumes "db_inv d1" "alive (st_db s) net (dev_UserID device)" "room (st_db s) net"
    and "link_device (dev_ID device) (dev_UserID device) (st_db s) = Some d1"
    and "\<And>t. db_inv (st_db t) \<Longrightarrow> Q (Commit device) t" "\<And>e t. E e t"
  shows "wp (admitDevice event device net now) Q E s"
proof -
  have "db_inv d2" if "bind_active net (dev_ID device) d1 = Some d2" for d2
    by (rule admit_step [OF assms(1) _ _ assms(4) that])
      (use assms(2,3) link_device_tables [OF assms(4)] in \<open>simp_all add: room_def\<close>)
  then show ?thesis
    unfolding admitDevice_def using assms(4) by (auto simp: wp_simps assms(6) intro!: assms(5) intro: inv_audit)
qed

lemma admission_keeps:
  assumes inv: "db_inv (st_db s)" and alive: "alive (st_db s) net (dev_UserID device)"
    and room: "room (st_db s) net"
    and Q: "\<And>x t. db_inv (st_db t) \<Longrightarrow> Q (Commit x) t" "\<And>e t. E e t"
  shows "wp (knownDevice device req) (\<lambda>x. wp (admitDevice event x net now) Q E) E s"
proof -
  let ?d = "st_db s"
  have new: "wp (admitDevice event device net now) Q E t"
    if ins: "ins_device (new_device device req) ?d = Some (st_db t)" for t
  proof (cases "link_device (dev_ID device) (dev_UserID device) (st_db t)")
    case None
    then show ?thesis using Q(2) by (simp add: admitDevice_def wp_simps)
  next
    case (Some d1)
    have "db_inv d1" by (rule inv_new_device [OF inv ins]) (simp add: new_device_def Some)
    then show ?thesis
      by (rule admitDevice_keeps) (use alive room Q ins_device_tables [OF ins] Some in \<open>simp_all add: room_def\<close>)
  qed
  have known: "wp (admitDevice event (device\<lparr>dev_ID := i, dev_Certificate := c\<rparr>) net now) Q E t"
    if upd: "upd_request (dev_Name device) req i ?d = Some (st_db t)" for i c t
  proof (cases "link_device i (dev_UserID device) (st_db t)")
    case None
    then show ?thesis using Q(2) by (simp add: admitDevice_def wp_simps)
  next
    case (Some d1)
    have "db_inv d1" by (rule inv_link_device [OF upd_request_keeps [OF inv upd] Some])
    then show ?thesis
      by (rule admitDevice_keeps)
        (use alive room Q upd_request_tables [OF upd] Some in \<open>simp_all add: room_def\<close>)
  qed
  show ?thesis
    unfolding knownDevice_def using new known Q(2) by (simp add: wp_simps)
qed

text \<open>A reader of the tokens, and the capacity check.\<close>

lemma tokenScopeD:
  assumes "token_rows C token now d = (usr, net) # xs"
  shows "alive d net usr" "enabled d usr"
  using hd_in [OF assms] by (simp_all add: set_token_rows)

lemma roomI:
  assumes "[n_max n. n \<leftarrow> networks d, n_id n = net \<and> \<not> n_deleted n] = m # ms"
    and "int (active_count d net) < m"
  shows "room d net"
proof -
  have "m \<in> set [n_max n. n \<leftarrow> networks d, n_id n = net \<and> \<not> n_deleted n]" using assms(1) by simp
  with assms(2) show ?thesis by (auto simp: room_def split: if_splits)
qed

lemma owner_alive:
  assumes "[n_user n. n \<leftarrow> networks d, n_id n = net \<and> \<not> n_deleted n] = usr # us"
  shows "alive d net usr"
  using hd_in [OF assms] unfolding select_simps alive_def by blast

lemma use_tokens_frame [simp]:
  "alive (fst (upd_tokens P f d)) = alive d" "room (fst (upd_tokens P f d)) = room d"
  "enabled (fst (upd_tokens P f d)) = enabled d" "bound (fst (upd_tokens P f d)) = bound d"
  by (simp_all add: upd_defs room_def fun_eq_iff)

lemma Enroll_keeps:
  assumes "db_inv (st_db s)"
  shows "db_inv (st_db (snd (Enroll C serial request now s)))"
proof (rule keeps_wp)
  show "wp (Enroll C serial request now) (\<lambda>_ t. db_inv (st_db t)) (\<lambda>_ t. db_inv (st_db t)) s"
    unfolding Enroll_def bindingFitsCapacity_def activeBindingCount_def consumeToken_def
    by (auto simp: wp_simps assms inv_use_tokens split: sum.splits prod.splits
        intro!: admission_keeps dest: tokenScopeD roomI)
qed

lemma JoinNetwork_keeps:
  assumes "db_inv (st_db s)"
  shows "db_inv (st_db (snd (JoinNetwork C serial request now s)))"
proof (rule keeps_wp)
  show "wp (JoinNetwork C serial request now) (\<lambda>_ t. db_inv (st_db t)) (\<lambda>_ t. db_inv (st_db t)) s"
    unfolding JoinNetwork_def bindingFitsCapacity_def activeBindingCount_def
    by (auto simp: wp_simps assms split: sum.splits intro!: admission_keeps dest: roomI owner_alive)
qed

section \<open>Which operations read, advance and are atomic\<close>

lemma tokenScope_reading [contract_intros]: "reading (tokenScope C token now)"
  unfolding tokenScope_def by (intro contract_intros)

lemma tokenScope_advancing [contract_intros]: "advancing (tokenScope C token now)"
  unfolding tokenScope_def by (intro contract_intros)

lemma Device_of_reading [contract_intros]: "reading (Device_of i)"
  unfolding Device_of_def by (intro contract_intros)

lemma Authenticate_reading [contract_intros]: "reading (Authenticate C certificate now)"
  unfolding Authenticate_def by (intro contract_intros)

lemma bindingFitsCapacity_advancing [contract_intros]: "advancing (bindingFitsCapacity i)"
  unfolding bindingFitsCapacity_def activeBindingCount_def by (intro contract_intros)

lemma upd_request_advances: "upd_request name req i d = Some d' \<Longrightarrow> advances d d'"
  by (auto simp: upd_request_def device_le_def intro!: advances_upd split: if_splits)

lemma consumeToken_advancing [contract_intros]: "advancing (consumeToken C token now)"
  unfolding consumeToken_def by (intro contract_intros) (auto simp: token_le_def intro!: advances_upd)

lemma knownDevice_advancing [contract_intros]: "advancing (knownDevice device req)"
  unfolding knownDevice_def by (intro contract_intros) (auto dest: advances_ins upd_request_advances)

lemma admitDevice_advancing [contract_intros]: "advancing (admitDevice event device net now)"
  unfolding admitDevice_def by (intro contract_intros) (auto dest: advances_ins)

lemma RecordDeviceSeen_advancing [contract_intros]: "advancing (RecordDeviceSeen i telemetry now)"
  unfolding RecordDeviceSeen_def Let_def by (intro contract_intros) (auto simp: le_defs device_le_def intro!: advances_upd dest: advances_ins)

lemma IssueEnrollmentToken_advancing [contract_intros]: "advancing (IssueEnrollmentToken C rnd userID networkID now)"
  unfolding IssueEnrollmentToken_def by (intro contract_intros) (auto simp: le_defs intro!: advances_upd dest: advances_ins)

lemma Enroll_advancing [contract_intros]: "advancing (Enroll C serial request now)"
  unfolding Enroll_def by (intro contract_intros)

lemma JoinNetwork_advancing [contract_intros]: "advancing (JoinNetwork C serial request now)"
  unfolding JoinNetwork_def by (intro contract_intros)

lemma IssueEnrollmentToken_atomic: "atomic (IssueEnrollmentToken C rnd userID networkID now)"
  unfolding IssueEnrollmentToken_def by (intro contract_intros)

lemma Enroll_atomic: "atomic (Enroll C serial request now)"
  unfolding Enroll_def by (intro contract_intros)

lemma JoinNetwork_atomic: "atomic (JoinNetwork C serial request now)"
  unfolding JoinNetwork_def by (intro contract_intros)

interpretation RecordDeviceSeen: keeping "RecordDeviceSeen i telemetry now" for i telemetry now
  by unfold_locales (rule RecordDeviceSeen_keeps)

interpretation IssueEnrollmentToken: keeping "IssueEnrollmentToken C rnd userID networkID now" for C rnd userID networkID now
  by unfold_locales (rule IssueEnrollmentToken_keeps)

interpretation Enroll: keeping "Enroll C serial request now" for C serial request now
  by unfold_locales (rule Enroll_keeps)

interpretation JoinNetwork: keeping "JoinNetwork C serial request now" for C serial request now
  by unfold_locales (rule JoinNetwork_keeps)


lemma reading_keeping [contract_intros]:
  "keeping (Device_of i)" "keeping (Authenticate C certificate now)"
  by (rule keeping_reading, intro contract_intros)+

end
