(* ===== verification/Certificates.thy ===== *)
theory Certificates
  imports Enrollment
begin

text \<open>
  Reading an enrolment back, renewing and recovering a certificate, and revoking a device
  (\<open>internal/coordinator/certificates.go\<close>).
\<close>

section \<open>Data\<close>

record EnrollmentQuery =
  eq_RequestID :: string
  eq_PublicKey :: bytes
  eq_IssuedAt :: int
  eq_Signature :: string

record Renewal =
  rn_RequestID :: string
  rn_CSR :: string

record CertificateRecovery =
  cr_DeviceID :: string
  cr_RequestID :: string
  cr_CSR :: string
  cr_Token :: string

definition newline :: string where
  "newline = [CHR 0x0A]"

definition EnrollmentQuery_SigningBytes :: "EnrollmentQuery \<Rightarrow> bytes" where
  "EnrollmentQuery_SigningBytes request =
     ''dshker.enrollment-query.v1'' @ newline @ eq_RequestID request @ newline
     @ b64_encode (eq_PublicKey request) @ newline @ itoa (eq_IssuedAt request)"

section \<open>Operations\<close>

definition ReadEnrollment :: "crypto \<Rightarrow> EnrollmentQuery \<Rightarrow> time \<Rightarrow> ('z, Device) act" where
  "ReadEnrollment C request now =
     guard (case b64_decode (eq_Signature request) of
              None \<Rightarrow> False
            | Some signature \<Rightarrow> ValidID (eq_RequestID request) \<and> length (eq_PublicKey request) = 32
                \<and> eq_IssuedAt request \<le> unix now \<and> unix (now - minute) < eq_IssuedAt request
                \<and> ed_verify C (eq_PublicKey request) (EnrollmentQuery_SigningBytes request) signature)
       ''p2p.device_unauthorized''
     (bnd (mapErr (\<lambda>_. P2p ''p2p.enrollment_not_found'')
             (queryRow (\<lambda>d. [d_id r. r \<leftarrow> devices d,
                d_key r = eq_PublicKey request \<and> d_request r = eq_RequestID request \<and> \<not> d_revoked r])))
        Device_of)"

definition saved_rows :: "string \<Rightarrow> string \<Rightarrow> db \<Rightarrow> bytes list" where
  "saved_rows deviceID requestID d =
     [r_cert r. r \<leftarrow> renewals d, r_device r = deviceID \<and> r_request r = requestID]"

text \<open>\<open>replaceCertificate\<close>; the token part of it is \<open>spendToken\<close>.\<close>

definition spendToken :: "crypto \<Rightarrow> Device \<Rightarrow> string \<Rightarrow> time \<Rightarrow> ('z, unit) act" where
  "spendToken C device token now =
     bnd (tokenScope C token now)
       (\<lambda>(userID, networkID). bnd (deviceLinkedTo (dev_ID device) userID)
       (\<lambda>linked. guard linked ''p2p.identity_mismatch''
       (bnd (bindingOwner networkID (dev_ID device))
       (\<lambda>_. consumeToken C token now))))"

definition replaceCertificate ::
  "crypto \<Rightarrow> bytes option \<Rightarrow> Device \<Rightarrow> string \<Rightarrow> string \<Rightarrow> time \<Rightarrow> ('z, bytes) act" where
  "replaceCertificate C serial device requestID token now = withStore (\<lambda>store.
     case issueCertificate C serial store (dev_ID device) (dev_PublicKey device) now of
       Inl err \<Rightarrow> throw err
     | Inr certificate \<Rightarrow> transaction
         (bnd (mapErr (\<lambda>_. P2p ''p2p.device_unauthorized'')
                (queryRow (\<lambda>d. [d_revoked r. r \<leftarrow> devices d, d_id r = dev_ID device])))
            (\<lambda>revoked. guard (\<not> revoked) ''p2p.device_unauthorized''
            (bnd (attempt (queryRow (saved_rows (dev_ID device) requestID)))
            (\<lambda>saved.
               if \<not> isl saved \<and> token = '''' then ret (Rollback (projr saved))
               else if isl saved \<and> projl saved \<noteq> No_rows then throw (projl saved)
               else
                 bnd (if token \<noteq> '''' then spendToken C device token now else ret ())
                   (\<lambda>_. bnd (mapErr (\<lambda>_. P2p ''p2p.request_conflict'')
                          (execInsert (ins_renewal \<lparr>r_device = dev_ID device, r_request = requestID,
                                                    r_cert = certificate\<rparr>)))
                   (\<lambda>_. bnd (execUpdate (upd_devices (\<lambda>r. d_id r = dev_ID device) (\<lambda>r. r\<lparr>d_cert := certificate\<rparr>)))
                   (\<lambda>_. ret (Commit certificate)))))))))"

definition Renew ::
  "crypto \<Rightarrow> bytes option \<Rightarrow> certificate option \<Rightarrow> Renewal \<Rightarrow> time \<Rightarrow> ('z, bytes) act" where
  "Renew C serial certificate request now =
     bnd (Authenticate C certificate now)
       (\<lambda>device. guard (csrKey C (rn_CSR request) = Inr (dev_PublicKey device) \<and> ValidID (rn_RequestID request))
           ''p2p.identity_mismatch''
       (bnd (attempt (queryRow (saved_rows (dev_ID device) (rn_RequestID request))))
       (\<lambda>saved. case saved of
            Inr cert \<Rightarrow> ret cert
          | Inl err \<Rightarrow>
              if err \<noteq> No_rows then throw err
              else guard (\<not> (case certificate of
                               None \<Rightarrow> False
                             | Some cert \<Rightarrow> after (cert_notAfter cert) (now + 7 * day))) ''p2p.renewal_not_due''
                (replaceCertificate C serial device (rn_RequestID request) '''' now))))"

definition RecoverCertificate ::
  "crypto \<Rightarrow> bytes option \<Rightarrow> CertificateRecovery \<Rightarrow> time \<Rightarrow> ('z, bytes) act" where
  "RecoverCertificate C serial request now =
     bnd (Device_of (cr_DeviceID request))
       (\<lambda>device. guard (csrKey C (cr_CSR request) = Inr (dev_PublicKey device)
              \<and> ValidID (cr_RequestID request) \<and> length (cr_Token request) = 64) ''p2p.identity_mismatch''
       (guard (case parse_cert C (dev_Certificate device) of
                 None \<Rightarrow> False
               | Some certificate \<Rightarrow> \<not> before now (cert_notAfter certificate)) ''p2p.certificate_not_expired''
       (replaceCertificate C serial device (cr_RequestID request) (cr_Token request) now)))"

definition RevokeDevice :: "string \<Rightarrow> time \<Rightarrow> ('z, unit) act" where
  "RevokeDevice i now = transaction
     (bnd (execUpdate (upd_devices (\<lambda>r. d_id r = i \<and> \<not> d_revoked r) (\<lambda>r. r\<lparr>d_revoked := True\<rparr>)))
        (\<lambda>count. guard (count = 1) ''p2p.device_unauthorized''
        (bnd (execUpdate (upd_pairs (\<lambda>p. p_initiator p = i \<or> p_target p = i) (set_state Revoked)))
        (\<lambda>_. bnd (execInsert (ins_audit ''device-revoked'' i (unix now)))
        (\<lambda>_. ret (Commit ()))))))"

section \<open>Contracts\<close>

lemma inv_set_device:
  assumes "db_inv d"
    and "\<And>r. d_id (f r) = d_id r" "\<And>r. d_user (f r) = d_user r" "\<And>r. d_key (f r) = d_key r"
      "\<And>r. d_request (f r) = d_request r"
  shows "db_inv (fst (upd_devices P f d))"
  using db_invD(1) [OF assms(1)] assms
  by (intro inv_upd_devices) (simp_all add: inv_keys_def device_request.unique_update)

lemma replaceCertificate_keeps:
  "db_inv (st_db s) \<Longrightarrow> db_inv (st_db (snd (replaceCertificate C serial device requestID token now s)))"
  by (rule keeps_wp)
    (auto simp: replaceCertificate_def spendToken_def consumeToken_def deviceLinkedTo_def wp_simps
      split: sum.splits intro!: inv_set_device intro: inv_ins_renewal inv_use_tokens)

lemma replaceCertificate_keeping [contract_intros]:
  "keeping (replaceCertificate C serial device requestID token now)"
  by unfold_locales (rule replaceCertificate_keeps)

lemma Renew_keeping: "keeping (Renew C serial certificate request now)"
  unfolding Renew_def by (intro contract_intros)

lemma RecoverCertificate_keeping: "keeping (RecoverCertificate C serial request now)"
  unfolding RecoverCertificate_def by (intro contract_intros)

lemma RevokeDevice_keeps: "db_inv (st_db s) \<Longrightarrow> db_inv (st_db (snd (RevokeDevice i now s)))"
  by (rule keeps_wp)
    (auto simp: RevokeDevice_def wp_simps intro!: inv_set_device inv_revoke_pairs elim!: inv_audit [rotated])

lemma ReadEnrollment_reading [contract_intros]: "reading (ReadEnrollment C request now)"
  unfolding ReadEnrollment_def by (intro contract_intros)

lemma deviceLinkedTo_advancing [contract_intros]: "advancing (deviceLinkedTo deviceID userID)"
  unfolding deviceLinkedTo_def by (intro contract_intros)

lemma spendToken_advancing [contract_intros]: "advancing (spendToken C device token now)"
  unfolding spendToken_def by (intro contract_intros)

lemma replaceCertificate_advancing [contract_intros]:
  "advancing (replaceCertificate C serial device requestID token now)"
  unfolding replaceCertificate_def
  by (intro contract_intros) (auto simp: device_le_def intro!: advances_upd dest: advances_ins)

lemma replaceCertificate_atomic [contract_intros]:
  "atomic (replaceCertificate C serial device requestID token now)"
  unfolding replaceCertificate_def by (intro contract_intros)

lemma Authenticate_advancing [contract_intros]: "advancing (Authenticate C certificate now)"
  unfolding Authenticate_def Device_of_def by (intro contract_intros)

lemma Device_of_advancing [contract_intros]: "advancing (Device_of i)"
  unfolding Device_of_def by (intro contract_intros)

lemma Renew_advancing [contract_intros]: "advancing (Renew C serial certificate request now)"
  unfolding Renew_def by (intro contract_intros)

lemma RecoverCertificate_advancing [contract_intros]: "advancing (RecoverCertificate C serial request now)"
  unfolding RecoverCertificate_def by (intro contract_intros)

lemma RevokeDevice_advancing [contract_intros]: "advancing (RevokeDevice i now)"
  unfolding RevokeDevice_def by (intro contract_intros) (auto simp: device_le_def intro!: advances_upd dest: advances_ins)

lemma Renew_atomic: "atomic (Renew C serial certificate request now)"
  unfolding Renew_def by (intro contract_intros)

lemma RecoverCertificate_atomic: "atomic (RecoverCertificate C serial request now)"
  unfolding RecoverCertificate_def by (intro contract_intros)

lemma RevokeDevice_atomic: "atomic (RevokeDevice i now)"
  unfolding RevokeDevice_def by (intro contract_intros)

end
