(* ===== verification/Json.thy ===== *)
theory Json
  imports GoText
begin

text \<open>
  JSON as \<open>encoding/json\<close> writes and reads it, and the strict decoder of
  \<open>internal/protocol/json.go\<close>.  Writing covers what the program marshals for signing: arrays of
  strings and integers.  Reading is the token stream of \<open>json.Decoder\<close>: \<open>Token\<close> and \<open>More\<close> with the
  decoder's state and stack, the scanners of the scalar values, and decoding an object into the
  fields of a struct.
\<close>

section \<open>Writing\<close>

text \<open>The runes of a string, an invalid byte being a piece of its own.\<close>

function runes :: "bytes \<Rightarrow> bytes list" where
  "runes s = (if s = [] then [] else let w = snd (decode_rune s) in take w s # runes (drop w s))"
  by pat_completeness auto
termination
proof (relation "measure length")
  fix s :: bytes and w
  assume "s \<noteq> []" "w = snd (decode_rune s)"
  with decode_rune_width_pos [of s] show "(drop w s, s) \<in> measure length" by (cases s) auto
qed simp

declare runes.simps [simp del]

text \<open>\<open>htmlSafeSet\<close> and the escapes of \<open>appendString\<close> with \<open>escapeHTML\<close> set.\<close>

definition html_safe :: "char \<Rightarrow> bool" where
  "html_safe c \<longleftrightarrow> 0x20 \<le> byte_of c \<and> c \<noteq> CHR 0x22 \<and> c \<noteq> CHR 0x5C \<and> c \<noteq> CHR ''<'' \<and> c \<noteq> CHR ''>''
     \<and> c \<noteq> CHR ''&''"

definition backslash :: char where
  "backslash = CHR 0x5C"

definition quote :: char where
  "quote = CHR 0x22"

definition escape_ascii :: "char \<Rightarrow> bytes" where
  "escape_ascii c =
     (if html_safe c then [c]
      else if c = quote \<or> c = backslash then [backslash, c]
      else if c = CHR 0x08 then [backslash, CHR ''b'']
      else if c = CHR 0x0C then [backslash, CHR ''f'']
      else if c = CHR 0x0A then [backslash, CHR ''n'']
      else if c = CHR 0x0D then [backslash, CHR ''r'']
      else if c = CHR 0x09 then [backslash, CHR ''t'']
      else [backslash, CHR ''u'', CHR ''0'', CHR ''0'', hex_digit (byte_of c div 16), hex_digit (byte_of c mod 16)])"

text \<open>U+2028 and U+2029, the two line separators that are escaped, are the bytes E2 80 A8 and A9.\<close>

definition escape_rune :: "bytes \<Rightarrow> bytes" where
  "escape_rune p =
     (case p of
        [] \<Rightarrow> []
      | c # _ \<Rightarrow>
          if byte_of c < 0x80 then escape_ascii c
          else if decode_rune p = (rune_error, 1) then backslash # ''ufffd''
          else if p = [CHR 0xE2, CHR 0x80, CHR 0xA8] then backslash # ''u2028''
          else if p = [CHR 0xE2, CHR 0x80, CHR 0xA9] then backslash # ''u2029''
          else p)"

definition escape :: "bytes \<Rightarrow> bytes" where
  "escape s = concat (map escape_rune (runes s))"

datatype elem = EStr bytes | EInt int

fun marshal_elem :: "elem \<Rightarrow> bytes" where
  "marshal_elem (EStr s) = quote # escape s @ [quote]"
| "marshal_elem (EInt i) = itoa i"

fun marshal_tail :: "elem list \<Rightarrow> bytes" where
  "marshal_tail [] = '']''"
| "marshal_tail (e # es) = CHR '','' # marshal_elem e @ marshal_tail es"

text \<open>\<open>json.Marshal([]any{...})\<close> of at least one element.\<close>

definition marshal_array :: "elem list \<Rightarrow> bytes" where
  "marshal_array es = (case es of [] \<Rightarrow> ''[]'' | e # es' \<Rightarrow> CHR ''['' # marshal_elem e @ marshal_tail es')"

section \<open>Scanning scalars\<close>

definition is_digit :: "char \<Rightarrow> bool" where
  "is_digit c \<longleftrightarrow> 48 \<le> byte_of c \<and> byte_of c \<le> 57"

definition json_space :: "char \<Rightarrow> bool" where
  "json_space c \<longleftrightarrow> c = CHR 0x20 \<or> c = CHR 0x09 \<or> c = CHR 0x0D \<or> c = CHR 0x0A"

definition skip_space :: "bytes \<Rightarrow> bytes" where
  "skip_space = dropWhile json_space"

text \<open>A number: the longest prefix of the form the scanner accepts, or an error.\<close>

definition scan_int :: "bytes \<Rightarrow> (bytes \<times> bytes) option" where
  "scan_int s = (case s of
     [] \<Rightarrow> None
   | c # t \<Rightarrow> if c = CHR ''0'' then Some ([c], t)
              else if is_digit c then Some (takeWhile is_digit s, dropWhile is_digit s) else None)"

definition scan_frac :: "bytes \<Rightarrow> (bytes \<times> bytes) option" where
  "scan_frac s = (case s of
     [] \<Rightarrow> Some ([], [])
   | c # t \<Rightarrow> if c \<noteq> CHR ''.'' then Some ([], s)
              else if takeWhile is_digit t = [] then None
              else Some (c # takeWhile is_digit t, dropWhile is_digit t))"

definition scan_exp :: "bytes \<Rightarrow> (bytes \<times> bytes) option" where
  "scan_exp s = (case s of
     [] \<Rightarrow> Some ([], [])
   | c # t \<Rightarrow> if c \<noteq> CHR ''e'' \<and> c \<noteq> CHR ''E'' then Some ([], s)
              else let sign = (case t of [] \<Rightarrow> [] | d # _ \<Rightarrow> if d = CHR ''+'' \<or> d = CHR ''-'' then [d] else []);
                       u = drop (length sign) t
                   in if takeWhile is_digit u = [] then None
                      else Some (c # sign @ takeWhile is_digit u, dropWhile is_digit u))"

definition scan_sign :: "bytes \<Rightarrow> bytes \<times> bytes" where
  "scan_sign s = (case s of [] \<Rightarrow> ([], []) | c # t \<Rightarrow> if c = CHR ''-'' then ([c], t) else ([], s))"

definition scan_number :: "bytes \<Rightarrow> ((bytes \<times> bytes \<times> bytes \<times> bytes) \<times> bytes) option" where
  "scan_number s = (case scan_sign s of (sign, s1) \<Rightarrow>
     case scan_int s1 of None \<Rightarrow> None | Some (whole, s2) \<Rightarrow>
     case scan_frac s2 of None \<Rightarrow> None | Some (frac, s3) \<Rightarrow>
     case scan_exp s3 of None \<Rightarrow> None | Some (ex, s4) \<Rightarrow> Some ((sign, whole, frac, ex), s4))"

text \<open>\<open>strconv.ParseFloat\<close> fails when the value rounds beyond the largest float64.\<close>

definition digits_value :: "bytes \<Rightarrow> nat" where
  "digits_value s = (case parse_nat 0 s of None \<Rightarrow> 0 | Some n \<Rightarrow> n)"

definition exp_value :: "bytes \<Rightarrow> int" where
  "exp_value ex = (case ex of
     [] \<Rightarrow> 0
   | _ # t \<Rightarrow> case t of
        [] \<Rightarrow> 0
      | c # u \<Rightarrow> if c = CHR ''-'' then - int (digits_value u)
                 else if c = CHR ''+'' then int (digits_value u) else int (digits_value t))"

definition float_overflow :: "bytes \<Rightarrow> bytes \<Rightarrow> bytes \<Rightarrow> bool" where
  "float_overflow whole frac ex =
     (let m = digits_value (whole @ tl frac); e = exp_value ex - int (length (tl frac)) in
      if 0 \<le> e then 2 ^ 1024 - 2 ^ 970 \<le> m * 10 ^ nat e
      else (2 ^ 1024 - 2 ^ 970) * 10 ^ nat (- e) \<le> m)"

text \<open>A string after its opening quote: its raw text and what follows the closing quote.\<close>

definition simple_escape :: "char \<Rightarrow> char option" where
  "simple_escape c =
     (if c = quote \<or> c = backslash \<or> c = CHR ''/'' then Some c
      else if c = CHR ''b'' then Some (CHR 0x08)
      else if c = CHR ''f'' then Some (CHR 0x0C)
      else if c = CHR ''n'' then Some (CHR 0x0A)
      else if c = CHR ''r'' then Some (CHR 0x0D)
      else if c = CHR ''t'' then Some (CHR 0x09)
      else None)"

fun hex4 :: "bytes \<Rightarrow> nat option" where
  "hex4 (a # b # c # d # _) =
     (case (hex_value a, hex_value b, hex_value c, hex_value d) of
        (Some w, Some x, Some y, Some z) \<Rightarrow> Some (((w * 16 + x) * 16 + y) * 16 + z)
      | _ \<Rightarrow> None)"
| "hex4 _ = None"

function scan_string :: "bytes \<Rightarrow> (bytes \<times> bytes) option" where
  "scan_string s =
     (case s of
        [] \<Rightarrow> None
      | c # t \<Rightarrow>
          if c = quote then Some ([], t)
          else if c = backslash then
            (case t of
               [] \<Rightarrow> None
             | e # u \<Rightarrow>
                 if simple_escape e \<noteq> None then map_option (\<lambda>(x, r). (c # e # x, r)) (scan_string u)
                 else if e = CHR ''u'' \<and> hex4 u \<noteq> None
                 then map_option (\<lambda>(x, r). (c # e # take 4 u @ x, r)) (scan_string (drop 4 u))
                 else None)
          else if byte_of c < 0x20 then None
          else map_option (\<lambda>(x, r). (c # x, r)) (scan_string t))"
  by pat_completeness auto
termination by (relation "measure length") auto

declare scan_string.simps [simp del]

definition encode_rune :: "nat \<Rightarrow> bytes" where
  "encode_rune r =
     (if r < 0x80 then [char_of r]
      else if r < 0x800 then [char_of (0xC0 + r div 64), char_of (0x80 + r mod 64)]
      else if r < 0x10000 then [char_of (0xE0 + r div 4096), char_of (0x80 + r div 64 mod 64), char_of (0x80 + r mod 64)]
      else [char_of (0xF0 + r div 262144), char_of (0x80 + r div 4096 mod 64),
            char_of (0x80 + r div 64 mod 64), char_of (0x80 + r mod 64)])"

text \<open>The second half of a surrogate pair: \<open>\\uDC00\<close> to \<open>\\uDFFF\<close>.\<close>

definition low_surrogate :: "bytes \<Rightarrow> nat option" where
  "low_surrogate s = (case s of
     a # b # t \<Rightarrow> if a = backslash \<and> b = CHR ''u'' then
         (case hex4 t of None \<Rightarrow> None | Some r \<Rightarrow> if 0xDC00 \<le> r \<and> r < 0xE000 then Some r else None) else None
   | _ \<Rightarrow> None)"

function unquote :: "bytes \<Rightarrow> bytes" where
  "unquote s =
     (case s of
        [] \<Rightarrow> []
      | c # t \<Rightarrow>
          if c = backslash then
            (case t of
               [] \<Rightarrow> []
             | e # u \<Rightarrow>
                 (case simple_escape e of
                    Some d \<Rightarrow> d # unquote u
                  | None \<Rightarrow>
                      (case hex4 u of
                         None \<Rightarrow> []
                       | Some r \<Rightarrow>
                           if r < 0xD800 \<or> 0xE000 \<le> r then encode_rune r @ unquote (drop 4 u)
                           else (case low_surrogate (drop 4 u) of
                                   Some q \<Rightarrow>
                                     if r < 0xDC00
                                     then encode_rune ((r - 0xD800) * 1024 + (q - 0xDC00) + 0x10000) @ unquote (drop 10 u)
                                     else encode_rune rune_error @ unquote (drop 4 u)
                                 | None \<Rightarrow> encode_rune rune_error @ unquote (drop 4 u)))))
          else if byte_of c < 0x80 then c # unquote t
          else if decode_rune s = (rune_error, 1) then encode_rune rune_error @ unquote t
          else take (snd (decode_rune s)) s @ unquote (drop (snd (decode_rune s)) s))"
  by pat_completeness auto
termination
proof (relation "measure length")
  fix s c t
  assume "(s :: bytes) = c # t"
  with decode_rune_width_pos [of s] show "(drop (snd (decode_rune s)) s, s) \<in> measure length"
    by auto
qed auto

declare unquote.simps [simp del]

section \<open>What is written is read back\<close>

lemma second_lo_ge: "0x80 \<le> second_lo b"
  by (simp add: second_lo_def)

lemma continuation_ge: "continuation (second_lo b) hi x \<Longrightarrow> 0x80 \<le> x" "continuation 0x80 hi x \<Longrightarrow> 0x80 \<le> x"
  using second_lo_ge [of b] by (simp_all add: continuation_def)

lemma decode_multi_cases:
  assumes "decode_multi b rest = (r, w)" "w \<noteq> 1"
  obtains (two) b1 t where "rest = b1 # t" "w = 2" "0x80 \<le> b1" "\<And>x. decode_multi b (b1 # x) = (r, 2)"
  | (three) b1 b2 t where "rest = b1 # b2 # t" "w = 3" "0x80 \<le> b1" "0x80 \<le> b2"
      "\<And>x. decode_multi b (b1 # b2 # x) = (r, 3)"
  | (four) b1 b2 b3 t where "rest = b1 # b2 # b3 # t" "w = 4" "0x80 \<le> b1" "0x80 \<le> b2" "0x80 \<le> b3"
      "\<And>x. decode_multi b (b1 # b2 # b3 # x) = (r, 4)"
proof -
  have lead: "\<not> (b < 0xC2 \<or> 0xF4 < b)" using assms by (auto simp: decode_multi_def)
  then obtain b1 t1 where rest: "rest = b1 # t1" using assms by (cases rest) (auto simp: decode_multi_def)
  have c1: "continuation (second_lo b) (second_hi b) b1"
    using assms lead by (auto simp: decode_multi_def rest split: if_splits)
  consider (1) "b < 0xE0" | (2) b2 t2 where "\<not> b < 0xE0" "t1 = b2 # t2" | (3) "\<not> b < 0xE0" "t1 = []"
    by (cases t1) auto
  then show ?thesis
  proof cases
    case 1
    with assms lead c1 show ?thesis
      by (intro two [OF rest]) (auto simp: decode_multi_def rest dest: continuation_ge)
  next
    case (2 b2 t2)
    have c2: "continuation 0x80 0xBF b2"
      using assms lead c1 2 by (auto simp: decode_multi_def rest split: if_splits)
    show ?thesis
    proof (cases "b < 0xF0")
      case True
      with assms lead c1 c2 2 show ?thesis
        by (intro three [OF rest [unfolded 2(2)]]) (auto simp: decode_multi_def rest dest: continuation_ge)
    next
      case False
      then obtain b3 t3 where t2: "t2 = b3 # t3"
        using assms lead c1 c2 2 by (cases t2) (auto simp: decode_multi_def rest)
      have c3: "continuation 0x80 0xBF b3"
        using assms lead c1 c2 2 t2 False by (auto simp: decode_multi_def rest split: if_splits)
      with assms lead c1 c2 2 t2 False show ?thesis
        by (intro four [OF rest [unfolded 2(2) t2]]) (auto simp: decode_multi_def rest dest: continuation_ge)
    qed
  next
    case 3
    with assms lead c1 show ?thesis by (auto simp: decode_multi_def rest)
  qed
qed

lemma decode_multi_stable:
  assumes "decode_multi b rest = (r, w)" "w \<noteq> 1"
  shows "w - 1 \<le> length rest \<and> (\<forall>x \<in> set (take (w - 1) rest). 0x80 \<le> x)
    \<and> (\<forall>x. decode_multi b (take (w - 1) rest @ x) = (r, w))"
  using assms by (cases rule: decode_multi_cases) (simp_all add: eval_nat_numeral)

lemma decode_multi_take3: "decode_multi b (take 3 rest) = decode_multi b rest"
  by (auto simp: decode_multi_def split: list.splits)

lemma decode_rune_multi:
  "0x80 \<le> byte_of c \<Longrightarrow> decode_rune (c # cs) = decode_multi (byte_of c) (map byte_of cs)"
  using decode_multi_take3 [of "byte_of c" "map byte_of cs"] by (simp add: decode_rune_def take_map)

lemma decode_multi_error: "decode_multi b rest = (r, 1) \<Longrightarrow> r = rune_error"
  by (auto simp: decode_multi_def split: if_splits list.splits)

lemma decode_rune_stable:
  assumes "0x80 \<le> byte_of c" "decode_rune (c # cs) = (r, w)" "(r, w) \<noteq> (rune_error, 1)"
  shows "w \<le> length (c # cs)" "\<forall>b \<in> set (take w (c # cs)). 0x80 \<le> byte_of b"
    "decode_rune (take w (c # cs) @ x) = (r, w)"
proof -
  have d: "decode_multi (byte_of c) (map byte_of cs) = (r, w)"
    using assms(1,2) by (simp add: decode_rune_multi)
  with assms(3) have w: "w \<noteq> 1" using decode_multi_error by blast
  have "1 \<le> w" using d decode_multi_width [of "byte_of c" "map byte_of cs"] by simp
  then have tk: "take w (c # cs) = c # take (w - 1) cs" by (cases w) auto
  note st = decode_multi_stable [OF d w]
  show "w \<le> length (c # cs)" using st by auto
  show "\<forall>b \<in> set (take w (c # cs)). 0x80 \<le> byte_of b"
    using st assms(1) by (auto simp: tk take_map)
  show "decode_rune (take w (c # cs) @ x) = (r, w)"
    using st assms(1) by (auto simp: tk decode_rune_multi take_map)
qed

lemma concat_runes: "concat (runes s) = s"
  by (induction s rule: runes.induct) (subst runes.simps, simp add: Let_def)

text \<open>The pieces a valid string falls into.\<close>

definition rune_ok :: "bytes \<Rightarrow> bool" where
  "rune_ok p \<longleftrightarrow> (case p of [] \<Rightarrow> False | c # cs \<Rightarrow>
     if byte_of c < 0x80 then cs = [] else (\<exists>r. \<forall>x. decode_rune (p @ x) = (r, length p) \<and> (r, length p) \<noteq> (rune_error, 1))
       \<and> (\<forall>b \<in> set p. 0x80 \<le> byte_of b))"

lemma runes_ok: "valid_utf8 s \<Longrightarrow> p \<in> set (runes s) \<Longrightarrow> rune_ok p"
proof (induction s arbitrary: p rule: runes.induct)
  case (1 s)
  show ?case
  proof (cases s)
    case Nil
    with 1 show ?thesis by (simp add: runes.simps)
  next
    case (Cons c cs)
    obtain r w where rw: "decode_rune s = (r, w)" by fastforce
    have "valid_utf8 s = (if r = rune_error \<and> w = 1 then False else valid_utf8 (drop w s))"
      using Cons rw by (subst valid_utf8.simps) simp
    with "1.prems"(1) have ok: "(r, w) \<noteq> (rune_error, 1)" and v: "valid_utf8 (drop w s)"
      by (auto split: if_splits)
    consider "p = take w s" | "p \<in> set (runes (drop w s))"
    proof -
      have "runes s = take w s # runes (drop w s)"
        using Cons rw by (subst runes.simps) (simp add: Let_def)
      with "1.prems"(2) show thesis using that by auto
    qed
    then show ?thesis
    proof cases
      case 1
      show ?thesis
      proof (cases "byte_of c < 0x80")
        case True
        then have "w = 1" using rw Cons by (simp add: decode_rune_def)
        with True 1 Cons show ?thesis by (simp add: rune_ok_def)
      next
        case False
        then have c: "0x80 \<le> byte_of c" by simp
        note st = decode_rune_stable [OF c rw [unfolded Cons] ok]
        have "1 \<le> w" using decode_rune_width_pos [of s] rw Cons by simp
        then have "p = c # take (w - 1) cs" "length p = w" using 1 Cons st(1) by (cases w; auto)+
        moreover have "\<forall>b \<in> set p. 0x80 \<le> byte_of b" "\<And>x. decode_rune (p @ x) = (r, w)"
          using st(2,3) 1 Cons by simp_all
        ultimately show ?thesis using ok False unfolding rune_ok_def by auto
      qed
    next
      case 2
      then show ?thesis using "1.IH" [of w p] v Cons rw by auto
    qed
  qed
qed

lemma scan_string_quote [simp]: "scan_string (quote # x) = Some ([], x)"
  by (simp add: scan_string.simps)

lemma scan_string_plain:
  "byte_of c \<ge> 0x20 \<Longrightarrow> c \<noteq> quote \<Longrightarrow> c \<noteq> backslash \<Longrightarrow>
   scan_string (c # x) = map_option (\<lambda>(y, r). (c # y, r)) (scan_string x)"
  by (simp add: scan_string.simps [of "c # x"])

lemma high_plain: "0x80 \<le> byte_of c \<Longrightarrow> c \<noteq> quote \<and> c \<noteq> backslash"
  by (auto simp: quote_def backslash_def)

lemma scan_string_high:
  "\<forall>b \<in> set p. 0x80 \<le> byte_of b \<Longrightarrow>
   scan_string (p @ x) = map_option (\<lambda>(y, r). (p @ y, r)) (scan_string x)"
proof (induction p)
  case (Cons c p)
  then show ?case
    using high_plain [of c] by (simp add: scan_string_plain option.map_comp o_def split_def)
qed (simp add: option.map_ident split_def)

lemma hex4_digits: "n < 16 \<Longrightarrow> m < 16 \<Longrightarrow> k < 16 \<Longrightarrow> l < 16 \<Longrightarrow>
  hex4 (hex_digit n # hex_digit m # hex_digit k # hex_digit l # x) = Some (((n * 16 + m) * 16 + k) * 16 + l)"
  by simp

lemma scan_string_u:
  "hex4 u \<noteq> None \<Longrightarrow> scan_string (backslash # CHR ''u'' # u)
     = map_option (\<lambda>(y, r). (backslash # CHR ''u'' # take 4 u @ y, r)) (scan_string (drop 4 u))"
  by (subst scan_string.simps) (auto simp: simple_escape_def quote_def backslash_def)

lemma scan_string_simple:
  "simple_escape e \<noteq> None \<Longrightarrow> scan_string (backslash # e # u)
     = map_option (\<lambda>(y, r). (backslash # e # y, r)) (scan_string u)"
  by (subst scan_string.simps) (auto simp: quote_def backslash_def)

lemma unquote_simple: "simple_escape e = Some d \<Longrightarrow> unquote (backslash # e # u) = d # unquote u"
  by (simp add: unquote.simps [of "backslash # e # u"])

lemma unquote_u:
  "hex4 u = Some r \<Longrightarrow> r < 0xD800 \<Longrightarrow> unquote (backslash # CHR ''u'' # u) = encode_rune r @ unquote (drop 4 u)"
  by (subst unquote.simps) (simp add: simple_escape_def quote_def backslash_def)

lemma hex_0: "CHR ''0'' = hex_digit 0"
  by code_simp

text \<open>The escapes of an ASCII byte are read back.\<close>

lemma escape_ascii_read:
  assumes "byte_of c < 0x80"
  shows "unquote (escape_ascii c @ x) = c # unquote x \<and>
     scan_string (escape_ascii c @ x) = map_option (\<lambda>(y, r). (escape_ascii c @ y, r)) (scan_string x)"
proof -
  let ?u = "[CHR ''0'', CHR ''0'', hex_digit (byte_of c div 16), hex_digit (byte_of c mod 16)]"
  consider (safe) "html_safe c" | (simple) e where "escape_ascii c = [backslash, e]" "simple_escape e = Some c"
    | (u) "escape_ascii c = backslash # CHR ''u'' # ?u" "\<not> html_safe c"
  proof -
    have "html_safe c \<or> (\<exists>e. escape_ascii c = [backslash, e] \<and> simple_escape e = Some c)
        \<or> escape_ascii c = backslash # CHR ''u'' # ?u \<and> \<not> html_safe c"
      by (simp add: escape_ascii_def simple_escape_def quote_def backslash_def)
    then show thesis using that by blast
  qed
  then show ?thesis
  proof cases
    case safe
    then show ?thesis using assms
      by (simp add: escape_ascii_def html_safe_def scan_string_plain quote_def backslash_def
          unquote.simps [of "c # x"])
  next
    case simple
    then show ?thesis by (simp add: unquote_simple scan_string_simple)
  next
    case u
    have h: "hex4 (?u @ x) = Some (byte_of c)"
      unfolding hex_0 by (simp add: hex4_digits)
    then show ?thesis using u assms
      using unquote_u [OF h] scan_string_u [of "?u @ x"]
      by (simp add: encode_rune_def)
  qed
qed

text \<open>So are those of a rune.\<close>

lemma separators_read:
  "unquote (backslash # ''u2028'' @ x) = [CHR 0xE2, CHR 0x80, CHR 0xA8] @ unquote x"
  "unquote (backslash # ''u2029'' @ x) = [CHR 0xE2, CHR 0x80, CHR 0xA9] @ unquote x"
proof -
  have "hex4 (''2028'' @ x) = Some 0x2028" "hex4 (''2029'' @ x) = Some 0x2029"
    by (simp_all add: hex_value_def Let_def)
  from this [THEN unquote_u]
  show "unquote (backslash # ''u2028'' @ x) = [CHR 0xE2, CHR 0x80, CHR 0xA8] @ unquote x"
    "unquote (backslash # ''u2029'' @ x) = [CHR 0xE2, CHR 0x80, CHR 0xA9] @ unquote x"
    by (simp_all add: encode_rune_def char_of_eq_iff)
qed

lemma escape_rune_read:
  assumes "rune_ok p"
  shows "unquote (escape_rune p @ x) = p @ unquote x \<and>
    scan_string (escape_rune p @ x) = map_option (\<lambda>(y, r). (escape_rune p @ y, r)) (scan_string x)"
proof -
  obtain c cs where p: "p = c # cs" using assms by (cases p) (auto simp: rune_ok_def)
  show ?thesis
  proof (cases "byte_of c < 0x80")
    case True
    then have "cs = []" using assms by (simp add: rune_ok_def p)
    with True show ?thesis using escape_ascii_read [OF True] by (simp add: escape_rune_def p)
  next
    case False
    then obtain r where r: "\<And>x. decode_rune (p @ x) = (r, length p)" "(r, length p) \<noteq> (rune_error, 1)"
      and hi: "\<forall>b \<in> set p. 0x80 \<le> byte_of b"
      using assms by (auto simp: rune_ok_def p)
    consider (ls) "p = [CHR 0xE2, CHR 0x80, CHR 0xA8]" | (ps) "p = [CHR 0xE2, CHR 0x80, CHR 0xA9]"
      | (other) "escape_rune p = p"
    proof -
      have "decode_rune p \<noteq> (rune_error, 1)" using r(1) [of "[]"] r(2) by simp
      then have "p = [CHR 0xE2, CHR 0x80, CHR 0xA8] \<or> p = [CHR 0xE2, CHR 0x80, CHR 0xA9] \<or> escape_rune p = p"
        using False by (simp add: escape_rune_def p)
      then show thesis using that by blast
    qed
    then show ?thesis
    proof cases
      case ls
      with r have "escape_rune p = backslash # ''u2028''"
        by (simp add: escape_rune_def)
      then show ?thesis using separators_read(1) [of x] scan_string_u [of "''2028'' @ x"] ls
        by (simp add: hex_value_def Let_def)
    next
      case ps
      with r have "escape_rune p = backslash # ''u2029''"
        by (simp add: escape_rune_def)
      then show ?thesis using separators_read(2) [of x] scan_string_u [of "''2029'' @ x"] ps
        by (simp add: hex_value_def Let_def)
    next
      case other
      have "unquote (p @ x) = p @ unquote x"
        using r(1) [of x] r(2) False high_plain [of c] hi p
        by (subst unquote.simps) (auto simp: not_less)
      then show ?thesis using other scan_string_high [OF hi] by simp
    qed
  qed
qed

text \<open>A marshalled string is read back.\<close>

lemma escape_read_pieces:
  "\<forall>p \<in> set ps. rune_ok p \<Longrightarrow> unquote (concat (map escape_rune ps)) = concat ps \<and>
   scan_string (concat (map escape_rune ps) @ quote # x) = Some (concat (map escape_rune ps), x)"
proof (induction ps)
  case (Cons p ps)
  then show ?case
    using escape_rune_read [of p "concat (map escape_rune ps)"]
      escape_rune_read [of p "concat (map escape_rune ps) @ quote # x"] by simp
qed (simp add: unquote.simps)

lemma escape_read:
  assumes "valid_utf8 s"
  shows "scan_string (escape s @ quote # x) = Some (escape s, x)" "unquote (escape s) = s"
  using escape_read_pieces [of "runes s" x] runes_ok [OF assms] by (simp_all add: escape_def concat_runes)

lemma escape_split:
  assumes "valid_utf8 s" "valid_utf8 t" "escape s @ quote # x = escape t @ quote # y"
  shows "s = t \<and> x = y"
proof -
  have "Some (escape s, x) = scan_string (escape s @ quote # x)"
    by (rule escape_read(1) [OF assms(1), symmetric])
  also have "\<dots> = Some (escape t, y)"
    unfolding assms(3) by (rule escape_read(1) [OF assms(2)])
  finally have "(escape s, x) = (escape t, y)" by (simp only: option.inject)
  then have "unquote (escape s) = unquote (escape t)" "x = y" by simp_all
  then show ?thesis unfolding escape_read(2) [OF assms(1)] escape_read(2) [OF assms(2)] by simp
qed

section \<open>What is marshalled can be told apart\<close>

definition elem_ok :: "elem \<Rightarrow> bool" where
  "elem_ok e = (case e of EStr s \<Rightarrow> valid_utf8 s | EInt _ \<Rightarrow> True)"

definition stops :: "bytes \<Rightarrow> bool" where
  "stops x \<longleftrightarrow> (\<exists>y. x = CHR '','' # y \<or> x = CHR '']'' # y)"

definition number_char :: "char \<Rightarrow> bool" where
  "number_char c \<longleftrightarrow> is_digit c \<or> c = CHR ''-''"

lemma itoa_chars: "\<forall>c \<in> set (itoa i). number_char c"
  by (auto simp: itoa_def number_char_def is_digit_def dest: decimal_nat_digits)

lemma itoa_split:
  assumes "itoa i @ x = itoa j @ y" "stops x" "stops y"
  shows "i = j \<and> x = y"
proof -
  have stop: "takeWhile number_char (itoa k @ z) = itoa k" if "stops z" for k z
    using that itoa_chars [of k] by (auto simp: stops_def number_char_def is_digit_def takeWhile_append2)
  have "itoa i = itoa j" using stop [OF assms(2), of i] stop [OF assms(3), of j] assms(1) by simp
  with assms(1) show ?thesis using decimal.enc_inj by auto
qed

lemma itoa_no_quote: "itoa i @ x \<noteq> quote # y"
proof
  assume h: "itoa i @ x = quote # y"
  have "itoa i \<noteq> []" by (simp add: itoa_def)
  with h have "quote \<in> set (itoa i)" by (cases "itoa i") auto
  then show False using itoa_chars [of i] by (auto simp: number_char_def is_digit_def quote_def)
qed

lemma marshal_elem_split:
  assumes "elem_ok e" "elem_ok f" "marshal_elem e @ x = marshal_elem f @ y" "stops x" "stops y"
  shows "e = f \<and> x = y"
proof (cases e; cases f)
  fix s t
  assume "e = EStr s" "f = EStr t"
  with assms show ?thesis using escape_split [of s t x y] by (simp add: elem_ok_def)
next
  fix i j
  assume "e = EInt i" "f = EInt j"
  with assms show ?thesis using itoa_split by simp
next
  fix s i
  assume "e = EStr s" "f = EInt i"
  with assms(3) show ?thesis using itoa_no_quote [of i y] by (metis append_Cons marshal_elem.simps)
next
  fix s i
  assume "e = EInt i" "f = EStr s"
  with assms(3) show ?thesis using itoa_no_quote [of i x] by (metis append_Cons marshal_elem.simps)
qed

lemma stops_tail: "stops (marshal_tail es)"
  by (cases es) (auto simp: stops_def)

lemma marshal_tail_inj:
  "list_all elem_ok es \<Longrightarrow> list_all elem_ok fs \<Longrightarrow> marshal_tail es = marshal_tail fs \<Longrightarrow> es = fs"
proof (induction es arbitrary: fs)
  case Nil
  then show ?case by (cases fs) auto
next
  case (Cons e es)
  from Cons.prems(3) obtain f fs' where fs: "fs = f # fs'" by (cases fs) simp_all
  have "e = f \<and> marshal_tail es = marshal_tail fs'"
    using Cons.prems fs by (intro marshal_elem_split) (simp_all add: stops_tail)
  with Cons fs show ?case by simp
qed

text \<open>The marshalled form of an array of valid strings and integers determines the array.\<close>

lemma marshal_array_inj:
  assumes "list_all elem_ok es" "list_all elem_ok fs" "marshal_array es = marshal_array fs"
    and "es \<noteq> []" "fs \<noteq> []"
  shows "es = fs"
proof -
  obtain e es' f fs' where "es = e # es'" "fs = f # fs'"
    using assms(4,5) by (cases es; cases fs) auto
  with assms(1-3) show ?thesis
    using marshal_tail_inj [of "e # es'" "f # fs'"] by (simp add: marshal_array_def)
qed

end
