(* ===== verification/StrictDecode.thy ===== *)
theory StrictDecode
  imports Json Identity
begin

text \<open>
  The strict decoder of the wire contract (\<open>Decode\<close> and \<open>uniqueValue\<close> of
  \<open>internal/protocol/json.go\<close>) over the token stream of \<open>json.Decoder\<close>.

  \<open>unique_value\<close> also builds the value whose tokens it reads, which the Go function discards: it
  is what the second pass, \<open>reader.Decode(target)\<close>, reads from the same bytes.  Recursion is on
  the number of levels still allowed, and the loop over the members of a container takes as fuel
  the number of bytes left, which every member lowers (\<open>unique_value_fuel\<close>).
\<close>

section \<open>The token stream of json.Decoder\<close>

datatype json =
    JNull
  | JBool bool
  | JNum bytes bytes bytes bytes  \<comment> \<open>sign, whole part, fraction with its point, exponent with its mark\<close>
  | JStr bytes
  | JArr "json list"
  | JObj "(bytes \<times> json) list"

datatype token_state = TopValue | ArrayStart | ArrayValue | ArrayComma
  | ObjectStart | ObjectKey | ObjectColon | ObjectValue | ObjectComma

record decoder =
  dec_state :: token_state
  dec_stack :: "token_state list"
  dec_rest :: bytes

datatype token = Delim char | Scalar json

datatype lex_error = EOF | Syntax

definition new_decoder :: "bytes \<Rightarrow> decoder" where
  "new_decoder data = \<lparr>dec_state = TopValue, dec_stack = [], dec_rest = data\<rparr>"

definition tokenValueAllowed :: "token_state \<Rightarrow> bool" where
  "tokenValueAllowed st \<longleftrightarrow> st = TopValue \<or> st = ArrayStart \<or> st = ArrayValue \<or> st = ObjectValue"

definition tokenValueEnd :: "token_state \<Rightarrow> token_state" where
  "tokenValueEnd st =
     (if st = ArrayStart \<or> st = ArrayValue then ArrayComma
      else if st = ObjectValue then ObjectComma else st)"

definition literal :: "bytes \<Rightarrow> json \<Rightarrow> bytes \<Rightarrow> (json \<times> bytes) option" where
  "literal word value s = (if take (length word) s = word then Some (value, drop (length word) s) else None)"

text \<open>A scalar value and the text after it; a number no float64 can hold is an error.\<close>

definition scan_scalar :: "bytes \<Rightarrow> (json \<times> bytes) option" where
  "scan_scalar s = (case s of
     [] \<Rightarrow> None
   | c # t \<Rightarrow>
       if c = quote then map_option (\<lambda>(raw, r). (JStr (unquote raw), r)) (scan_string t)
       else if c = CHR ''t'' then literal ''true'' (JBool True) s
       else if c = CHR ''f'' then literal ''false'' (JBool False) s
       else if c = CHR ''n'' then literal ''null'' JNull s
       else case scan_number s of
         None \<Rightarrow> None
       | Some ((sign, whole, frac, ex), r) \<Rightarrow>
           if float_overflow whole frac ex then None else Some (JNum sign whole frac ex, r))"

fun close_container :: "decoder \<Rightarrow> char \<Rightarrow> bytes \<Rightarrow> lex_error + token \<times> decoder" where
  "close_container dec c t = (case dec_stack dec of
     [] \<Rightarrow> Inl Syntax
   | st # stack \<Rightarrow> Inr (Delim c, \<lparr>dec_state = tokenValueEnd st, dec_stack = stack, dec_rest = t\<rparr>))"

lemma skip_space_shrinks: "skip_space s = c # t \<Longrightarrow> length t < length s"
  using length_dropWhile_le [of json_space s] by (simp add: skip_space_def)

text \<open>\<open>Token\<close>: colons and commas are skipped where the state expects them.\<close>

function Token :: "decoder \<Rightarrow> lex_error + token \<times> decoder" where
  "Token dec = (case skip_space (dec_rest dec) of
     [] \<Rightarrow> Inl EOF
   | c # t \<Rightarrow>
       if c = CHR ''['' then
         if tokenValueAllowed (dec_state dec)
         then Inr (Delim c, \<lparr>dec_state = ArrayStart, dec_stack = dec_state dec # dec_stack dec, dec_rest = t\<rparr>)
         else Inl Syntax
       else if c = CHR '']'' then
         if dec_state dec = ArrayStart \<or> dec_state dec = ArrayComma then close_container dec c t else Inl Syntax
       else if c = CHR ''{'' then
         if tokenValueAllowed (dec_state dec)
         then Inr (Delim c, \<lparr>dec_state = ObjectStart, dec_stack = dec_state dec # dec_stack dec, dec_rest = t\<rparr>)
         else Inl Syntax
       else if c = CHR ''}'' then
         if dec_state dec = ObjectStart \<or> dec_state dec = ObjectComma then close_container dec c t else Inl Syntax
       else if c = CHR '':'' then
         if dec_state dec = ObjectColon then Token (dec\<lparr>dec_state := ObjectValue, dec_rest := t\<rparr>) else Inl Syntax
       else if c = CHR '','' then
         if dec_state dec = ArrayComma then Token (dec\<lparr>dec_state := ArrayValue, dec_rest := t\<rparr>)
         else if dec_state dec = ObjectComma then Token (dec\<lparr>dec_state := ObjectKey, dec_rest := t\<rparr>)
         else Inl Syntax
       else if c = quote \<and> (dec_state dec = ObjectStart \<or> dec_state dec = ObjectKey) then
         (case scan_string t of
            None \<Rightarrow> Inl Syntax
          | Some (raw, r) \<Rightarrow> Inr (Scalar (JStr (unquote raw)), dec\<lparr>dec_state := ObjectColon, dec_rest := r\<rparr>))
       else if tokenValueAllowed (dec_state dec) then
         (case scan_scalar (c # t) of
            None \<Rightarrow> Inl Syntax
          | Some (value, r) \<Rightarrow>
              Inr (Scalar value, dec\<lparr>dec_state := tokenValueEnd (dec_state dec), dec_rest := r\<rparr>))
       else Inl Syntax)"
  by pat_completeness auto

termination Token
  by (relation "measure (\<lambda>dec. length (dec_rest dec))") (simp_all add: skip_space_shrinks)

declare Token.simps [simp del]

definition More :: "decoder \<Rightarrow> bool" where
  "More dec = (case skip_space (dec_rest dec) of [] \<Rightarrow> False | c # _ \<Rightarrow> c \<noteq> CHR '']'' \<and> c \<noteq> CHR ''}'')"

section \<open>uniqueValue\<close>

text \<open>An error of the program, the error of the last \<open>Token\<close> call passed on as it is, or the fuel
  of the model running out, which does not happen.\<close>

datatype decode_error = Code string | Raw | No_fuel

type_synonym 'a decoding = "decode_error + 'a \<times> decoder"

text \<open>The members of a container whose opening token was \<open>delim\<close>; \<open>keys\<close> are those already seen.\<close>

primrec members ::
  "(decoder \<Rightarrow> json decoding) \<Rightarrow> char \<Rightarrow> nat \<Rightarrow> (bytes \<times> json) list \<Rightarrow> decoder \<Rightarrow> (bytes \<times> json) list decoding"
where
  "members value delim 0 seen dec = Inl No_fuel"
| "members value delim (Suc fuel) seen dec =
     (if \<not> More dec then
        (case Token dec of Inl _ \<Rightarrow> Inl Raw | Inr (_, dec1) \<Rightarrow> Inr (seen, dec1))
      else if delim = CHR ''{'' then
        (case Token dec of
           Inl _ \<Rightarrow> Inl (Code ''p2p.invalid_json'')
         | Inr (Scalar (JStr name), dec1) \<Rightarrow>
             (if List.member (map fst seen) name then Inl (Code ''p2p.duplicate_field'')
              else case value dec1 of
                Inl e \<Rightarrow> Inl e
              | Inr (v, dec2) \<Rightarrow> members value delim fuel (seen @ [(name, v)]) dec2)
         | Inr _ \<Rightarrow> Inl (Code ''p2p.duplicate_field''))
      else
        (case value dec of
           Inl e \<Rightarrow> Inl e
         | Inr (v, dec1) \<Rightarrow> members value delim fuel (seen @ [([], v)]) dec1))"

primrec unique_value :: "nat \<Rightarrow> decoder \<Rightarrow> json decoding" where
  "unique_value 0 dec = Inl (Code ''p2p.protocol_limit'')"
| "unique_value (Suc levels) dec =
     (case Token dec of
        Inl _ \<Rightarrow> Inl (Code ''p2p.invalid_json'')
      | Inr (Scalar v, dec1) \<Rightarrow> if v = JNull then Inl (Code ''p2p.null_field'') else Inr (v, dec1)
      | Inr (Delim c, dec1) \<Rightarrow>
          (case members (unique_value levels) c (Suc (length (dec_rest dec1))) [] dec1 of
             Inl e \<Rightarrow> Inl e
           | Inr (ms, dec2) \<Rightarrow> Inr (if c = CHR ''{'' then JObj ms else JArr (map snd ms), dec2)))"

text \<open>\<open>uniqueValue(reader, 0)\<close>: depths 0 to 12 are allowed.\<close>

definition uniqueValue :: "decoder \<Rightarrow> json decoding" where
  "uniqueValue = unique_value 13"

section \<open>Decoding into a struct\<close>

datatype kind = KString | KInt nat | KUint nat | KBytes

datatype field = FString bytes | FInt int | FBytes bytes

definition json_int :: "json \<Rightarrow> int option" where
  "json_int v = (case v of
     JNum sign whole frac ex \<Rightarrow>
       if frac = [] \<and> ex = [] then Some ((if sign = [] then 1 else -1) * int (digits_value whole)) else None
   | _ \<Rightarrow> None)"

text \<open>Padded standard base64, what a \<open>[]byte\<close> field is decoded from.\<close>

definition std_value :: "char \<Rightarrow> nat option" where
  "std_value c =
     (if c = CHR ''-'' \<or> c = CHR ''_'' then None
      else if c = CHR ''+'' then Some 62
      else if c = CHR ''/'' then Some 63
      else b64_value c)"

definition std_decode :: "bytes \<Rightarrow> bytes option" where
  "std_decode s =
     (let t = filter (\<lambda>c. c \<noteq> CHR 0x0D \<and> c \<noteq> CHR 0x0A) s;
          body = takeWhile (\<lambda>c. c \<noteq> CHR ''='') t;
          pad = dropWhile (\<lambda>c. c \<noteq> CHR ''='') t in
      if length t mod 4 \<noteq> 0 \<or> 2 < length pad \<or> \<not> list_all (\<lambda>c. c = CHR ''='') pad
         \<or> list_ex (\<lambda>c. std_value c = None) body then None
      else b64_groups (map (\<lambda>c. the (std_value c)) body))"

definition json_byte :: "json \<Rightarrow> char option" where
  "json_byte v = (case v of
     JNum sign _ _ _ \<Rightarrow>
       (case json_int v of
          None \<Rightarrow> None
        | Some i \<Rightarrow> if sign = [] \<and> i < 256 then Some (char_of (nat i)) else None)
   | _ \<Rightarrow> None)"

fun decode_field :: "kind \<Rightarrow> json \<Rightarrow> field option" where
  "decode_field KString v = (case v of JStr s \<Rightarrow> Some (FString s) | _ \<Rightarrow> None)"
| "decode_field (KInt w) v = (case json_int v of
     None \<Rightarrow> None
   | Some i \<Rightarrow> if - (2 ^ (w - 1)) \<le> i \<and> i < 2 ^ (w - 1) then Some (FInt i) else None)"
| "decode_field (KUint w) v = (case v of
     JNum sign _ _ _ \<Rightarrow>
       (case json_int v of
          None \<Rightarrow> None
        | Some i \<Rightarrow> if sign = [] \<and> i < 2 ^ w then Some (FInt i) else None)
   | _ \<Rightarrow> None)"
| "decode_field KBytes v = (case v of
     JStr s \<Rightarrow> map_option FBytes (std_decode s)
   | JArr vs \<Rightarrow> if list_all (\<lambda>x. json_byte x \<noteq> None) vs then Some (FBytes (map (\<lambda>x. the (json_byte x)) vs)) else None
   | _ \<Rightarrow> None)"

text \<open>Field names match exactly or, failing that, under \<open>foldName\<close>: upper case, the long s and the
  Kelvin sign being an S and a K.\<close>

definition upper :: "char \<Rightarrow> char" where
  "upper c = (if 97 \<le> byte_of c \<and> byte_of c \<le> 122 then char_of (byte_of c - 32) else c)"

definition fold_piece :: "bytes \<Rightarrow> bytes" where
  "fold_piece p =
     (if p = [CHR 0xC5, CHR 0xBF] then ''S''
      else if p = [CHR 0xE2, CHR 0x84, CHR 0xAA] then ''K''
      else map upper p)"

definition foldName :: "bytes \<Rightarrow> bytes" where
  "foldName s = concat (map fold_piece (runes s))"

type_synonym schema = "(bytes \<times> kind) list"

definition find_field :: "schema \<Rightarrow> bytes \<Rightarrow> (bytes \<times> kind) option" where
  "find_field fs name =
     (case find (\<lambda>f. fst f = name) fs of
        Some f \<Rightarrow> Some f
      | None \<Rightarrow> find (\<lambda>f. foldName (fst f) = foldName name) fs)"

text \<open>\<open>reader.Decode(target)\<close> with \<open>DisallowUnknownFields\<close>: later members overwrite earlier ones.\<close>

fun decode_members :: "schema \<Rightarrow> (bytes \<times> json) list \<Rightarrow> (bytes \<rightharpoonup> field) \<Rightarrow> (bytes \<rightharpoonup> field) option" where
  "decode_members fs [] target = Some target"
| "decode_members fs ((name, v) # ms) target =
     (case find_field fs name of
        None \<Rightarrow> None
      | Some (tag, kind) \<Rightarrow>
          (case decode_field kind v of
             None \<Rightarrow> None
           | Some x \<Rightarrow> decode_members fs ms (target(tag \<mapsto> x))))"

definition decode_struct :: "schema \<Rightarrow> json \<Rightarrow> (bytes \<rightharpoonup> field) option" where
  "decode_struct fs v = (case v of JObj ms \<Rightarrow> decode_members fs ms Map.empty | _ \<Rightarrow> None)"

definition MaxControlBytes :: nat where
  "MaxControlBytes = 64 * 1024"

definition over_limit :: "bytes \<Rightarrow> bool" where
  "over_limit data \<longleftrightarrow> MaxControlBytes < length data"

lemma over_limit_code [code]: "over_limit data \<longleftrightarrow> 65536 < int (length data)"
  by (simp add: over_limit_def MaxControlBytes_def)

definition decode_err :: "decode_error \<Rightarrow> err" where
  "decode_err e = (case e of Code c \<Rightarrow> P2p c | _ \<Rightarrow> Lib_error)"

definition Decode :: "schema \<Rightarrow> bytes \<Rightarrow> err + (bytes \<rightharpoonup> field)" where
  "Decode fs data =
     (if data = [] \<or> over_limit data then Inl (P2p ''p2p.protocol_limit'')
      else case uniqueValue (new_decoder data) of
        Inl e \<Rightarrow> Inl (decode_err e)
      | Inr (v, dec) \<Rightarrow>
          (if Token dec \<noteq> Inl EOF then Inl (P2p ''p2p.invalid_json'')
           else case decode_struct fs v of
             None \<Rightarrow> Inl (P2p ''p2p.invalid_fields'')
           | Some target \<Rightarrow>
               (case v of
                  JObj ms \<Rightarrow>
                    if list_all (\<lambda>f. List.member (map fst ms) (fst f)) fs then Inr target
                    else Inl (P2p ''p2p.missing_field'')
                | _ \<Rightarrow> Inl (P2p ''p2p.invalid_fields''))))"

section \<open>The decoder makes progress\<close>

lemma option_map_Some: "map_option f x = Some y \<longleftrightarrow> (\<exists>z. x = Some z \<and> y = f z)"
  by (cases x) auto

lemma scan_string_shrinks: "scan_string s = Some (raw, r) \<Longrightarrow> length r < length s"
proof (induction s arbitrary: raw r rule: scan_string.induct)
  case (1 s)
  show ?case
  proof (cases s)
    case Nil
    with "1.prems" show ?thesis by (simp add: scan_string.simps)
  next
    case (Cons c t)
    consider "c = quote" | "c \<noteq> quote" "c = backslash" | "c \<noteq> quote" "c \<noteq> backslash" by blast
    then show ?thesis
    proof cases
      case 1
      with "1.prems" Cons show ?thesis by (simp add: scan_string.simps [of s])
    next
      case 2
      then obtain e u where t: "t = e # u"
        using "1.prems" Cons by (cases t) (simp_all add: scan_string.simps [of "backslash # _"])
      consider "simple_escape e \<noteq> None" | "simple_escape e = None" "e = CHR ''u''" "hex4 u \<noteq> None"
        using "1.prems" Cons t 2 by (subst (asm) scan_string.simps) (auto split: if_splits)
      then show ?thesis
      proof cases
        case 1
        then obtain x where "scan_string u = Some (x, r)"
          using "1.prems" Cons t 2 by (subst (asm) scan_string.simps) (auto simp: option_map_Some)
        from "1.IH"(1) [OF Cons 2(1) 2(2) t 1 this] show ?thesis using Cons t by simp
      next
        case hex: 2
        then obtain x where "scan_string (drop 4 u) = Some (x, r)"
          using "1.prems" Cons t 2 hex by (subst (asm) scan_string.simps) (auto simp: option_map_Some)
        from "1.IH"(2) [OF Cons 2(1) 2(2) t _ _ this] hex show ?thesis using Cons t by simp
      qed
    next
      case 3
      then obtain x where "scan_string t = Some (x, r)" "\<not> byte_of c < 0x20"
        using "1.prems" Cons 3 by (subst (asm) scan_string.simps) (auto simp: option_map_Some split: if_splits)
      with "1.IH"(3) [OF Cons 3 _ this(1)] show ?thesis using Cons by simp
    qed
  qed
qed

lemma scan_number_shrinks: "scan_number s = Some (p, r) \<Longrightarrow> length r < length s"
proof -
  have i: "scan_int s = Some (w, r) \<Longrightarrow> length r < length s" for s w r
    by (auto simp: scan_int_def le_imp_less_Suc length_dropWhile_le split: list.splits if_splits)
  have f: "scan_frac s = Some (w, r) \<Longrightarrow> length r \<le> length s" for s w r
    by (auto simp: scan_frac_def le_SucI length_dropWhile_le split: list.splits if_splits)
  have e: "scan_exp s = Some (w, r) \<Longrightarrow> length r \<le> length s" for s w r
  proof (cases s)
    case (Cons c t)
    have "length (dropWhile is_digit u) \<le> Suc (length t)" if "u = drop n t" for u n
      using length_dropWhile_le [of is_digit u] that by simp
    then show "scan_exp s = Some (w, r) \<Longrightarrow> length r \<le> length s"
      using Cons by (auto simp: scan_exp_def Let_def split: if_splits)
  qed (simp add: scan_exp_def)
  have s: "scan_sign s = (w, r) \<Longrightarrow> length r \<le> length s" for s w r
    by (auto simp: scan_sign_def split: list.splits if_splits)
  show "scan_number s = Some (p, r) \<Longrightarrow> length r < length s"
    by (auto simp: scan_number_def split: prod.splits option.splits dest!: i f e s)
qed

lemma scan_scalar_shrinks: "scan_scalar s = Some (v, r) \<Longrightarrow> length r < length s"
  by (auto simp: scan_scalar_def literal_def split: list.splits if_splits option.splits prod.splits
      dest!: scan_string_shrinks scan_number_shrinks simp: option_map_Some)

lemma Token_shrinks: "Token dec = Inr (tok, dec') \<Longrightarrow> length (dec_rest dec') < length (dec_rest dec)"
proof (induction dec rule: Token.induct)
  case (1 dec)
  obtain c t where s: "skip_space (dec_rest dec) = c # t"
    using "1.prems" by (cases "skip_space (dec_rest dec)") (simp_all add: Token.simps [of dec])
  note lt = skip_space_shrinks [OF s]
  have rec: "length (dec_rest dec') < length (dec_rest dec)"
    if "Token (dec\<lparr>dec_state := st, dec_rest := t\<rparr>) = Inr (tok, dec')
      \<Longrightarrow> length (dec_rest dec') < length t" "Token (dec\<lparr>dec_state := st, dec_rest := t\<rparr>) = Inr (tok, dec')" for st
    using that lt by simp
  show ?case
    using "1.prems" s lt "1.IH" rec
    by (subst (asm) Token.simps)
      (auto split: if_splits list.splits option.splits prod.splits dest!: scan_string_shrinks scan_scalar_shrinks)
qed

section \<open>The fuel is enough\<close>

text \<open>What one reading of a value promises its caller.\<close>

definition good_reader :: "(decoder \<Rightarrow> json decoding) \<Rightarrow> bool" where
  "good_reader value \<longleftrightarrow> (\<forall>dec. value dec \<noteq> Inl No_fuel) \<and>
     (\<forall>dec v dec'. value dec = Inr (v, dec') \<longrightarrow> length (dec_rest dec') < length (dec_rest dec))"

lemma good_readerD:
  "good_reader value \<Longrightarrow> value dec \<noteq> Inl No_fuel"
  "good_reader value \<Longrightarrow> value dec = Inr (v, dec') \<Longrightarrow> length (dec_rest dec') < length (dec_rest dec)"
  by (simp_all add: good_reader_def)

text \<open>One round of the loop over the members: its end, an element of an array, a member of an object.\<close>

lemma member_name:
  assumes "More dec"
  obtains (name) name dec1 where "Token dec = Inr (Scalar (JStr name), dec1)" "name \<notin> fst ` set seen"
  | (bad) c where "members value CHR ''{'' (Suc fuel) seen dec = Inl (Code c)"
proof (cases "\<exists>name dec1. Token dec = Inr (Scalar (JStr name), dec1) \<and> name \<notin> fst ` set seen")
  case False
  then have "\<exists>c. members value CHR ''{'' (Suc fuel) seen dec = Inl (Code c)"
    using assms by (auto split: sum.splits prod.splits token.splits json.splits)
  then show thesis using bad by blast
qed (use name in blast)

lemma members_step:
  assumes good: "good_reader value"
  obtains (stop) tok dec1 where "Token dec = Inr (tok, dec1)" "members value delim (Suc fuel) seen dec = Inr (seen, dec1)"
  | (error) e where "members value delim (Suc fuel) seen dec = Inl e" "e \<noteq> No_fuel"
  | (more) name v dec1 dec2 where "value dec1 = Inr (v, dec2)"
      "members value delim (Suc fuel) seen dec = members value delim fuel (seen @ [(name, v)]) dec2"
      "length (dec_rest dec2) < length (dec_rest dec)" "delim = CHR ''{'' \<Longrightarrow> name \<notin> fst ` set seen"
proof -
  consider "\<not> More dec" | "More dec" "delim \<noteq> CHR ''{''" | "More dec" "delim = CHR ''{''" by blast
  then show ?thesis
  proof cases
    case 1
    then show ?thesis by (cases "Token dec") (auto intro: stop error [of Raw])
  next
    case 2
    show ?thesis
    proof (cases "value dec")
      case (Inl e)
      with 2 good_readerD(1) [OF good, of dec] show ?thesis by (intro error [of e]) auto
    next
      case (Inr p)
      then obtain v dec1 where v: "value dec = Inr (v, dec1)" by (cases p) simp
      show ?thesis by (rule more [OF v, of "[]"]) (use v 2 good_readerD(2) [OF good v] in simp_all)
    qed
  next
    case 3
    show ?thesis
    proof (rule member_name [OF 3(1), of seen _ "value" fuel])
      fix name dec1 assume name: "Token dec = Inr (Scalar (JStr name), dec1)" "name \<notin> fst ` set seen"
      show ?thesis
      proof (cases "value dec1")
        case (Inl e)
        with 3 name good_readerD(1) [OF good, of dec1] show ?thesis by (intro error [of e]) auto
      next
        case (Inr p)
        then obtain v dec2 where v: "value dec1 = Inr (v, dec2)" by (cases p) simp
        show ?thesis
          by (rule more [OF v, of name])
            (use v 3 name good_readerD(2) [OF good v] Token_shrinks [OF name(1)] in simp_all)
      qed
    qed (use 3(2) error in blast)
  qed
qed

lemma members_fuel:
  assumes "good_reader value"
  shows "length (dec_rest dec) < fuel \<Longrightarrow> members value delim fuel seen dec \<noteq> Inl No_fuel"
proof (induction fuel arbitrary: seen dec)
  case (Suc fuel)
  show ?case
    by (rule members_step [OF assms, of dec delim fuel seen]) (use Suc in \<open>simp_all del: members.simps\<close>)
qed simp

lemma members_shrinks:
  assumes "good_reader value"
  shows "members value delim fuel seen dec = Inr (ms, dec') \<Longrightarrow> length (dec_rest dec') < length (dec_rest dec)"
proof (induction fuel arbitrary: seen dec)
  case (Suc fuel)
  show ?case
  proof (rule members_step [OF assms, of dec delim fuel seen])
    fix tok dec1
    assume "Token dec = Inr (tok, dec1)" "members value delim (Suc fuel) seen dec = Inr (seen, dec1)"
    then show ?case using Suc.prems Token_shrinks by (simp del: members.simps)
  qed (use Suc in \<open>fastforce simp del: members.simps\<close>)+
qed simp

text \<open>Reading a value either fails with an error of the program, or reads a scalar or a container.\<close>

lemma unique_value_cases:
  assumes "unique_value (Suc levels) dec = R"
  obtains (error) e where "R = Inl e" "e \<noteq> No_fuel"
  | (scalar) v dec1 where "Token dec = Inr (Scalar v, dec1)" "R = Inr (v, dec1)" "v \<noteq> JNull"
  | (inner) c dec1 e where "Token dec = Inr (Delim c, dec1)" "R = Inl e"
      "members (unique_value levels) c (Suc (length (dec_rest dec1))) [] dec1 = Inl e"
  | (container) c dec1 ms dec2 where "Token dec = Inr (Delim c, dec1)"
      "members (unique_value levels) c (Suc (length (dec_rest dec1))) [] dec1 = Inr (ms, dec2)"
      "R = Inr (if c = CHR ''{'' then JObj ms else JArr (map snd ms), dec2)"
  using assms by (cases "Token dec")
    (auto split: token.splits sum.splits prod.splits if_splits simp del: members.simps)

lemma good_unique_value: "good_reader (unique_value levels)"
proof (induction levels)
  case (Suc levels)
  show ?case
    unfolding good_reader_def
  proof (intro conjI allI impI)
    fix dec
    show "unique_value (Suc levels) dec \<noteq> Inl No_fuel"
      by (rule unique_value_cases [OF refl, of levels dec])
        (use members_fuel [OF Suc] in \<open>force simp del: members.simps unique_value.simps\<close>)+
    fix v dec'
    assume v: "unique_value (Suc levels) dec = Inr (v, dec')"
    show "length (dec_rest dec') < length (dec_rest dec)"
    proof (rule unique_value_cases [OF v])
      fix w dec1
      assume "Token dec = Inr (Scalar w, dec1)" "Inr (v, dec') = (Inr (w, dec1) :: json decoding)"
      then show ?thesis using Token_shrinks by simp
    next
      fix c dec1 ms dec2
      assume "Token dec = Inr (Delim c, dec1)"
        "members (unique_value levels) c (Suc (length (dec_rest dec1))) [] dec1 = Inr (ms, dec2)"
        "Inr (v, dec') = (Inr (if c = CHR ''{'' then JObj ms else JArr (map snd ms), dec2) :: json decoding)"
      then show ?thesis using Token_shrinks members_shrinks [OF Suc]
        by (metis Pair_inject order.strict_trans sum.inject(2))
    qed simp_all
  qed
qed (simp add: good_reader_def)

lemma uniqueValue_total: "uniqueValue dec \<noteq> Inl No_fuel"
  using good_readerD(1) [OF good_unique_value] by (simp add: uniqueValue_def)

section \<open>What is accepted\<close>

fun height :: "json \<Rightarrow> nat" where
  "height (JArr vs) = foldr (\<lambda>v. max (Suc (height v))) vs 0"
| "height (JObj ms) = foldr (\<lambda>m. max (Suc (height (snd m)))) ms 0"
| "height _ = 0"

text \<open>No null and no object with a repeated name, at any depth.\<close>

fun strict :: "json \<Rightarrow> bool" where
  "strict JNull = False"
| "strict (JArr vs) = (\<forall>v \<in> set vs. strict v)"
| "strict (JObj ms) = (distinct (map fst ms) \<and> (\<forall>m \<in> set ms. strict (snd m)))"
| "strict _ = True"

fun flat :: "json \<Rightarrow> bool" where
  "flat (JArr _) = False"
| "flat (JObj _) = False"
| "flat _ = True"

lemma scan_scalar_flat: "scan_scalar s = Some (v, r) \<Longrightarrow> flat v"
  by (auto simp: scan_scalar_def literal_def option_map_Some split: list.splits if_splits option.splits prod.splits)

lemma Token_flat: "Token dec = Inr (tok, dec') \<Longrightarrow> (\<And>v. tok = Scalar v \<Longrightarrow> flat v)"
proof (induction dec rule: Token.induct)
  case (1 dec)
  obtain c t where s: "skip_space (dec_rest dec) = c # t"
    using "1.prems" by (cases "skip_space (dec_rest dec)") (simp_all add: Token.simps [of dec])
  consider (colon) "c = CHR '':''" | (comma) "c = CHR '',''"
    | (brack) "c = CHR ''['' \<or> c = CHR '']'' \<or> c = CHR ''{'' \<or> c = CHR ''}''"
    | (other) "c \<noteq> CHR '':''" "c \<noteq> CHR '',''" "c \<noteq> CHR ''[''" "c \<noteq> CHR '']''" "c \<noteq> CHR ''{''" "c \<noteq> CHR ''}''"
    by blast
  then show ?case
  proof cases
    case colon
    with "1.prems"(1) s have "Token (dec\<lparr>dec_state := ObjectValue, dec_rest := t\<rparr>) = Inr (tok, dec')"
        "dec_state dec = ObjectColon"
      by (subst (asm) Token.simps, simp split: if_splits)+
    with "1.IH"(1) [OF s] colon "1.prems"(2) show ?thesis by simp
  next
    case comma
    with "1.prems"(1) s consider "dec_state dec = ArrayComma" "Token (dec\<lparr>dec_state := ArrayValue, dec_rest := t\<rparr>) = Inr (tok, dec')"
      | "dec_state dec \<noteq> ArrayComma" "dec_state dec = ObjectComma" "Token (dec\<lparr>dec_state := ObjectKey, dec_rest := t\<rparr>) = Inr (tok, dec')"
      by (subst (asm) Token.simps) (simp split: if_splits)
    then show ?thesis
    proof cases
      case 1
      with "1.IH"(2) [OF s] comma "1.prems"(2) show ?thesis by simp
    next
      case 2
      with "1.IH"(3) [OF s] comma "1.prems"(2) show ?thesis by simp
    qed
  next
    case brack
    then show ?thesis using "1.prems" by (auto simp: Token.simps [of dec] s split: if_splits list.splits)
  next
    case other
    then show ?thesis using "1.prems"
      by (auto simp: Token.simps [of dec] s split: if_splits option.splits prod.splits dest: scan_scalar_flat)
  qed
qed

lemma Token_scalar: "Token dec = Inr (Scalar v, dec') \<Longrightarrow> height v = 0 \<and> (v \<noteq> JNull \<longrightarrow> strict v)"
  using Token_flat [of dec "Scalar v" dec' v] by (cases v) simp_all

text \<open>What a reader of the members may rely on, and what it then returns.\<close>

definition accepts :: "(json \<Rightarrow> bool) \<Rightarrow> (decoder \<Rightarrow> json decoding) \<Rightarrow> bool" where
  "accepts P value \<longleftrightarrow> (\<forall>dec v dec'. value dec = Inr (v, dec') \<longrightarrow> P v)"

lemma members_accepts:
  assumes "good_reader value" "accepts P value"
  shows "members value delim fuel seen dec = Inr (ms, dec') \<Longrightarrow> \<forall>m \<in> set seen. P (snd m) \<Longrightarrow>
    (delim = CHR ''{'' \<Longrightarrow> distinct (map fst seen)) \<Longrightarrow>
    (\<forall>m \<in> set ms. P (snd m)) \<and> (delim = CHR ''{'' \<longrightarrow> distinct (map fst ms))"
proof (induction fuel arbitrary: seen dec)
  case (Suc fuel)
  show ?case
  proof (rule members_step [OF assms(1), of dec delim fuel seen])
    fix name v dec1 dec2
    assume v: "value dec1 = Inr (v, dec2)"
      and eq: "members value delim (Suc fuel) seen dec = members value delim fuel (seen @ [(name, v)]) dec2"
      and "delim = CHR ''{'' \<Longrightarrow> name \<notin> fst ` set seen"
    moreover have "P v" using assms(2) v by (auto simp: accepts_def)
    ultimately show ?case
      using Suc.prems by (intro Suc.IH [of "seen @ [(name, v)]" dec2]) (auto simp del: members.simps)
  qed (use Suc.prems in \<open>simp_all del: members.simps\<close>)
qed simp

lemma foldr_max_le: "(\<forall>x \<in> set xs. f x \<le> n) \<Longrightarrow> foldr (\<lambda>x. max (f x)) xs 0 \<le> (n :: nat)"
  by (induction xs) auto

lemma unique_value_accepts:
  "accepts (\<lambda>v. strict v \<and> height v < levels) (unique_value levels)"
proof (induction levels)
  case (Suc levels)
  show ?case
    unfolding accepts_def
  proof (intro allI impI)
    fix dec v dec'
    assume v: "unique_value (Suc levels) dec = Inr (v, dec')"
    show "strict v \<and> height v < Suc levels"
    proof (rule unique_value_cases [OF v])
      fix w dec1
      assume "Token dec = Inr (Scalar w, dec1)" "Inr (v, dec') = (Inr (w, dec1) :: json decoding)" "w \<noteq> JNull"
      then show ?thesis using Token_scalar [of dec w dec1] by simp
    next
      fix c dec1 ms dec2
      assume ms: "members (unique_value levels) c (Suc (length (dec_rest dec1))) [] dec1 = Inr (ms, dec2)"
        and eq: "Inr (v, dec') = (Inr (if c = CHR ''{'' then JObj ms else JArr (map snd ms), dec2) :: json decoding)"
      from members_accepts [OF good_unique_value Suc ms]
      have ok: "\<forall>m \<in> set ms. strict (snd m) \<and> Suc (height (snd m)) \<le> levels"
        and dist: "c = CHR ''{'' \<Longrightarrow> distinct (map fst ms)"
        by (auto simp: less_eq_Suc_le)
      show ?thesis
      proof (cases "c = CHR ''{''")
        case True
        with eq have "v = JObj ms" by simp
        with ok dist True show ?thesis
          using foldr_max_le [of ms "\<lambda>m. Suc (height (snd m))" levels] by (simp add: less_Suc_eq_le)
      next
        case False
        with eq have "v = JArr (map snd ms)" by simp
        with ok show ?thesis
          using foldr_max_le [of "map snd ms" "\<lambda>m. Suc (height m)" levels] by (auto simp: less_Suc_eq_le)
      qed
    qed simp_all
  qed
qed (simp add: accepts_def)

lemma decode_members_keeps:
  "decode_members fs ms target = Some m \<Longrightarrow> tag \<in> dom target \<Longrightarrow> tag \<in> dom m"
proof (induction ms arbitrary: target)
  case (Cons nv ms)
  obtain name v where nv: "nv = (name, v)" by fastforce
  obtain t x where "decode_members fs ms (target(t \<mapsto> x)) = Some m"
    using Cons.prems(1) by (auto simp: nv split: option.splits)
  from Cons.IH [OF this] Cons.prems(2) show ?case by (cases "tag = t") (simp_all add: dom_def)
qed simp

lemma find_field_exact:
  "distinct (map fst fs) \<Longrightarrow> (tag, k) \<in> set fs \<Longrightarrow> find_field fs tag = Some (tag, k)"
proof -
  assume d: "distinct (map fst fs)" and f: "(tag, k) \<in> set fs"
  from f obtain g where g: "find (\<lambda>f. fst f = tag) fs = Some g"
    by (cases "find (\<lambda>f. fst f = tag) fs") (auto simp: find_None_iff)
  then have "g \<in> set fs" "fst g = tag" by (auto simp: find_Some_iff)
  with d f have "g = (tag, k)" by (cases g) (auto dest: eq_key_imp_eq_value)
  with g show ?thesis by (simp add: find_field_def)
qed

lemma find_field_in: "find_field fs name = Some f \<Longrightarrow> f \<in> set fs"
  by (auto simp: find_field_def find_Some_iff split: option.splits)

text \<open>The values a field of each kind can hold.\<close>

fun fits :: "kind \<Rightarrow> field \<Rightarrow> bool" where
  "fits KString (FString _) = True"
| "fits (KInt w) (FInt i) = (- (2 ^ (w - 1)) \<le> i \<and> i < 2 ^ (w - 1))"
| "fits (KUint w) (FInt i) = (0 \<le> i \<and> i < 2 ^ w)"
| "fits KBytes (FBytes _) = True"
| "fits _ _ = False"

lemma decode_field_fits: "decode_field k v = Some x \<Longrightarrow> fits k x"
  by (cases k; cases v) (auto simp: json_int_def split: if_splits option.splits)

lemma decode_members_fits:
  assumes "distinct (map fst fs)"
  shows "decode_members fs ms target = Some m \<Longrightarrow>
    (\<forall>tag x k. target tag = Some x \<longrightarrow> (tag, k) \<in> set fs \<longrightarrow> fits k x) \<Longrightarrow>
    (\<forall>tag x k. m tag = Some x \<longrightarrow> (tag, k) \<in> set fs \<longrightarrow> fits k x)"
proof (induction ms arbitrary: target)
  case (Cons nv ms)
  obtain name v where nv: "nv = (name, v)" by fastforce
  obtain tag k x where f: "find_field fs name = Some (tag, k)" "decode_field k v = Some x"
    and rest: "decode_members fs ms (target(tag \<mapsto> x)) = Some m"
    using Cons.prems(1) by (auto simp: nv split: option.splits)
  have "(tag, k) \<in> set fs" using find_field_in [OF f(1)] .
  then have "k' = k" if "(tag, k') \<in> set fs" for k' using assms that by (auto dest: eq_key_imp_eq_value)
  with Cons.prems(2) decode_field_fits [OF f(2)]
  have "\<forall>t y k. (target(tag \<mapsto> x)) t = Some y \<longrightarrow> (t, k) \<in> set fs \<longrightarrow> fits k y" by auto
  then show ?case by (rule Cons.IH [OF rest])
qed simp

lemma decode_members_fills:
  assumes "distinct (map fst fs)" "(tag, k) \<in> set fs"
  shows "decode_members fs ms target = Some m \<Longrightarrow> tag \<in> fst ` set ms \<Longrightarrow> tag \<in> dom m"
proof (induction ms arbitrary: target)
  case (Cons nv ms)
  obtain name v where nv: "nv = (name, v)" by fastforce
  obtain t k' x where f: "find_field fs name = Some (t, k')"
    and rest: "decode_members fs ms (target(t \<mapsto> x)) = Some m"
    using Cons.prems(1) by (auto simp: nv split: option.splits)
  show ?case
  proof (cases "name = tag")
    case True
    then have "t = tag" using f find_field_exact [OF assms] by simp
    then show ?thesis using decode_members_keeps [OF rest] by simp
  next
    case False
    then show ?thesis using Cons.IH [OF rest] Cons.prems(2) nv by auto
  qed
qed simp

text \<open>What \<open>Decode\<close> accepts.\<close>

lemma DecodeE:
  assumes "Decode fs data = Inr m"
  obtains ms dec where "uniqueValue (new_decoder data) = Inr (JObj ms, dec)" "Token dec = Inl EOF"
    "length data \<le> MaxControlBytes" "decode_members fs ms Map.empty = Some m"
    "fst ` set fs \<subseteq> fst ` set ms"
  using assms
  by (auto simp: Decode_def over_limit_def decode_struct_def list_all_iff split: if_splits sum.splits prod.splits option.splits json.splits)

end
