(* ===== verification/Wire.thy ===== *)
theory Wire
  imports StrictDecode
begin

text \<open>
  The signed messages of the peer wire contract: signals, leases and frames
  (\<open>internal/protocol/signal.go\<close> from line 58, \<open>lease.go\<close> and \<open>frame.go\<close>).  A \<open>uint64\<close> is a natural
  number: the decoder only lets values below \<open>2 ^ 64\<close> through and no operation here adds to one
  beyond \<open>2 ^ 53\<close>.  A check returns \<open>Inr ()\<close> for Go's \<open>nil\<close> error.
\<close>

definition Version :: int where
  "Version = 1"

text \<open>\<open>value > 1<<53-1\<close> is what the code refuses of a generation or a sequence number.\<close>

definition safe_integer :: "nat \<Rightarrow> bool" where
  "safe_integer n \<longleftrightarrow> n \<le> 2 ^ 53 - 1"

lemma safe_integer_code [code]: "safe_integer n \<longleftrightarrow> int n \<le> 9007199254740991"
  by (simp add: safe_integer_def)

definition check :: "bool \<Rightarrow> string \<Rightarrow> err + unit \<Rightarrow> err + unit" where
  "check c e rest = (if c then rest else Inl (P2p e))"

lemma check_Inr [simp]: "check c e rest = Inr u \<longleftrightarrow> c \<and> rest = Inr u"
  by (simp add: check_def)

section \<open>Signals\<close>

record Signal =
  sig_Version :: int
  sig_Type :: string
  sig_MessageID :: string
  sig_AttemptID :: string
  sig_Generation :: nat
  sig_FromDeviceID :: string
  sig_ToDeviceID :: string
  sig_PairID :: string
  sig_Sequence :: nat
  sig_ExpiresAt :: int
  sig_Payload :: string
  sig_Signature :: string

record Candidate =
  can_SDPHash :: string
  can_Candidate :: string
  can_MID :: string
  can_Line :: nat

record SignalScope =
  sc_AttemptID :: string
  sc_FromDeviceID :: string
  sc_ToDeviceID :: string
  sc_PairID :: string
  sc_Generation :: nat
  sc_NextSequence :: nat

text \<open>The struct tags as the decoder sees them, and the structs its result stands for; a field the
  decoder did not fill would have its zero value.\<close>

definition str_field :: "(bytes \<rightharpoonup> field) \<Rightarrow> bytes \<Rightarrow> string" where
  "str_field m tag = (case m tag of Some (FString s) \<Rightarrow> s | _ \<Rightarrow> [])"

definition int_field :: "(bytes \<rightharpoonup> field) \<Rightarrow> bytes \<Rightarrow> int" where
  "int_field m tag = (case m tag of Some (FInt i) \<Rightarrow> i | _ \<Rightarrow> 0)"

definition signal_tags :: schema where
  "signal_tags = [(''version'', KInt 64), (''type'', KString), (''messageId'', KString), (''attemptId'', KString),
     (''generation'', KUint 64), (''fromDeviceId'', KString), (''toDeviceId'', KString), (''pairId'', KString),
     (''sequence'', KUint 64), (''expiresAt'', KInt 64), (''payload'', KString), (''signature'', KString)]"

definition signal_of :: "(bytes \<rightharpoonup> field) \<Rightarrow> Signal" where
  "signal_of m = \<lparr>sig_Version = int_field m ''version'', sig_Type = str_field m ''type'',
     sig_MessageID = str_field m ''messageId'', sig_AttemptID = str_field m ''attemptId'',
     sig_Generation = nat (int_field m ''generation''), sig_FromDeviceID = str_field m ''fromDeviceId'',
     sig_ToDeviceID = str_field m ''toDeviceId'', sig_PairID = str_field m ''pairId'',
     sig_Sequence = nat (int_field m ''sequence''), sig_ExpiresAt = int_field m ''expiresAt'',
     sig_Payload = str_field m ''payload'', sig_Signature = str_field m ''signature''\<rparr>"

definition sdp_tags :: schema where
  "sdp_tags = [(''sdp'', KString)]"

definition candidate_tags :: schema where
  "candidate_tags = [(''sdpHash'', KString), (''candidate'', KString), (''mid'', KString), (''line'', KUint 16)]"

definition decodeSDP :: "bytes \<Rightarrow> err + string" where
  "decodeSDP body = (case Decode sdp_tags body of Inl e \<Rightarrow> Inl e | Inr m \<Rightarrow> Inr (str_field m ''sdp''))"

definition decodeCandidate :: "bytes \<Rightarrow> err + Candidate" where
  "decodeCandidate body = (case Decode candidate_tags body of
     Inl e \<Rightarrow> Inl e
   | Inr m \<Rightarrow> Inr \<lparr>can_SDPHash = str_field m ''sdpHash'', can_Candidate = str_field m ''candidate'',
                   can_MID = str_field m ''mid'', can_Line = nat (int_field m ''line'')\<rparr>)"

definition Signal_elems :: "Signal \<Rightarrow> elem list" where
  "Signal_elems s = [EStr ''dshker.signal.v1'', EInt (sig_Version s), EStr (sig_Type s), EStr (sig_MessageID s),
     EStr (sig_AttemptID s), EInt (int (sig_Generation s)), EStr (sig_FromDeviceID s), EStr (sig_ToDeviceID s),
     EStr (sig_PairID s), EInt (int (sig_Sequence s)), EInt (sig_ExpiresAt s), EStr (sig_Payload s)]"

definition Signal_SigningBytes :: "Signal \<Rightarrow> bytes" where
  "Signal_SigningBytes s = marshal_array (Signal_elems s)"

definition Sign :: "crypto \<Rightarrow> bytes \<Rightarrow> Signal \<Rightarrow> Signal" where
  "Sign C key s = s\<lparr>sig_Signature := b64_encode (ed_sign C key (Signal_SigningBytes s))\<rparr>"

definition validatePayload :: "Signal \<Rightarrow> err + unit" where
  "validatePayload s =
     check (int (length (sig_Payload s)) \<le> 48 * 1024) ''p2p.protocol_limit''
     (case b64_decode (sig_Payload s) of
        None \<Rightarrow> Inl (P2p ''p2p.invalid_payload'')
      | Some body \<Rightarrow>
          (if sig_Type s = ''offer'' \<or> sig_Type s = ''answer'' then
             (case decodeSDP body of
                Inl _ \<Rightarrow> Inl (P2p ''p2p.invalid_sdp'')
              | Inr sdp \<Rightarrow> check (length sdp \<noteq> 0 \<and> int (length sdp) \<le> 32 * 1024) ''p2p.invalid_sdp'' (Inr ()))
           else if sig_Type s = ''candidate'' \<or> sig_Type s = ''end-of-candidates'' then
             (case decodeCandidate body of
                Inl _ \<Rightarrow> Inl (P2p ''p2p.invalid_candidate'')
              | Inr payload \<Rightarrow>
                  check (length (can_SDPHash payload) = 64 \<and> int (length (can_Candidate payload)) \<le> 2048
                         \<and> length (can_MID payload) \<le> 64) ''p2p.invalid_candidate''
                  (check (hex_decode (can_SDPHash payload) \<noteq> None) ''p2p.invalid_candidate''
                  (check ((sig_Type s = ''candidate'') = (can_Candidate payload \<noteq> [])) ''p2p.invalid_candidate''
                  (Inr ()))))
           else Inl (P2p ''p2p.protocol_mismatch'')))"

definition Signal_Verify :: "crypto \<Rightarrow> Signal \<Rightarrow> bytes \<Rightarrow> SignalScope \<Rightarrow> time \<Rightarrow> err + unit" where
  "Signal_Verify C s key scope now =
     check (sig_Version s = Version \<and> sig_Generation s \<noteq> 0 \<and> safe_integer (sig_Generation s)
            \<and> sig_Sequence s \<noteq> 0 \<and> safe_integer (sig_Sequence s) \<and> ValidID (sig_MessageID s)) ''p2p.protocol_mismatch''
     (check (ValidID (sig_AttemptID s) \<and> ValidID (sig_FromDeviceID s) \<and> ValidID (sig_ToDeviceID s)
            \<and> ValidID (sig_PairID s) \<and> sig_FromDeviceID s \<noteq> sig_ToDeviceID s
            \<and> sig_AttemptID s = sc_AttemptID scope \<and> sig_FromDeviceID s = sc_FromDeviceID scope
            \<and> sig_ToDeviceID s = sc_ToDeviceID scope \<and> sig_PairID s = sc_PairID scope
            \<and> sig_Generation s = sc_Generation scope \<and> sig_Sequence s = sc_NextSequence scope)
        ''p2p.signal_scope_mismatch''
     (check (unix now < sig_ExpiresAt s \<and> sig_ExpiresAt s \<le> unix (now + 60 * second)) ''p2p.signal_expired''
     (case validatePayload s of
        Inl e \<Rightarrow> Inl e
      | Inr _ \<Rightarrow>
          (case b64_decode (sig_Signature s) of
             None \<Rightarrow> Inl (P2p ''p2p.identity_mismatch'')
           | Some signature \<Rightarrow>
               check (length key = 32 \<and> ed_verify C key (Signal_SigningBytes s) signature) ''p2p.identity_mismatch''
                 (Inr ())))))"

section \<open>Leases\<close>

record Lease =
  lse_Version :: int
  lse_ServiceID :: string
  lse_UserID :: string
  lse_NetworkID :: string
  lse_PairID :: string
  lse_AttemptID :: string
  lse_FromDeviceID :: string
  lse_ToDeviceID :: string
  lse_Generation :: nat
  lse_Revision :: nat
  lse_ExpiresAt :: int
  lse_Permission :: string
  lse_Signature :: string

definition Lease_elems :: "Lease \<Rightarrow> elem list" where
  "Lease_elems l = [EStr ''dshker.lease.v1'', EInt (lse_Version l), EStr (lse_ServiceID l), EStr (lse_UserID l),
     EStr (lse_NetworkID l), EStr (lse_PairID l), EStr (lse_AttemptID l), EStr (lse_FromDeviceID l),
     EStr (lse_ToDeviceID l), EInt (int (lse_Generation l)), EInt (int (lse_Revision l)), EInt (lse_ExpiresAt l),
     EStr (lse_Permission l)]"

definition Lease_SigningBytes :: "Lease \<Rightarrow> bytes" where
  "Lease_SigningBytes l = marshal_array (Lease_elems l)"

definition Lease_Verify ::
  "crypto \<Rightarrow> Lease \<Rightarrow> bytes \<Rightarrow> SignalScope \<Rightarrow> string \<Rightarrow> string \<Rightarrow> nat \<Rightarrow> time \<Rightarrow> err + unit" where
  "Lease_Verify C l public scope userID networkID revision now =
     check (ValidID userID \<and> ValidID networkID \<and> lse_UserID l = userID \<and> lse_NetworkID l = networkID)
       ''p2p.lease_scope_mismatch''
     (check (lse_Version l = Version \<and> length public = 32 \<and> lse_ServiceID l = KeyID C public
            \<and> lse_Permission l = ''dsh-session'' \<and> lse_Generation l = sc_Generation scope
            \<and> lse_Revision l = revision \<and> revision \<noteq> 0 \<and> lse_AttemptID l = sc_AttemptID scope
            \<and> lse_PairID l = sc_PairID scope \<and> lse_FromDeviceID l = sc_FromDeviceID scope
            \<and> lse_ToDeviceID l = sc_ToDeviceID scope) ''p2p.lease_scope_mismatch''
     (check (ValidID (lse_AttemptID l) \<and> ValidID (lse_PairID l) \<and> ValidID (lse_FromDeviceID l)
            \<and> ValidID (lse_ToDeviceID l) \<and> lse_FromDeviceID l \<noteq> lse_ToDeviceID l) ''p2p.lease_scope_mismatch''
     (check (unix now < lse_ExpiresAt l \<and> lse_ExpiresAt l \<le> unix (now + minute)) ''p2p.lease_expired''
     (case b64_decode (lse_Signature l) of
        None \<Rightarrow> Inl (P2p ''p2p.identity_mismatch'')
      | Some signature \<Rightarrow>
          check (ed_verify C public (Lease_SigningBytes l) signature) ''p2p.identity_mismatch'' (Inr ())))))"

section \<open>Frames\<close>

definition MaxDataBytes :: nat where
  "MaxDataBytes = 16 * 1024"

definition MaxQueueBytes :: nat where
  "MaxQueueBytes = 8 * 1024 * 1024"

text \<open>\<open>Data\<close> is \<open>None\<close> when it is Go's nil slice.\<close>

record Frame =
  frm_Version :: int
  frm_Type :: string
  frm_AttemptID :: string
  frm_Generation :: nat
  frm_RuntimeGeneration :: nat
  frm_StreamID :: nat
  frm_Credit :: nat
  frm_Data :: "bytes option"

definition Frame_Validate :: "Frame \<Rightarrow> string \<Rightarrow> nat \<Rightarrow> nat \<Rightarrow> err + unit" where
  "Frame_Validate f attempt generation runtime =
     check (frm_Version f = Version \<and> ValidID (frm_AttemptID f) \<and> frm_AttemptID f = attempt \<and> generation \<noteq> 0
            \<and> runtime \<noteq> 0 \<and> frm_Generation f = generation \<and> frm_RuntimeGeneration f = runtime
            \<and> frm_StreamID f \<noteq> 0) ''p2p.frame_scope_mismatch''
     (case frm_Data f of
        None \<Rightarrow> Inl (P2p ''p2p.protocol_limit'')
      | Some data \<Rightarrow>
          check (length data \<le> MaxDataBytes \<and> frm_Credit f \<le> MaxQueueBytes) ''p2p.protocol_limit''
          (if frm_Type f = ''OPEN'' \<or> frm_Type f = ''WINDOW_UPDATE'' then
             check (frm_Credit f \<noteq> 0 \<and> length data = 0) ''p2p.invalid_frame'' (Inr ())
           else if frm_Type f = ''DATA'' then
             check (length data \<noteq> 0 \<and> frm_Credit f = 0) ''p2p.invalid_frame'' (Inr ())
           else if frm_Type f = ''FIN'' \<or> frm_Type f = ''RESET'' then
             check (length data = 0 \<and> frm_Credit f = 0) ''p2p.invalid_frame'' (Inr ())
           else Inl (P2p ''p2p.protocol_mismatch'')))"

section \<open>The signed bytes\<close>

lemma lower_hex_ascii: "lower_hex c \<Longrightarrow> byte_of c < 0x80"
  by (auto simp: lower_hex_def Let_def)

lemma ascii_valid: "\<forall>c \<in> set s. byte_of c < 0x80 \<Longrightarrow> valid_utf8 s"
  by (induction s) (subst valid_utf8.simps, auto simp: decode_rune_def rune_error_def)+

lemma ValidID_utf8: "ValidID s \<Longrightarrow> valid_utf8 s"
  by (auto simp: ValidID_def list_all_iff intro!: ascii_valid lower_hex_ascii)

text \<open>The strings of a message are valid UTF-8, as every string that was read from JSON is.\<close>

definition Signal_text :: "Signal \<Rightarrow> bool" where
  "Signal_text s \<longleftrightarrow> list_all elem_ok (Signal_elems s)"

definition Lease_text :: "Lease \<Rightarrow> bool" where
  "Lease_text l \<longleftrightarrow> list_all elem_ok (Lease_elems l)"

lemma Signal_bytes_inj:
  assumes "Signal_text s" "Signal_text t" "Signal_SigningBytes s = Signal_SigningBytes t"
  shows "s\<lparr>sig_Signature := []\<rparr> = t\<lparr>sig_Signature := []\<rparr>"
proof -
  have "Signal_elems s = Signal_elems t"
    by (rule marshal_array_inj) (use assms in \<open>simp_all add: Signal_text_def Signal_SigningBytes_def Signal_elems_def\<close>)
  then show ?thesis by (simp add: Signal_elems_def)
qed

lemma Lease_bytes_inj:
  assumes "Lease_text l" "Lease_text k" "Lease_SigningBytes l = Lease_SigningBytes k"
  shows "l\<lparr>lse_Signature := []\<rparr> = k\<lparr>lse_Signature := []\<rparr>"
proof -
  have "Lease_elems l = Lease_elems k"
    by (rule marshal_array_inj) (use assms in \<open>simp_all add: Lease_text_def Lease_SigningBytes_def Lease_elems_def\<close>)
  then show ?thesis by (simp add: Lease_elems_def)
qed

end
