(* ===== verification/Pairing.thy ===== *)
theory Pairing
  imports Certificates Wire
begin

text \<open>
  Pairing codes and pairs (\<open>internal/coordinator/pairing.go\<close>): a share is minted by the device that
  wants to be found, an invite spends it, the target approves and the initiator confirms; adoption
  pairs the devices of one network without that ceremony.  The last two functions are the network
  co-membership that authorizes direct connections.
\<close>

section \<open>Shares\<close>

record Share =
  sh_Version :: int
  sh_ServiceID :: string
  sh_NetworkID :: string
  sh_DeviceID :: string
  sh_Fingerprint :: string
  sh_Nonce :: string
  sh_ExpiresAt :: int
  sh_Signature :: string

definition Share_elems :: "Share \<Rightarrow> elem list" where
  "Share_elems s = [EStr ''dshker.pair-share.v1'', EInt (sh_Version s), EStr (sh_ServiceID s),
     EStr (sh_NetworkID s), EStr (sh_DeviceID s), EStr (sh_Fingerprint s), EStr (sh_Nonce s), EInt (sh_ExpiresAt s)]"

definition Share_SigningBytes :: "Share \<Rightarrow> bytes" where
  "Share_SigningBytes s = marshal_array (Share_elems s)"

text \<open>\<open>Store.Share\<close>; \<open>rnd\<close> are the random bytes of the nonce.\<close>

definition new_share :: "crypto \<Rightarrow> 'z store_scheme \<Rightarrow> bytes \<Rightarrow> Device \<Rightarrow> string \<Rightarrow> string \<Rightarrow> time \<Rightarrow> Share" where
  "new_share C store rnd device i networkID now =
     (let share = \<lparr>sh_Version = Version, sh_ServiceID = st_serviceID store, sh_NetworkID = networkID,
            sh_DeviceID = i, sh_Fingerprint = KeyID C (dev_PublicKey device), sh_Nonce = NewID rnd,
            sh_ExpiresAt = unix (now + 5 * minute), sh_Signature = []\<rparr>
      in share\<lparr>sh_Signature := b64_encode (ed_sign C (st_key store) (Share_SigningBytes share))\<rparr>)"

definition mintShare :: "crypto \<Rightarrow> bytes \<Rightarrow> string \<Rightarrow> string \<Rightarrow> time \<Rightarrow> ('z, Share) act" where
  "mintShare C rnd i networkID now =
     bnd (Device_of i)
       (\<lambda>device. withStore (\<lambda>store.
          let share = new_share C store rnd device i networkID now in
          transaction
            (bnd (bindingOwner networkID i)
               (\<lambda>_. bnd (execInsert (ins_share \<lparr>s_nonce = sh_Nonce share, s_device = i, s_network = networkID,
                                      s_expires = sh_ExpiresAt share, s_used = False\<rparr>))
               (\<lambda>_. ret (Commit share))))))"

section \<open>Pairs\<close>

record Pair =
  pr_ID :: string
  pr_NetworkID :: string
  pr_Initiator :: string
  pr_Target :: string
  pr_State :: pair_state
  pr_ExpiresAt :: int
  pr_Revision :: nat

definition pair_of :: "pair_row \<Rightarrow> Pair" where
  "pair_of p = \<lparr>pr_ID = p_id p, pr_NetworkID = p_network p, pr_Initiator = p_initiator p,
     pr_Target = p_target p, pr_State = p_state p, pr_ExpiresAt = p_expires p, pr_Revision = p_revision p\<rparr>"

definition row_of :: "Pair \<Rightarrow> pair_row" where
  "row_of p = \<lparr>p_id = pr_ID p, p_network = pr_NetworkID p, p_initiator = pr_Initiator p,
     p_target = pr_Target p, p_state = pr_State p, p_expires = pr_ExpiresAt p, p_revision = pr_Revision p\<rparr>"

text \<open>The pairs of two devices that keep a new one out: active, or invited or approved and not expired.\<close>

definition busy :: "string \<Rightarrow> string \<Rightarrow> string \<Rightarrow> time \<Rightarrow> pair_row \<Rightarrow> bool" where
  "busy networkID a b now p \<longleftrightarrow> p_network p = networkID
     \<and> ((p_initiator p = a \<and> p_target p = b) \<or> (p_initiator p = b \<and> p_target p = a))
     \<and> (p_state p = Active \<or> ((p_state p = Invited \<or> p_state p = Approved) \<and> unix now < p_expires p))"

definition countBusy :: "string \<Rightarrow> string \<Rightarrow> string \<Rightarrow> time \<Rightarrow> ('z, nat) act" where
  "countBusy networkID a b now = query (\<lambda>d. count_where (busy networkID a b now) (pairs d))"

text \<open>The bindings of both devices, to a network of one account.\<close>

definition sameOwner :: "string \<Rightarrow> string \<Rightarrow> string \<Rightarrow> ('z, unit) act" where
  "sameOwner networkID a b =
     bnd (bindingOwner networkID a)
       (\<lambda>owner. bnd (mapErr (\<lambda>_. P2p ''p2p.binding_unauthorized'') (bindingOwner networkID b))
       (\<lambda>other. guard (owner = other) ''p2p.binding_unauthorized'' (ret ())))"

definition share_valid :: "crypto \<Rightarrow> 'z store_scheme \<Rightarrow> string \<Rightarrow> Device \<Rightarrow> Share \<Rightarrow> time \<Rightarrow> bool" where
  "share_valid C store sender target share now \<longleftrightarrow>
     (case b64_decode (sh_Signature share) of
        None \<Rightarrow> False
      | Some signature \<Rightarrow> sh_Version share = Version \<and> sh_ServiceID share = st_serviceID store
          \<and> sh_DeviceID share \<noteq> sender \<and> sh_Fingerprint share = KeyID C (dev_PublicKey target)
          \<and> unix now < sh_ExpiresAt share \<and> sh_ExpiresAt share \<le> unix (now + 5 * minute)
          \<and> ed_verify C (ed_public C (st_key store)) (Share_SigningBytes share) signature)"

definition Invite :: "crypto \<Rightarrow> bytes \<Rightarrow> string \<Rightarrow> Share \<Rightarrow> time \<Rightarrow> ('z, Pair) act" where
  "Invite C rnd sender share now =
     bnd (Device_of sender)
       (\<lambda>_. bnd (Device_of (sh_DeviceID share))
       (\<lambda>target. withStore (\<lambda>store. guard (share_valid C store sender target share now) ''p2p.invalid_pairing_code''
       (transaction
          (bnd (sameOwner (sh_NetworkID share) sender (dev_ID target))
             (\<lambda>_. bnd (countBusy (sh_NetworkID share) sender (dev_ID target) now)
             (\<lambda>count. guard (count = 0) ''p2p.pairing_busy''
             (bnd (execUpdate (upd_shares (\<lambda>r. s_nonce r = sh_Nonce share \<and> s_device r = dev_ID target
                                   \<and> s_network r = sh_NetworkID share \<and> s_expires r = sh_ExpiresAt share
                                   \<and> unix now < s_expires r \<and> \<not> s_used r) (\<lambda>r. r\<lparr>s_used := True\<rparr>)))
             (\<lambda>changed. guard (changed = 1) ''p2p.invalid_pairing_code''
             (let pair = \<lparr>pr_ID = NewID rnd, pr_NetworkID = sh_NetworkID share, pr_Initiator = sender,
                    pr_Target = dev_ID target, pr_State = Invited, pr_ExpiresAt = unix (now + 5 * minute),
                    pr_Revision = 1\<rparr> in
              bnd (execInsert (ins_pair (row_of pair)))
                (\<lambda>_. ret (Commit pair))))))))))))"

definition adopt :: "bytes \<Rightarrow> string \<Rightarrow> string \<Rightarrow> string \<Rightarrow> time \<Rightarrow> ('z, Pair) act" where
  "adopt rnd initiator target networkID now = transaction
     (bnd (sameOwner networkID initiator target)
        (\<lambda>_. bnd (countBusy networkID initiator target now)
        (\<lambda>count. guard (count = 0) ''p2p.pairing_busy''
        (let pair = \<lparr>pr_ID = NewID rnd, pr_NetworkID = networkID, pr_Initiator = initiator, pr_Target = target,
               pr_State = Active, pr_ExpiresAt = unix (now + 5 * minute), pr_Revision = 1\<rparr> in
         bnd (execInsert (ins_pair (row_of pair)))
           (\<lambda>_. ret (Commit pair))))))"

text \<open>
  \<open>SELECT DISTINCT b.network_id, other.device_id ... ORDER BY b.network_id, other.device_id\<close>.  The
  order is that of the texts' bytes (\<open>BINARY\<close> collation).
\<close>

fun bytes_le :: "bytes \<Rightarrow> bytes \<Rightarrow> bool" where
  "bytes_le [] _ = True"
| "bytes_le (_ # _) [] = False"
| "bytes_le (a # s) (b # t) = (byte_of a < byte_of b \<or> (a = b \<and> bytes_le s t))"

definition peer_le :: "string \<times> string \<Rightarrow> string \<times> string \<Rightarrow> bool" where
  "peer_le p q \<longleftrightarrow> (if fst p = fst q then bytes_le (snd p) (snd q) else bytes_le (fst p) (fst q))"

fun insert_peer :: "string \<times> string \<Rightarrow> (string \<times> string) list \<Rightarrow> (string \<times> string) list" where
  "insert_peer p [] = [p]"
| "insert_peer p (q # qs) = (if peer_le p q then p # q # qs else q # insert_peer p qs)"

definition peer_rows :: "string \<Rightarrow> string \<Rightarrow> db \<Rightarrow> (string \<times> string) list" where
  "peer_rows deviceID userID d = foldr insert_peer (remdups
     [(b_network b, b_device other). b \<leftarrow> bindings d, n \<leftarrow> networks d, u \<leftarrow> users d, other \<leftarrow> bindings d, r \<leftarrow> devices d,
        n_id n = b_network b \<and> u_id u = n_user n \<and> b_network other = b_network b \<and> b_device other \<noteq> b_device b
        \<and> b_active other \<and> d_id r = b_device other \<and> b_device b = deviceID \<and> b_active b \<and> \<not> n_deleted n
        \<and> \<not> u_disabled u \<and> n_user n = userID \<and> d_user r = n_user n \<and> \<not> d_revoked r]) []"

text \<open>The loop over the peers: one that cannot be adopted is skipped.  The random bytes of the pairs'
  ids are a sequence, of which each peer takes the next.\<close>

fun adoptAll :: "(nat \<Rightarrow> bytes) \<Rightarrow> string \<Rightarrow> time \<Rightarrow> (string \<times> string) list \<Rightarrow> Pair list \<Rightarrow> ('z, Pair list) act" where
  "adoptAll rnds deviceID now [] adopted = ret adopted"
| "adoptAll rnds deviceID now ((networkID, peer) # peers) adopted =
     bnd (attempt (adopt (rnds 0) deviceID peer networkID now))
       (\<lambda>r. adoptAll (\<lambda>n. rnds (Suc n)) deviceID now peers (case r of Inl _ \<Rightarrow> adopted | Inr pair \<Rightarrow> adopted @ [pair]))"

definition AdoptNetwork :: "(nat \<Rightarrow> bytes) \<Rightarrow> string \<Rightarrow> time \<Rightarrow> ('z, Pair list) act" where
  "AdoptNetwork rnds deviceID now =
     bnd (Device_of deviceID)
       (\<lambda>device. bnd (query (peer_rows deviceID (dev_UserID device)))
       (\<lambda>peers. adoptAll rnds deviceID now peers []))"

definition Pairs :: "string \<Rightarrow> ('z, Pair list) act" where
  "Pairs deviceID =
     bnd (Device_of deviceID)
       (\<lambda>_. query (\<lambda>d. map pair_of (filter (\<lambda>p. p_initiator p = deviceID \<or> p_target p = deviceID) (pairs d))))"

definition getPair :: "string \<Rightarrow> string \<Rightarrow> ('z, Pair) act" where
  "getPair deviceID pairID =
     bnd (Pairs deviceID)
       (\<lambda>ps. case find (\<lambda>p. pr_ID p = pairID) ps of
          None \<Rightarrow> throw (P2p ''p2p.pair_unauthorized'')
        | Some pair \<Rightarrow> ret pair)"

definition authorizePair :: "Pair \<Rightarrow> ('z, unit) act" where
  "authorizePair pair = sameOwner (pr_NetworkID pair) (pr_Initiator pair) (pr_Target pair)"

text \<open>The next state an action asks for (the \<open>switch\<close> of \<open>ActOnPair\<close>).\<close>

definition nextState :: "crypto \<Rightarrow> string \<Rightarrow> Pair \<Rightarrow> string \<Rightarrow> string \<Rightarrow> ('z, pair_state) act" where
  "nextState C deviceID pair action fingerprint =
     (if action = ''approve'' \<or> action = ''reject'' then
        guard (pr_Target pair = deviceID \<and> pr_State pair = Invited) ''p2p.pair_state_conflict''
          (ret (if action = ''reject'' then Rejected else Approved))
      else if action = ''confirm'' then
        bnd (attempt (Device_of (pr_Target pair)))
          (\<lambda>r. case r of
             Inl _ \<Rightarrow> throw (P2p ''p2p.identity_mismatch'')
           | Inr target \<Rightarrow>
               guard (pr_Initiator pair = deviceID \<and> pr_State pair = Approved
                      \<and> fingerprint = KeyID C (dev_PublicKey target)) ''p2p.identity_mismatch'' (ret Active))
      else if action = ''revoke'' then
        guard (pr_State pair = Active) ''p2p.pair_state_conflict'' (ret Revoked)
      else throw (P2p ''p2p.invalid_pair_action''))"

text \<open>\<open>UPDATE pairs SET state=?,revision=revision+1 WHERE id=? AND state=? AND revision=? AND NOT EXISTS(...)\<close>.\<close>

definition moves :: "db \<Rightarrow> Pair \<Rightarrow> pair_row \<Rightarrow> bool" where
  "moves d pair p \<longleftrightarrow> p_id p = pr_ID pair \<and> p_state p = pr_State pair \<and> p_revision p = pr_Revision pair
     \<and> \<not> list_ex (\<lambda>r. (d_id r = pr_Initiator pair \<or> d_id r = pr_Target pair) \<and> d_revoked r) (devices d)"

definition ActOnPair :: "crypto \<Rightarrow> string \<Rightarrow> string \<Rightarrow> string \<Rightarrow> string \<Rightarrow> time \<Rightarrow> ('z, Pair) act" where
  "ActOnPair C deviceID pairID action fingerprint now =
     bnd (getPair deviceID pairID)
       (\<lambda>pair. bnd (authorizePair pair)
       (\<lambda>_. bnd (nextState C deviceID pair action fingerprint)
       (\<lambda>next. guard (\<not> (action \<noteq> ''revoke'' \<and> pr_ExpiresAt pair \<le> unix now)) ''p2p.pairing_expired''
       (bnd (execUpdate (\<lambda>d. upd_pairs (moves d pair) (set_state next) d))
       (\<lambda>count. guard (count = 1) ''p2p.pair_state_conflict''
       (getPair deviceID pairID))))))"

section \<open>Network co-membership\<close>

definition shared_rows :: "string \<Rightarrow> string \<Rightarrow> db \<Rightarrow> string list" where
  "shared_rows a b d = [b_network x. x \<leftarrow> bindings d, y \<leftarrow> bindings d,
     b_network x = b_network y \<and> b_device x = a \<and> b_device y = b \<and> b_active x \<and> b_active y]"

text \<open>\<open>sameNetwork\<close> has no error result: a failed query is a no.\<close>

definition sameNetwork :: "string \<Rightarrow> string \<Rightarrow> ('z, bool) act" where
  "sameNetwork a b =
     bnd (attempt (query (\<lambda>d. length (shared_rows a b d))))
       (\<lambda>r. ret (case r of Inl _ \<Rightarrow> False | Inr count \<Rightarrow> 0 < count))"

text \<open>\<open>LIMIT 1\<close> without an order: which of the rows SQLite returns is a parameter, \<open>pick\<close>.\<close>

definition sharedNetworkID :: "(string list \<Rightarrow> string list) \<Rightarrow> string \<Rightarrow> string \<Rightarrow> ('z, string) act" where
  "sharedNetworkID pick a b =
     mapErr (\<lambda>_. P2p ''p2p.pair_unauthorized'') (queryRow (\<lambda>d. pick (shared_rows a b d)))"

text \<open>A choice of SQLite: one of the rows, if there is one.\<close>

definition picks :: "(string list \<Rightarrow> string list) \<Rightarrow> bool" where
  "picks pick \<longleftrightarrow> (\<forall>xs. pick xs = [] \<longleftrightarrow> xs = []) \<and> (\<forall>xs. set (pick xs) \<subseteq> set xs)"

section \<open>Contracts\<close>

lemma sameOwner_reading [contract_intros]: "reading (sameOwner networkID a b)"
  unfolding sameOwner_def by (intro contract_intros)

lemma countBusy_reading [contract_intros]: "reading (countBusy networkID a b now)"
  unfolding countBusy_def by (intro contract_intros)

lemma Pairs_reading [contract_intros]: "reading (Pairs deviceID)"
  unfolding Pairs_def by (intro contract_intros)

lemma getPair_reading [contract_intros]: "reading (getPair deviceID pairID)"
  unfolding getPair_def by (intro contract_intros)

lemma authorizePair_reading [contract_intros]: "reading (authorizePair pair)"
  unfolding authorizePair_def by (intro contract_intros)

lemma nextState_reading [contract_intros]: "reading (nextState C deviceID pair action fingerprint)"
  unfolding nextState_def by (intro contract_intros)

lemma sameNetwork_reading [contract_intros]: "reading (sameNetwork a b)"
  unfolding sameNetwork_def by (intro contract_intros)

lemma sharedNetworkID_reading [contract_intros]: "reading (sharedNetworkID pick a b)"
  unfolding sharedNetworkID_def by (intro contract_intros)

text \<open>A reading action is everything else too.\<close>

lemma advancing_reading: "reading m \<Longrightarrow> advancing m"
  by (rule advancingI) (simp add: reading_result)

lemmas pairing_readers = sameOwner_reading countBusy_reading Pairs_reading getPair_reading
  authorizePair_reading nextState_reading sameNetwork_reading sharedNetworkID_reading

lemmas pairing_advancing [contract_intros] = pairing_readers [THEN advancing_reading]

lemmas pairing_keeping [contract_intros] = pairing_readers [THEN keeping_reading]

lemma mintShare_atomic: "atomic (mintShare C rnd i networkID now)"
  unfolding mintShare_def Let_def by (intro contract_intros)

lemma mintShare_advancing [contract_intros]: "advancing (mintShare C rnd i networkID now)"
  unfolding mintShare_def Let_def by (intro contract_intros) (auto dest: advances_ins)

lemma Invite_atomic: "atomic (Invite C rnd sender share now)"
  unfolding Invite_def by (intro contract_intros)

lemma Invite_advancing [contract_intros]: "advancing (Invite C rnd sender share now)"
  unfolding Invite_def Let_def
  by (intro contract_intros) (auto simp: share_le_def intro!: advances_upd dest: advances_ins)

lemma adopt_atomic: "atomic (adopt rnd initiator target networkID now)"
  unfolding adopt_def by (intro contract_intros)

lemma adopt_advancing [contract_intros]: "advancing (adopt rnd initiator target networkID now)"
  unfolding adopt_def Let_def by (intro contract_intros) (auto dest: advances_ins)

lemma adoptAll_advancing [contract_intros]: "advancing (adoptAll rnds deviceID now peers adopted)"
  by (induction rnds deviceID now peers adopted rule: adoptAll.induct)
    (simp_all, (intro contract_intros; assumption?)+)

lemma AdoptNetwork_advancing [contract_intros]: "advancing (AdoptNetwork rnds deviceID now)"
  unfolding AdoptNetwork_def by (intro contract_intros)

section \<open>What the guards of a pair establish\<close>

lemma find_SomeD: "find P xs = Some x \<Longrightarrow> x \<in> set xs \<and> P x"
  by (auto simp: find_Some_iff)

lemma sameOwner_wp:
  assumes "\<And>t usr. st_db t = st_db s \<Longrightarrow> usr \<in> set (binding_rows i a (st_db s)) \<Longrightarrow>
      usr \<in> set (binding_rows i b (st_db s)) \<Longrightarrow> Q () t"
    and "\<And>e t. st_db t = st_db s \<Longrightarrow> E e t"
  shows "wp (sameOwner i a b) Q E s"
  unfolding sameOwner_def using assms by (auto simp: wp_simps dest: hd_in)

text \<open>Two devices bound to a live network of an enabled account.\<close>

definition may_pair :: "db \<Rightarrow> string \<Rightarrow> string \<Rightarrow> string \<Rightarrow> bool" where
  "may_pair d i a b \<longleftrightarrow> bound d i a \<and> bound d i b \<and> (\<exists>usr. alive d i usr \<and> enabled d usr)"

lemma may_pairI:
  "usr \<in> set (binding_rows i a d) \<Longrightarrow> usr \<in> set (binding_rows i b d) \<Longrightarrow> may_pair d i a b"
  by (auto simp: set_binding_rows may_pair_def)

lemma alive_owned: "alive d i usr \<Longrightarrow> owned d i usr"
  by (auto simp: alive_def owned_def)

lemma inv_new_pair:
  assumes "db_inv d" "may_pair d i a b" "a \<noteq> b"
    and "ins_pair \<lparr>p_id = x, p_network = i, p_initiator = a, p_target = b, p_state = st, p_expires = e, p_revision = Suc 0\<rparr> d = Some d'"
  shows "db_inv d'"
proof -
  obtain usr where "bound d i a" "bound d i b" "owned d i usr" "enabled d usr"
    using assms(2) alive_owned by (auto simp: may_pair_def)
  then show ?thesis using assms(3) by (intro inv_ins_pair [OF assms(1,4)]) simp_all
qed

lemma may_pair_frame [simp]: "may_pair (fst (upd_shares P f d)) = may_pair d"
  by (simp add: may_pair_def upd_defs fun_eq_iff)

lemma device_rows_id: "device_rows i d = x # xs \<Longrightarrow> dev_ID x = i"
  by (drule hd_in, drule set_device_rows [THEN iffD1]) (auto simp: device_of_def)

lemma mintShare_keeps:
  "db_inv (st_db s) \<Longrightarrow> db_inv (st_db (snd (mintShare C rnd i networkID now s)))"
  by (rule keeps_wp)
    (auto simp: mintShare_def wp_simps Let_def set_binding_rows dest!: binding_rowsD intro: inv_ins_share)

lemma Invite_keeps:
  assumes "db_inv (st_db s)"
  shows "db_inv (st_db (snd (Invite C rnd sender share now s)))"
proof (rule keeps_wp)
  have new: "db_inv d'" if "db_inv d" "may_pair d i a b" "a \<noteq> b" "ins_pair (row_of \<lparr>pr_ID = x, pr_NetworkID = i,
      pr_Initiator = a, pr_Target = b, pr_State = st, pr_ExpiresAt = e, pr_Revision = Suc 0\<rparr>) d = Some d'" for d i a b x st e d'
    using that inv_new_pair by (simp add: row_of_def)
  show "wp (Invite C rnd sender share now) (\<lambda>_ t. db_inv (st_db t)) (\<lambda>_ t. db_inv (st_db t)) s"
    unfolding Invite_def countBusy_def
    by (auto simp: wp_simps Let_def assms share_valid_def device_rows_id inv_use_shares split: option.splits
        intro!: sameOwner_wp) (erule new [rotated 3], simp_all add: inv_use_shares assms may_pairI)
qed

lemma adopt_keeps:
  assumes "db_inv (st_db s)" "initiator \<noteq> target"
  shows "db_inv (st_db (snd (adopt rnd initiator target networkID now s)))"
proof (rule keeps_wp)
  show "wp (adopt rnd initiator target networkID now) (\<lambda>_ t. db_inv (st_db t)) (\<lambda>_ t. db_inv (st_db t)) s"
    unfolding adopt_def countBusy_def
    by (auto simp: wp_simps Let_def row_of_def assms intro!: sameOwner_wp)
      (erule inv_new_pair [rotated 3], simp_all add: assms may_pairI)
qed

text \<open>The peers an adoption goes through: bound to a network of the account, and not the device itself.\<close>

lemma set_insert_peer [simp]: "set (insert_peer p qs) = insert p (set qs)"
  by (induction qs) auto

lemma set_peer_rows:
  "(net, x) \<in> set (peer_rows deviceID userID d) \<Longrightarrow> x \<noteq> deviceID \<and> bound d net deviceID \<and> bound d net x"
proof -
  have "set (foldr insert_peer qs []) = set qs" for qs by (induction qs) auto
  then show "(net, x) \<in> set (peer_rows deviceID userID d) \<Longrightarrow> x \<noteq> deviceID \<and> bound d net deviceID \<and> bound d net x"
    unfolding peer_rows_def set_remdups select_simps bound_def
    by (simp only: set_remdups select_simps) (elim bexE conjE; simp only: prod.inject; metis)
qed

lemma adoptAll_keeps:
  "db_inv (st_db s) \<Longrightarrow> \<forall>p \<in> set peers. snd p \<noteq> deviceID \<Longrightarrow>
   db_inv (st_db (snd (adoptAll rnds deviceID now peers adopted s)))"
proof (induction rnds deviceID now peers adopted arbitrary: s rule: adoptAll.induct)
  case (2 rnds deviceID now networkID peer peers adopted)
  let ?a = "adopt (rnds 0) deviceID peer networkID now"
  obtain r t where rt: "?a s = (r, t)" by fastforce
  have "db_inv (st_db t)"
    using adopt_keeps [OF "2.prems"(1), of deviceID peer] "2.prems"(2) rt by (metis list.set_intros(1) snd_conv)
  with "2.IH" [where s = t] "2.prems"(2) rt show ?case by (simp add: bnd_def attempt_def)
qed (simp add: ret_def)

lemma AdoptNetwork_keeps:
  fixes s :: "'z store_scheme"
  assumes "db_inv (st_db s)"
  shows "db_inv (st_db (snd (AdoptNetwork rnds deviceID now s)))"
proof (rule keeps_wp)
  have "wp (adoptAll rnds deviceID now (peer_rows deviceID userID (st_db s)) []) (\<lambda>_ t. db_inv (st_db t))
      (\<lambda>_ t. db_inv (st_db t)) t" if "st_db t = st_db s" for userID and t :: "'z store_scheme"
    by (rule wp_keeps, rule adoptAll_keeps) (use assms that in \<open>auto dest: set_peer_rows\<close>)
  then show "wp (AdoptNetwork rnds deviceID now) (\<lambda>_ t. db_inv (st_db t)) (\<lambda>_ t. db_inv (st_db t)) s"
    unfolding AdoptNetwork_def by (auto simp: wp_simps assms)
qed

text \<open>An action moves a pair along its life: approval and rejection answer an invitation, the
  confirmation an approval, and only an active pair is revoked.\<close>

definition step_of :: "pair_state \<Rightarrow> pair_state \<Rightarrow> bool" where
  "step_of a b \<longleftrightarrow> (a, b) \<in> {(Invited, Approved), (Invited, Rejected), (Approved, Active), (Active, Revoked)}"

lemma step_of_less: "step_of a b \<Longrightarrow> a < b"
  by (auto simp: step_of_def less_pair_state_def)

lemma step_of_live: "step_of a b \<Longrightarrow> live a"
  by (auto simp: step_of_def)

lemma nextState_wp:
  assumes "\<And>t st. st_db t = st_db s \<Longrightarrow> step_of (pr_State pair) st \<Longrightarrow> Q st t" "\<And>e t. st_db t = st_db s \<Longrightarrow> E e t"
  shows "wp (nextState C deviceID pair action fingerprint) Q E s"
  unfolding nextState_def using assms by (auto simp: wp_simps step_of_def)

lemma getPair_wp:
  fixes s :: "'z store_scheme"
  assumes "\<And>t p. st_db t = st_db s \<Longrightarrow> p \<in> set (pairs (st_db s)) \<Longrightarrow> p_id p = pairID \<Longrightarrow>
      p_initiator p = deviceID \<or> p_target p = deviceID \<Longrightarrow> Q (pair_of p) t"
    and "\<And>e t. st_db t = st_db s \<Longrightarrow> E e t"
  shows "wp (getPair deviceID pairID) Q E s"
proof -
  let ?ps = "map pair_of (filter (\<lambda>p. p_initiator p = deviceID \<or> p_target p = deviceID) (pairs (st_db s)))"
  have "Q x t" if "find (\<lambda>p. pr_ID p = pairID) ?ps = Some x" "st_db t = st_db s" for x and t :: "'z store_scheme"
  proof -
    note found = find_SomeD [OF that(1)] and same = that(2)
    obtain p where "x = pair_of p" "p \<in> set (pairs (st_db s))" "p_initiator p = deviceID \<or> p_target p = deviceID"
        "p_id p = pairID"
      using found by (auto simp: pair_of_def)
    with assms(1) [OF same] show ?thesis by blast
  qed
  then show ?thesis
    unfolding getPair_def Pairs_def using assms(2) by (auto simp: wp_simps split: option.splits)
qed

lemma upd_moves_keeps:
  assumes "db_inv d" "step_of (pr_State pair) st"
  shows "db_inv (fst (upd_pairs (moves d pair) (set_state st) d))"
  by (rule inv_upd_pairs [OF assms(1)]) (use step_of_live [OF assms(2)] in \<open>simp add: moves_def\<close>)

lemma ActOnPair_keeps:
  assumes "db_inv (st_db s)"
  shows "db_inv (st_db (snd (ActOnPair C deviceID pairID action fingerprint now s)))"
proof (rule keeps_wp)
  show "wp (ActOnPair C deviceID pairID action fingerprint now) (\<lambda>_ t. db_inv (st_db t)) (\<lambda>_ t. db_inv (st_db t)) s"
    unfolding ActOnPair_def authorizePair_def
    by (auto simp: wp_simps assms upd_moves_keeps intro!: getPair_wp sameOwner_wp nextState_wp)
qed

lemma ActOnPair_advances: "advances (st_db s) (st_db (snd (ActOnPair C deviceID pairID action fingerprint now s)))"
proof -
  have upd: "advances d (fst (upd_pairs (moves d pair) (set_state st) d))" if "step_of (pr_State pair) st" for d pair st
    using step_of_less [OF that] by (intro advances_upd) (auto simp: moves_def)
  have "wp (ActOnPair C deviceID pairID action fingerprint now) (\<lambda>_ t. advances (st_db s) (st_db t))
      (\<lambda>_ t. advances (st_db s) (st_db t)) s"
    unfolding ActOnPair_def authorizePair_def
    by (auto simp: wp_simps upd intro!: getPair_wp sameOwner_wp nextState_wp)
  then show ?thesis by (auto simp: wp_def split: prod.splits sum.splits)
qed

interpretation mintShare: keeping "mintShare C rnd i networkID now" for C rnd i networkID now
  by unfold_locales (rule mintShare_keeps)

interpretation Invite: keeping "Invite C rnd sender share now" for C rnd sender share now
  by unfold_locales (rule Invite_keeps)

interpretation AdoptNetwork: keeping "AdoptNetwork rnds deviceID now" for rnds deviceID now
  by unfold_locales (rule AdoptNetwork_keeps)

interpretation ActOnPair: keeping "ActOnPair C deviceID pairID action fingerprint now" for C deviceID pairID action fingerprint now
  by unfold_locales (rule ActOnPair_keeps)

interpretation ActOnPair: advancing "ActOnPair C deviceID pairID action fingerprint now"
  for C deviceID pairID action fingerprint now
  by unfold_locales (rule ActOnPair_advances)

end
