(* ===== verification/Sessions.thy ===== *)
theory Sessions
  imports Pairing "HOL-Library.AList"
begin

text \<open>
  Presence and connection attempts (\<open>internal/coordinator/sessions.go\<close>).  \<open>Sessions\<close> holds the
  store and three maps under one mutex; the record extends the store, and each operation is one
  action, which is what the mutex makes of it.  (\<open>Heartbeat\<close> asks the database before it takes the
  mutex and again after it gave it back; its part under the mutex is \<open>markPresence\<close>.)

  A map with a default, as Go reads a missing key, is a function; the attempts, over which the
  code iterates, are an association list with distinct keys.
\<close>

section \<open>State\<close>

record attempt_state =
  at_lease :: Lease
  at_sequence :: "string \<Rightarrow> nat"
  at_sdpHash :: "string \<Rightarrow> string"
  at_messageIDs :: "string \<Rightarrow> bool"
  at_messageCount :: nat

record sessions = store +
  ss_attempts :: "(string \<times> attempt_state) list"
  ss_presence :: "string \<rightharpoonup> time"
  ss_seenSaved :: "string \<rightharpoonup> time"

type_synonym 'a sact = "(unit sessions_ext, 'a) act"

definition NewSessions :: "store \<Rightarrow> sessions" where
  "NewSessions s = store.extend s (sessions.fields [] Map.empty Map.empty)"

section \<open>Presence\<close>

definition persistedSeenInterval :: time where
  "persistedSeenInterval = minute"

definition presenceSeparator :: string where
  "presenceSeparator = [CHR 0x00]"

definition presenceKey :: "string \<Rightarrow> string \<Rightarrow> string" where
  "presenceKey deviceID userID = deviceID @ presenceSeparator @ userID"

text \<open>The part of \<open>Heartbeat\<close> under the mutex: whether the last-seen time is due to be written.\<close>

definition markPresence :: "string \<Rightarrow> string \<Rightarrow> time \<Rightarrow> bool sact" where
  "markPresence i userID now = withStore (\<lambda>s.
     let due = (case ss_seenSaved s i of None \<Rightarrow> True | Some saved \<Rightarrow> \<not> after (saved + persistedSeenInterval) now) in
     bnd (modify (\<lambda>s. s\<lparr>ss_presence := (if userID \<noteq> [] then (ss_presence s)(presenceKey i userID \<mapsto> now) else ss_presence s),
                        ss_seenSaved := (if due then (ss_seenSaved s)(i \<mapsto> now) else ss_seenSaved s)\<rparr>))
       (\<lambda>_. ret due))"

definition Heartbeat :: "string \<Rightarrow> string \<Rightarrow> DeviceTelemetry \<Rightarrow> time \<Rightarrow> unit sact" where
  "Heartbeat i userID telemetry now =
     bnd (Device_of i)
       (\<lambda>_. bnd (if userID \<noteq> [] then deviceLinkedTo i userID else ret True)
       (\<lambda>linked. guard linked ''p2p.device_unauthorized''
       (bnd (markPresence i userID now)
       (\<lambda>due. if \<not> due then ret ()
          else bnd (attempt (RecordDeviceSeen i telemetry now)) (\<lambda>_. ret ())))))"

definition Offline :: "string \<Rightarrow> string \<Rightarrow> unit sact" where
  "Offline i userID = modify (\<lambda>s. s\<lparr>
     ss_presence := (if userID = []
        then (\<lambda>key. if take (length (i @ presenceSeparator)) key = i @ presenceSeparator then None else ss_presence s key)
        else (ss_presence s)(presenceKey i userID := None)),
     ss_seenSaved := (ss_seenSaved s)(i := None)\<rparr>)"

definition Presence :: "sessions \<Rightarrow> string \<Rightarrow> string \<Rightarrow> time \<Rightarrow> string" where
  "Presence s i userID now = (case ss_presence s (presenceKey i userID) of
     None \<Rightarrow> ''offline''
   | Some at \<Rightarrow> if \<not> after (at + 30 * second) now then ''stale'' else ''online'')"

section \<open>Attempts\<close>

definition signLease :: "crypto \<Rightarrow> 'z store_scheme \<Rightarrow> Lease \<Rightarrow> Lease" where
  "signLease C s lease = lease\<lparr>lse_Signature := b64_encode (ed_sign C (st_key s) (Lease_SigningBytes lease))\<rparr>"

text \<open>One round of the loop over both ends: the device is active and reported to its account.\<close>

definition checkEnd :: "string \<Rightarrow> time \<Rightarrow> unit sact" where
  "checkEnd i now =
     bnd (Device_of i)
       (\<lambda>device. withStore (\<lambda>s.
          guard (after ((case ss_presence s (presenceKey i (dev_UserID device)) of None \<Rightarrow> zero_time | Some at \<Rightarrow> at)
                        + 30 * second) now) ''p2p.peer_offline'' (ret ())))"

definition dropExpired :: "time \<Rightarrow> (string \<times> attempt_state) list \<Rightarrow> (string \<times> attempt_state) list" where
  "dropExpired now = filter (\<lambda>(i, current). \<not> lse_ExpiresAt (at_lease current) \<le> unix now)"

definition same_link :: "string \<Rightarrow> string \<Rightarrow> Lease \<Rightarrow> bool" where
  "same_link a b link \<longleftrightarrow> (lse_FromDeviceID link = a \<and> lse_ToDeviceID link = b)
     \<or> (lse_FromDeviceID link = b \<and> lse_ToDeviceID link = a)"

definition connection_busy :: "string \<Rightarrow> string \<Rightarrow> (string \<times> attempt_state) list \<Rightarrow> bool" where
  "connection_busy sender target attempts \<longleftrightarrow>
     map_of attempts target \<noteq> None \<or> list_ex (\<lambda>(_, current). same_link sender target (at_lease current)) attempts"

definition new_attempt :: "Lease \<Rightarrow> attempt_state" where
  "new_attempt lease = \<lparr>at_lease = lease, at_sequence = (\<lambda>_. 0), at_sdpHash = (\<lambda>_. []),
     at_messageIDs = (\<lambda>_. False), at_messageCount = 0\<rparr>"

definition new_lease ::
  "crypto \<Rightarrow> 'z store_scheme \<Rightarrow> bytes \<Rightarrow> Device \<Rightarrow> string \<Rightarrow> string \<Rightarrow> string \<Rightarrow> nat \<Rightarrow> time \<Rightarrow> Lease" where
  "new_lease C s rnd device networkID sender target generation now = signLease C s
     \<lparr>lse_Version = Version, lse_ServiceID = st_serviceID s, lse_UserID = dev_UserID device,
      lse_NetworkID = networkID, lse_PairID = target, lse_AttemptID = NewID rnd, lse_FromDeviceID = sender,
      lse_ToDeviceID = target, lse_Generation = generation, lse_Revision = 1,
      lse_ExpiresAt = unix (now + minute), lse_Permission = ''dsh-session'', lse_Signature = []\<rparr>"

definition Begin ::
  "crypto \<Rightarrow> (string list \<Rightarrow> string list) \<Rightarrow> bytes \<Rightarrow> string \<Rightarrow> string \<Rightarrow> nat \<Rightarrow> time \<Rightarrow> Lease sact" where
  "Begin C pick rnd sender target generation now =
     guard (ValidID target \<and> target \<noteq> sender) ''p2p.invalid_request''
     (bnd (sameNetwork sender target)
        (\<lambda>same. guard same ''p2p.pair_unauthorized''
        (guard (generation \<noteq> 0 \<and> safe_integer generation) ''p2p.invalid_generation''
        (bnd (checkEnd sender now)
        (\<lambda>_. bnd (checkEnd target now)
        (\<lambda>_. bnd (modify (\<lambda>s. s\<lparr>ss_attempts := dropExpired now (ss_attempts s)\<rparr>))
        (\<lambda>_. withStore (\<lambda>s. guard (\<not> connection_busy sender target (ss_attempts s)) ''p2p.connection_busy''
        (bnd (Device_of sender)
        (\<lambda>device. bnd (sharedNetworkID pick sender target)
        (\<lambda>networkID. withStore (\<lambda>s.
           let lease = new_lease C s rnd device networkID sender target generation now in
           bnd (modify (\<lambda>s. s\<lparr>ss_attempts := AList.update target (new_attempt lease) (ss_attempts s)\<rparr>))
             (\<lambda>_. ret lease)))))))))))))"

definition authorize :: "string \<Rightarrow> string \<Rightarrow> string \<Rightarrow> time \<Rightarrow> attempt_state sact" where
  "authorize sender pairID attemptID now = withStore (\<lambda>s.
     case map_of (ss_attempts s) pairID of
       None \<Rightarrow> throw (P2p ''p2p.lease_expired'')
     | Some current \<Rightarrow>
         guard (lse_AttemptID (at_lease current) = attemptID \<and> \<not> lse_ExpiresAt (at_lease current) \<le> unix now)
           ''p2p.lease_expired''
         (bnd (sameNetwork sender pairID)
            (\<lambda>same. guard same ''p2p.pair_revoked''
            (bnd (Device_of (lse_FromDeviceID (at_lease current)))
            (\<lambda>_. bnd (Device_of (lse_ToDeviceID (at_lease current)))
            (\<lambda>_. ret current))))))"

definition RenewLease :: "crypto \<Rightarrow> string \<Rightarrow> string \<Rightarrow> string \<Rightarrow> time \<Rightarrow> Lease sact" where
  "RenewLease C sender pairID attemptID now =
     bnd (authorize sender pairID attemptID now)
       (\<lambda>current. withStore (\<lambda>s.
          let lease = signLease C s ((at_lease current)\<lparr>lse_ExpiresAt := unix (now + minute)\<rparr>) in
          bnd (modify (\<lambda>s. s\<lparr>ss_attempts := AList.update pairID (current\<lparr>at_lease := lease\<rparr>) (ss_attempts s)\<rparr>))
            (\<lambda>_. ret lease)))"

definition End :: "string \<Rightarrow> string \<Rightarrow> string \<Rightarrow> unit sact" where
  "End sender pairID attemptID = withStore (\<lambda>s.
     guard (case map_of (ss_attempts s) pairID of
              None \<Rightarrow> False
            | Some current \<Rightarrow> lse_AttemptID (at_lease current) = attemptID
                \<and> \<not> (lse_FromDeviceID (at_lease current) \<noteq> sender \<and> lse_ToDeviceID (at_lease current) \<noteq> sender))
       ''p2p.attempt_not_found''
     (modify (\<lambda>s. s\<lparr>ss_attempts := AList.delete pairID (ss_attempts s)\<rparr>)))"

text \<open>\<open>admitSDP\<close>: it returns the attempt it has changed.\<close>

definition admitSDP :: "crypto \<Rightarrow> attempt_state \<Rightarrow> string \<Rightarrow> Signal \<Rightarrow> err + attempt_state" where
  "admitSDP C current sender signal =
     (case b64_decode (sig_Payload signal) of
        None \<Rightarrow> Inl (P2p ''p2p.invalid_payload'')
      | Some body \<Rightarrow>
          if sig_Type signal = ''offer'' \<or> sig_Type signal = ''answer'' then
            (if at_sdpHash current sender \<noteq> [] \<or>
                (sig_Type signal = ''offer'') \<noteq> (sender = lse_FromDeviceID (at_lease current))
             then Inl (P2p ''p2p.signal_state_conflict'')
             else if sig_Type signal = ''answer'' \<and> at_sdpHash current (lse_FromDeviceID (at_lease current)) = []
             then Inl (P2p ''p2p.signal_state_conflict'')
             else case decodeSDP body of
               Inl e \<Rightarrow> Inl e
             | Inr sdp \<Rightarrow> Inr (current\<lparr>at_sdpHash := (at_sdpHash current)(sender := digest C sdp)\<rparr>))
          else case decodeCandidate body of
            Inl e \<Rightarrow> Inl e
          | Inr payload \<Rightarrow>
              if at_sdpHash current sender = [] \<or> at_sdpHash current sender \<noteq> can_SDPHash payload
              then Inl (P2p ''p2p.sdp_binding_mismatch'') else Inr current)"

definition scope_of :: "attempt_state \<Rightarrow> string \<Rightarrow> Signal \<Rightarrow> SignalScope" where
  "scope_of current sender signal =
     (let lease = at_lease current;
          target = (if lse_ToDeviceID lease = sender then lse_FromDeviceID lease else lse_ToDeviceID lease) in
      \<lparr>sc_AttemptID = lse_AttemptID lease, sc_FromDeviceID = sender, sc_ToDeviceID = target,
       sc_PairID = sig_PairID signal, sc_Generation = lse_Generation lease,
       sc_NextSequence = at_sequence current sender + 1\<rparr>)"

definition lift :: "err + 'a \<Rightarrow> 'a sact" where
  "lift r = (case r of Inl e \<Rightarrow> throw e | Inr x \<Rightarrow> ret x)"

definition Admit :: "crypto \<Rightarrow> string \<Rightarrow> Signal \<Rightarrow> time \<Rightarrow> unit sact" where
  "Admit C sender signal now =
     bnd (authorize sender (sig_PairID signal) (sig_AttemptID signal) now)
       (\<lambda>current. bnd (Device_of sender)
       (\<lambda>device. bnd (lift (Signal_Verify C signal (dev_PublicKey device) (scope_of current sender signal) now))
       (\<lambda>_. guard (\<not> at_messageIDs current (sig_MessageID signal) \<and> at_messageCount current < 512) ''p2p.signal_limit''
       (bnd (lift (admitSDP C current sender signal))
       (\<lambda>changed. modify (\<lambda>s. s\<lparr>ss_attempts := AList.update (sig_PairID signal)
            (changed\<lparr>at_sequence := (at_sequence changed)(sender := sig_Sequence signal),
                     at_messageIDs := (at_messageIDs changed)(sig_MessageID signal := True),
                     at_messageCount := at_messageCount changed + 1\<rparr>) (ss_attempts s)\<rparr>))))))"

section \<open>Actions that only take from the fault schedule\<close>

definition ticked :: "'z store_scheme \<Rightarrow> 'z store_scheme \<Rightarrow> bool" where
  "ticked s t \<longleftrightarrow> (\<exists>fs. t = s\<lparr>st_faults := fs\<rparr>)"

lemma ticked_refl [simp]: "ticked s s"
  by (metis ticked_def store.surjective store.update_convs(2))

lemma ticked_tick [simp]: "ticked s (tick t) \<longleftrightarrow> ticked s t"
  unfolding ticked_def tick_def
proof
  assume "\<exists>fs. t\<lparr>st_faults := tl (st_faults t)\<rparr> = s\<lparr>st_faults := fs\<rparr>"
  then obtain fs where "t\<lparr>st_faults := tl (st_faults t)\<rparr> = s\<lparr>st_faults := fs\<rparr>" ..
  then have "t\<lparr>st_faults := tl (st_faults t), st_faults := st_faults t\<rparr> = s\<lparr>st_faults := fs, st_faults := st_faults t\<rparr>"
    by simp
  then have "t = s\<lparr>st_faults := st_faults t\<rparr>" by simp
  then show "\<exists>fs. t = s\<lparr>st_faults := fs\<rparr>" ..
qed auto

lemma tick_sessions [simp]:
  "ss_attempts (tick s) = ss_attempts s" "ss_presence (tick s) = ss_presence s"
  "ss_seenSaved (tick s) = ss_seenSaved s"
  by (simp_all add: tick_def)

lemma tickedD:
  assumes "ticked s (t :: sessions)"
  shows "st_db t = st_db s" "ss_attempts t = ss_attempts s" "ss_presence t = ss_presence s"
    "ss_seenSaved t = ss_seenSaved s" "st_key t = st_key s" "st_serviceID t = st_serviceID s" "st_CA t = st_CA s"
  using assms by (auto simp: ticked_def)

lemma sameNetwork_wp:
  assumes "\<And>t. ticked s t \<Longrightarrow> shared_rows a b (st_db s) \<noteq> [] \<Longrightarrow> Q True t" "\<And>t. ticked s t \<Longrightarrow> Q False t"
  shows "wp (sameNetwork a b) Q E s"
  unfolding sameNetwork_def using assms by (cases "shared_rows a b (st_db s) = []") (auto simp: wp_simps)

lemma Device_of_wp:
  assumes "\<And>t x. ticked s t \<Longrightarrow> x \<in> set (device_rows i (st_db s)) \<Longrightarrow> Q x t" "\<And>e t. ticked s t \<Longrightarrow> E e t"
  shows "wp (Device_of i) Q E s"
  using assms by (auto simp: wp_simps dest: hd_in)

lemma ticked_trans [trans]: "ticked s t \<Longrightarrow> ticked t u \<Longrightarrow> ticked s u"
  by (auto simp: ticked_def)

lemma ticked_db: "ticked s t \<Longrightarrow> st_db t = st_db s"
  by (auto simp: ticked_def)

lemma authorize_wp:
  assumes ok: "\<And>t current. ticked s t \<Longrightarrow> map_of (ss_attempts s) pairID = Some current \<Longrightarrow>
      lse_AttemptID (at_lease current) = attemptID \<Longrightarrow> unix now < lse_ExpiresAt (at_lease current) \<Longrightarrow>
      shared_rows sender pairID (st_db s) \<noteq> [] \<Longrightarrow>
      device_rows (lse_FromDeviceID (at_lease current)) (st_db s) \<noteq> [] \<Longrightarrow>
      device_rows (lse_ToDeviceID (at_lease current)) (st_db s) \<noteq> [] \<Longrightarrow> Q current t"
    and err: "\<And>e t. ticked s t \<Longrightarrow> E e t"
  shows "wp (authorize sender pairID attemptID now) Q E s"
proof (cases "map_of (ss_attempts s) pairID")
  case None
  then show ?thesis by (simp add: authorize_def wp_simps err)
next
  case (Some current)
  show ?thesis
    unfolding authorize_def
    by (simp add: wp_simps Some err, intro impI sameNetwork_wp)
      (auto simp: wp_simps err ticked_db intro!: ok Some)
qed

section \<open>The invariant of the attempts\<close>

definition attempt_ok :: "string \<Rightarrow> attempt_state \<Rightarrow> bool" where
  "attempt_ok k a \<longleftrightarrow> (let l = at_lease a in
     lse_PairID l = k \<and> lse_ToDeviceID l = k \<and> lse_FromDeviceID l \<noteq> k \<and> ValidID k
     \<and> 1 \<le> lse_Generation l \<and> lse_Generation l \<le> 2 ^ 53 - 1 \<and> lse_Revision l = 1 \<and> lse_Version l = Version
     \<and> lse_Permission l = ''dsh-session''
     \<and> at_messageCount a \<le> 512 \<and> finite {m. at_messageIDs a m} \<and> card {m. at_messageIDs a m} = at_messageCount a
     \<and> (\<forall>x. at_sdpHash a x \<noteq> [] \<longrightarrow> at_sdpHash a (lse_FromDeviceID l) \<noteq> []))"

text \<open>No two attempts are over the same link, in either direction.\<close>

definition one_link :: "(string \<times> attempt_state) list \<Rightarrow> bool" where
  "one_link as \<longleftrightarrow> (\<forall>k a j b. map_of as k = Some a \<longrightarrow> map_of as j = Some b \<longrightarrow>
     same_link (lse_FromDeviceID (at_lease a)) (lse_ToDeviceID (at_lease a)) (at_lease b) \<longrightarrow> j = k)"

definition attempts_inv :: "(string \<times> attempt_state) list \<Rightarrow> bool" where
  "attempts_inv as \<longleftrightarrow> distinct (map fst as) \<and> (\<forall>k a. map_of as k = Some a \<longrightarrow> attempt_ok k a) \<and> one_link as"

lemma attempts_invD:
  "attempts_inv as \<Longrightarrow> distinct (map fst as)"
  "attempts_inv as \<Longrightarrow> map_of as k = Some a \<Longrightarrow> attempt_ok k a"
  "attempts_inv as \<Longrightarrow> one_link as"
  by (simp_all add: attempts_inv_def)

lemma attempts_inv_sub:
  assumes "attempts_inv as" "distinct (map fst bs)" "\<And>k a. map_of bs k = Some a \<Longrightarrow> map_of as k = Some a"
  shows "attempts_inv bs"
  using assms unfolding attempts_inv_def one_link_def by metis

lemma dropExpired_sub:
  assumes "distinct (map fst as)"
  shows "distinct (map fst (dropExpired now as))" "map_of (dropExpired now as) k = Some a \<Longrightarrow> map_of as k = Some a"
proof -
  show "distinct (map fst (dropExpired now as))" unfolding dropExpired_def using assms by (rule distinct_map_filter)
  assume "map_of (dropExpired now as) k = Some a"
  then have "(k, a) \<in> set (dropExpired now as)" by (rule map_of_SomeD)
  then show "map_of as k = Some a" using assms by (simp add: dropExpired_def)
qed

lemma attempts_inv_dropExpired: "attempts_inv as \<Longrightarrow> attempts_inv (dropExpired now as)"
  using attempts_inv_sub dropExpired_sub attempts_invD(1) by metis

lemma attempts_inv_delete: "attempts_inv as \<Longrightarrow> attempts_inv (AList.delete k as)"
  by (rule attempts_inv_sub)
    (auto simp: attempts_inv_def delete_conv' distinct_delete split: if_splits)

text \<open>Changing an attempt without changing its link.\<close>

lemma attempts_inv_change:
  assumes inv: "attempts_inv as" and k: "map_of as k = Some a" and ok: "attempt_ok k b"
    and link: "lse_FromDeviceID (at_lease b) = lse_FromDeviceID (at_lease a)"
      "lse_ToDeviceID (at_lease b) = lse_ToDeviceID (at_lease a)"
  shows "attempts_inv (AList.update k b as)"
proof -
  note one = attempts_invD(3) [OF inv, unfolded one_link_def, rule_format]
  have orig: "\<exists>c'. map_of as i = Some c' \<and> lse_FromDeviceID (at_lease c') = lse_FromDeviceID (at_lease c)
      \<and> lse_ToDeviceID (at_lease c') = lse_ToDeviceID (at_lease c)" if "((map_of as)(k \<mapsto> b)) i = Some c" for i c
    using that k link by (cases "i = k") auto
  have "one_link (AList.update k b as)"
    unfolding one_link_def update_conv'
  proof (intro allI impI)
    fix i c j d
    assume "((map_of as)(k \<mapsto> b)) i = Some c" "((map_of as)(k \<mapsto> b)) j = Some d"
      "same_link (lse_FromDeviceID (at_lease c)) (lse_ToDeviceID (at_lease c)) (at_lease d)"
    moreover obtain c' where "map_of as i = Some c'" "lse_FromDeviceID (at_lease c') = lse_FromDeviceID (at_lease c)"
      "lse_ToDeviceID (at_lease c') = lse_ToDeviceID (at_lease c)"
      using orig [OF calculation(1)] by blast
    moreover obtain d' where "map_of as j = Some d'" "lse_FromDeviceID (at_lease d') = lse_FromDeviceID (at_lease d)"
      "lse_ToDeviceID (at_lease d') = lse_ToDeviceID (at_lease d)"
      using orig [OF calculation(2)] by blast
    ultimately show "j = i" using one [of i c' j d'] by (simp add: same_link_def)
  qed
  then show ?thesis
    using inv ok by (auto simp: attempts_inv_def update_conv' distinct_update)
qed

text \<open>A new attempt over a link that is not busy.\<close>

lemma attempts_inv_new:
  assumes inv: "attempts_inv as" and free: "\<not> connection_busy x y as" and ok: "attempt_ok y b"
    and link: "lse_FromDeviceID (at_lease b) = x" "lse_ToDeviceID (at_lease b) = y"
  shows "attempts_inv (AList.update y b as)"
proof -
  note one = attempts_invD(3) [OF inv, unfolded one_link_def, rule_format]
  have none: "\<not> same_link x y (at_lease c)" if "map_of as i = Some c" for i c
    using free map_of_SomeD [OF that] by (auto simp: connection_busy_def list_ex_iff)
  have none': "\<not> same_link (lse_FromDeviceID (at_lease c)) (lse_ToDeviceID (at_lease c)) (at_lease b)"
    if "map_of as i = Some c" for i c
    using none [OF that] link by (auto simp: same_link_def)
  have "one_link (AList.update y b as)"
    unfolding one_link_def update_conv'
  proof (intro allI impI)
    fix i c j d
    assume "((map_of as)(y \<mapsto> b)) i = Some c" "((map_of as)(y \<mapsto> b)) j = Some d"
      "same_link (lse_FromDeviceID (at_lease c)) (lse_ToDeviceID (at_lease c)) (at_lease d)"
    then have "map_of as i = Some c \<and> map_of as j = Some d \<or> i = y \<and> j = y \<or> i = y \<and> c = b \<and> map_of as j = Some d
        \<or> map_of as i = Some c \<and> j = y \<and> d = b"
      by (auto split: if_splits)
    with one none none' link \<open>same_link _ _ (at_lease d)\<close> show "j = i" by metis
  qed
  then show ?thesis
    using inv ok by (auto simp: attempts_inv_def update_conv' distinct_update)
qed

lemma sess_keepsI:
  "wp m (\<lambda>_ t. attempts_inv (ss_attempts t)) (\<lambda>_ t. attempts_inv (ss_attempts t)) s \<Longrightarrow> attempts_inv (ss_attempts (snd (m s)))"
  by (auto simp: wp_def split: prod.splits sum.splits)

lemma new_lease_simps [simp]:
  "lse_Version (new_lease C s rnd dev net x y g now) = Version"
  "lse_ServiceID (new_lease C s rnd dev net x y g now) = st_serviceID s"
  "lse_UserID (new_lease C s rnd dev net x y g now) = dev_UserID dev"
  "lse_NetworkID (new_lease C s rnd dev net x y g now) = net"
  "lse_PairID (new_lease C s rnd dev net x y g now) = y"
  "lse_AttemptID (new_lease C s rnd dev net x y g now) = NewID rnd"
  "lse_FromDeviceID (new_lease C s rnd dev net x y g now) = x"
  "lse_ToDeviceID (new_lease C s rnd dev net x y g now) = y"
  "lse_Generation (new_lease C s rnd dev net x y g now) = g"
  "lse_Revision (new_lease C s rnd dev net x y g now) = 1"
  "lse_ExpiresAt (new_lease C s rnd dev net x y g now) = unix (now + minute)"
  "lse_Permission (new_lease C s rnd dev net x y g now) = ''dsh-session''"
  by (simp_all add: new_lease_def signLease_def)

lemma new_attempt_ok:
  "ValidID y \<Longrightarrow> x \<noteq> y \<Longrightarrow> g \<noteq> 0 \<Longrightarrow> g \<le> 2 ^ 53 - 1 \<Longrightarrow>
   attempt_ok y (new_attempt (new_lease C s rnd dev net x y g now))"
  by (simp add: attempt_ok_def new_attempt_def Let_def)

lemma attempts_inv_begin:
  assumes "attempts_inv as" "\<not> connection_busy x y as" "ValidID y" "y \<noteq> x" "0 < g" "g \<le> 2 ^ 53 - 1"
  shows "attempts_inv (AList.update y (new_attempt (new_lease C s rnd dev net x y g now)) as)"
  by (rule attempts_inv_new [OF assms(1,2) new_attempt_ok]) (use assms in \<open>auto simp: new_attempt_def\<close>)

lemma checkEnd_wp:
  assumes "\<And>t. ticked s t \<Longrightarrow> Q () t" "\<And>e t. ticked s t \<Longrightarrow> E e t"
  shows "wp (checkEnd i now) Q E s"
  unfolding checkEnd_def using assms by (auto simp: wp_simps)

lemma sharedNetworkID_wp:
  assumes "\<And>t net. ticked s t \<Longrightarrow> net \<in> set (pick (shared_rows a b (st_db s))) \<Longrightarrow> Q net t" "\<And>e t. ticked s t \<Longrightarrow> E e t"
  shows "wp (sharedNetworkID pick a b) Q E s"
  unfolding sharedNetworkID_def using assms by (auto simp: wp_simps dest: hd_in)

lemma Begin_attempts:
  assumes "attempts_inv (ss_attempts s)"
  shows "attempts_inv (ss_attempts (snd (Begin C pick rnd sender target generation now s)))"
proof (rule sess_keepsI)
  have drop: "attempts_inv (dropExpired now (ss_attempts s))" by (rule attempts_inv_dropExpired [OF assms])
  show "wp (Begin C pick rnd sender target generation now) (\<lambda>_ t. attempts_inv (ss_attempts t))
      (\<lambda>_ t. attempts_inv (ss_attempts t)) s"
    unfolding Begin_def safe_integer_def
    by (auto simp: wp_simps assms drop Let_def tickedD
        intro!: sameNetwork_wp checkEnd_wp Device_of_wp sharedNetworkID_wp attempts_inv_begin)
qed

lemma attempt_ok_lease:
  "attempt_ok k a \<Longrightarrow> attempt_ok k (a\<lparr>at_lease := signLease C s ((at_lease a)\<lparr>lse_ExpiresAt := e\<rparr>)\<rparr>)"
  by (simp add: attempt_ok_def Let_def signLease_def)

lemma RenewLease_attempts:
  assumes "attempts_inv (ss_attempts s)"
  shows "attempts_inv (ss_attempts (snd (RenewLease C sender pairID attemptID now s)))"
proof (rule sess_keepsI)
  have change: "attempts_inv (AList.update pairID (a\<lparr>at_lease := signLease C u ((at_lease a)\<lparr>lse_ExpiresAt := e\<rparr>)\<rparr>) (ss_attempts s))"
    if "map_of (ss_attempts s) pairID = Some a" for a e and u :: sessions
    by (rule attempts_inv_change [OF assms that attempt_ok_lease])
      (use attempts_invD(2) [OF assms that] in \<open>simp_all add: signLease_def\<close>)
  show "wp (RenewLease C sender pairID attemptID now) (\<lambda>_ t. attempts_inv (ss_attempts t))
      (\<lambda>_ t. attempts_inv (ss_attempts t)) s"
    unfolding RenewLease_def
    by (auto simp: wp_simps assms Let_def tickedD intro!: authorize_wp change)
qed

lemma End_attempts:
  "attempts_inv (ss_attempts s) \<Longrightarrow> attempts_inv (ss_attempts (snd (End sender pairID attemptID s)))"
  by (rule sess_keepsI) (auto simp: End_def wp_simps intro!: attempts_inv_delete)

text \<open>What an admitted signal does to its attempt.\<close>

definition record_signal :: "attempt_state \<Rightarrow> string \<Rightarrow> Signal \<Rightarrow> attempt_state" where
  "record_signal a sender signal = a\<lparr>at_sequence := (at_sequence a)(sender := sig_Sequence signal),
     at_messageIDs := (at_messageIDs a)(sig_MessageID signal := True), at_messageCount := Suc (at_messageCount a)\<rparr>"

lemma wp_lift [wp_simps]:
  "wp (lift r) Q E s \<longleftrightarrow> (case r of Inl e \<Rightarrow> E e s | Inr x \<Rightarrow> Q x s)"
  by (simp add: lift_def wp_simps split: sum.splits)

lemma Admit_wp:
  assumes ok: "\<And>t a b x. ticked s t \<Longrightarrow> map_of (ss_attempts s) (sig_PairID signal) = Some a \<Longrightarrow>
      lse_AttemptID (at_lease a) = sig_AttemptID signal \<Longrightarrow> unix now < lse_ExpiresAt (at_lease a) \<Longrightarrow>
      x \<in> set (device_rows sender (st_db s)) \<Longrightarrow>
      Signal_Verify C signal (dev_PublicKey x) (scope_of a sender signal) now = Inr () \<Longrightarrow>
      \<not> at_messageIDs a (sig_MessageID signal) \<Longrightarrow> at_messageCount a < 512 \<Longrightarrow>
      admitSDP C a sender signal = Inr b \<Longrightarrow>
      Q () (t\<lparr>ss_attempts := AList.update (sig_PairID signal) (record_signal b sender signal) (ss_attempts s)\<rparr>)"
    and err: "\<And>e t. ticked s t \<Longrightarrow> E e t"
  shows "wp (Admit C sender signal now) Q E s"
proof -
  note ok' = ok [unfolded record_signal_def]
  show ?thesis
    unfolding Admit_def
    by (auto simp: wp_simps tickedD err split: sum.splits
        intro!: authorize_wp ok' dest: hd_in)
qed

lemma admitSDP_link:
  "admitSDP C a sender signal = Inr b \<Longrightarrow>
     at_lease b = at_lease a \<and> at_sequence b = at_sequence a \<and> at_messageIDs b = at_messageIDs a
     \<and> at_messageCount b = at_messageCount a \<and> (\<forall>x. x \<noteq> sender \<longrightarrow> at_sdpHash b x = at_sdpHash a x)"
  by (auto simp: admitSDP_def split: option.splits if_splits sum.splits)

text \<open>An offer comes first: no description is kept before the initiator's.\<close>

lemma admitSDP_offer_first:
  assumes "admitSDP C a sender signal = Inr b"
    and "\<forall>x. at_sdpHash a x \<noteq> [] \<longrightarrow> at_sdpHash a (lse_FromDeviceID (at_lease a)) \<noteq> []"
  shows "\<forall>x. at_sdpHash b x \<noteq> [] \<longrightarrow> at_sdpHash b (lse_FromDeviceID (at_lease b)) \<noteq> []"
  using assms by (auto simp: admitSDP_def split: option.splits if_splits sum.splits)

lemma record_signal_ok:
  assumes "attempt_ok k a" "admitSDP C a sender signal = Inr b" "\<not> at_messageIDs a (sig_MessageID signal)"
    and "at_messageCount a < 512"
  shows "attempt_ok k (record_signal b sender signal)"
proof -
  note link = admitSDP_link [OF assms(2)]
  have "{m. m \<noteq> sig_MessageID signal \<longrightarrow> at_messageIDs a m} = insert (sig_MessageID signal) {m. at_messageIDs a m}"
    by auto
  then show ?thesis
    using assms(1,3,4) link admitSDP_offer_first [OF assms(2)]
    by (simp add: attempt_ok_def record_signal_def Let_def)
qed

lemma Admit_attempts:
  assumes "attempts_inv (ss_attempts s)"
  shows "attempts_inv (ss_attempts (snd (Admit C sender signal now s)))"
proof (rule sess_keepsI, rule Admit_wp)
  fix t a b x
  assume a: "map_of (ss_attempts s) (sig_PairID signal) = Some a"
    and "\<not> at_messageIDs a (sig_MessageID signal)" "at_messageCount a < 512"
    and b: "admitSDP C a sender signal = Inr b"
  then have "attempt_ok (sig_PairID signal) (record_signal b sender signal)"
    by (intro record_signal_ok [OF attempts_invD(2) [OF assms a] b])
  then show "attempts_inv (ss_attempts (t\<lparr>ss_attempts := AList.update (sig_PairID signal)
      (record_signal b sender signal) (ss_attempts s)\<rparr>))"
    using admitSDP_link [OF b] by (simp add: attempts_inv_change [OF assms a] record_signal_def)
qed (simp add: tickedD assms)

text \<open>A signal that was admitted is not admitted again.\<close>

lemma Admit_not_twice:
  assumes "Admit C sender signal now s = (Inr (), t)" "ticked t u"
  shows "fst (Admit C sender signal later u) \<noteq> Inr ()"
proof -
  obtain c where c: "map_of (ss_attempts t) (sig_PairID signal) = Some c"
    "at_sequence c sender = sig_Sequence signal"
  proof -
    have "wp (Admit C sender signal now) (\<lambda>_ t. \<exists>c. map_of (ss_attempts t) (sig_PairID signal) = Some c
        \<and> at_sequence c sender = sig_Sequence signal) (\<lambda>_ _. True) s"
      by (rule Admit_wp) (simp_all add: update_conv' record_signal_def)
    with assms(1) that show ?thesis by (auto simp: wp_def)
  qed
  have "wp (Admit C sender signal later) (\<lambda>_ _. False) (\<lambda>_ _. True) u"
  proof (rule Admit_wp)
    fix a x
    assume "map_of (ss_attempts u) (sig_PairID signal) = Some a"
      "Signal_Verify C signal (dev_PublicKey x) (scope_of a sender signal) later = Inr ()"
    with c tickedD(2) [OF assms(2)] show False by (simp add: Signal_Verify_def scope_of_def Let_def)
  qed simp
  then show ?thesis by (auto simp: wp_def split: prod.splits sum.splits)
qed

end
