(* ===== verification/Evaluation.thy ===== *)
theory Evaluation
  imports Json
begin

text \<open>
  Code equations for the text functions, so that concrete inputs evaluate in the kernel: a
  \<open>char\<close> is eight bits in Isabelle, and the tests and codecs below are computed on the bits
  instead of through natural numbers.  Nothing else depends on this theory than the speed of the
  examples; every equation is proved of the definition it replaces.
\<close>

section \<open>Evaluation on bits\<close>


definition nibble :: "bool \<Rightarrow> bool \<Rightarrow> bool \<Rightarrow> bool \<Rightarrow> nat" where
  "nibble b0 b1 b2 b3 = of_bool b0 + 2 * of_bool b1 + 4 * of_bool b2 + 8 * of_bool b3"

definition nibble_char :: "bool \<Rightarrow> bool \<Rightarrow> bool \<Rightarrow> bool \<Rightarrow> char" where
  "nibble_char b0 b1 b2 b3 =
     (if b3 \<and> (b1 \<or> b2)
      then Char (\<not> b0) (b0 = b1) (b2 \<and> (b1 \<or> b0)) False False True True False
      else Char b0 b1 b2 b3 True True False False)"

lemma byte_of_Char:
  "byte_of (Char b0 b1 b2 b3 b4 b5 b6 b7) = nibble b0 b1 b2 b3 + 16 * nibble b4 b5 b6 b7"
  by (simp add: nibble_def)

lemma nibble_lt: "nibble b0 b1 b2 b3 < 16"
  by (simp add: nibble_def split: if_splits)

lemma high_nibble: "byte_of (Char b0 b1 b2 b3 b4 b5 b6 b7) div 16 = nibble b4 b5 b6 b7"
  using nibble_lt [of b0 b1 b2 b3] unfolding byte_of_Char by simp

lemma low_nibble: "byte_of (Char b0 b1 b2 b3 b4 b5 b6 b7) mod 16 = nibble b0 b1 b2 b3"
  using nibble_lt [of b0 b1 b2 b3] unfolding byte_of_Char by simp

lemma hex_digit_nibble: "hex_digit (nibble b0 b1 b2 b3) = nibble_char b0 b1 b2 b3"
  by (cases b0; cases b1; cases b2; cases b3)
    (simp_all add: nibble_def hex_digit_def nibble_char_def char_of_def bit_iff_odd)

lemma hex_encode_code [code]:
  "hex_encode [] = []"
  "hex_encode (Char b0 b1 b2 b3 b4 b5 b6 b7 # s) =
     nibble_char b4 b5 b6 b7 # nibble_char b0 b1 b2 b3 # hex_encode s"
  by (simp_all add: hex_encode_def high_nibble low_nibble hex_digit_nibble del: of_char_Char)

lemma ascii_code: "byte_of (Char b0 b1 b2 b3 b4 b5 b6 b7) < 128 \<longleftrightarrow> \<not> b7"
  using nibble_lt [of b0 b1 b2 b3] nibble_lt [of b4 b5 b6 b7]
  unfolding byte_of_Char by (auto simp: nibble_def split: if_splits)

lemma lower_hex_code [code]:
  "lower_hex (Char b0 b1 b2 b3 b4 b5 b6 b7) \<longleftrightarrow>
     \<not> b7 \<and> b5 \<and>
     (if b6 then \<not> b4 \<and> \<not> b3 \<and> (b0 \<or> b1 \<or> b2) \<and> \<not> (b0 \<and> b1 \<and> b2)
      else b4 \<and> \<not> (b3 \<and> (b1 \<or> b2)))"
  by (cases b0; cases b1; cases b2; cases b3; cases b4; cases b5; cases b6; cases b7)
    (simp_all add: lower_hex_def Let_def)

text \<open>The text functions on ASCII bytes, which is where the examples use them.\<close>

definition ascii_space :: "char \<Rightarrow> bool" where
  "ascii_space c \<longleftrightarrow> is_space (byte_of c)"

lemma ascii_space_code [code]:
  "ascii_space (Char b0 b1 b2 b3 b4 b5 b6 b7) \<longleftrightarrow>
     (if b7 then byte_of (Char b0 b1 b2 b3 b4 b5 b6 b7) \<in> {0x85, 0xA0}
      else \<not> b6 \<and> \<not> b4 \<and> (if b5 then \<not> b3 \<and> \<not> b2 \<and> \<not> b1 \<and> \<not> b0
        else b3 \<and> (if b2 then \<not> b1 else b1 \<or> b0)))"
  by (cases b0; cases b1; cases b2; cases b3; cases b4; cases b5; cases b6; cases b7)
    (simp_all add: ascii_space_def is_space_def)

lemma valid_utf8_code [code]:
  "valid_utf8 [] = True"
  "valid_utf8 (Char b0 b1 b2 b3 b4 b5 b6 b7 # cs) =
     (let s = Char b0 b1 b2 b3 b4 b5 b6 b7 # cs in
      if \<not> b7 then valid_utf8 cs
      else let (r, w) = decode_rune s in if r = rune_error \<and> w = 1 then False else valid_utf8 (drop w s))"
proof -
  show "valid_utf8 [] = True" by (simp add: valid_utf8.simps)
next
  let ?c = "Char b0 b1 b2 b3 b4 b5 b6 b7"
  show "valid_utf8 (?c # cs) = (let s = ?c # cs in if \<not> b7 then valid_utf8 cs
      else let (r, w) = decode_rune s in if r = rune_error \<and> w = 1 then False else valid_utf8 (drop w s))"
    unfolding valid_utf8.simps [of "?c # cs"]
    using ascii_code [of b0 b1 b2 b3 b4 b5 b6 b7]
    by (cases b7) (simp_all add: decode_rune_def rune_error_def del: of_char_Char)
qed

lemma trim_left_code [code]:
  "trim_left [] = []"
  "trim_left (Char b0 b1 b2 b3 b4 b5 b6 b7 # cs) =
     (let s = Char b0 b1 b2 b3 b4 b5 b6 b7 # cs in
      if \<not> b7 then (if ascii_space (Char b0 b1 b2 b3 b4 b5 b6 b7) then trim_left cs else s)
      else let (r, w) = decode_rune s in if is_space r then trim_left (drop w s) else s)"
proof -
  show "trim_left [] = []" by (simp add: trim_left.simps)
next
  let ?c = "Char b0 b1 b2 b3 b4 b5 b6 b7"
  show "trim_left (?c # cs) = (let s = ?c # cs in
      if \<not> b7 then (if ascii_space ?c then trim_left cs else s)
      else let (r, w) = decode_rune s in if is_space r then trim_left (drop w s) else s)"
    unfolding trim_left.simps [of "?c # cs"]
    by (rule bool.exhaust [of b7]; hypsubst)
      (simp_all add: decode_rune_def ascii_space_def Let_def ascii_code del: of_char_Char)
qed

definition high_bit :: "char \<Rightarrow> bool" where
  "high_bit c \<longleftrightarrow> \<not> byte_of c < 128"

lemma high_bit_code [code]: "high_bit (Char b0 b1 b2 b3 b4 b5 b6 b7) = b7"
  using ascii_code [of b0 b1 b2 b3 b4 b5 b6 b7] by (simp add: high_bit_def del: of_char_Char)

lemma trim_right_code [code]:
  "trim_right s =
     (if s = [] then []
      else let c = last s in
        if \<not> high_bit c then (if ascii_space c then trim_right (butlast s) else s)
        else let (r, w) = decode_last_rune s in if is_space r then trim_right (take (length s - w) s) else s)"
  by (subst trim_right.simps)
    (simp add: decode_last_rune_def high_bit_def ascii_space_def Let_def butlast_conv_take)

text \<open>Base64 on bits.\<close>

definition b64_bits :: "bool \<Rightarrow> bool \<Rightarrow> bool \<Rightarrow> bool \<Rightarrow> bool \<Rightarrow> bool \<Rightarrow> char" where
  "b64_bits b0 b1 b2 b3 b4 b5 =
     b64_char (of_bool b0 + 2 * of_bool b1 + 4 * of_bool b2 + 8 * of_bool b3 + 16 * of_bool b4 + 32 * of_bool b5)"

lemma b64_bits_code [code]:
  "b64_bits b0 b1 b2 b3 b4 b5 = 
     (if b5 then 
       (if b4 then 
         (if b3 then 
           (if b2 then (if b1 then (if b0 then CHR ''_'' else CHR ''-'') else (if b0 then CHR ''9'' else CHR ''8''))
            else (if b1 then (if b0 then CHR ''7'' else CHR ''6'') else (if b0 then CHR ''5'' else CHR ''4'')))
          else 
           (if b2 then (if b1 then (if b0 then CHR ''3'' else CHR ''2'') else (if b0 then CHR ''1'' else CHR ''0''))
            else (if b1 then (if b0 then CHR ''z'' else CHR ''y'') else (if b0 then CHR ''x'' else CHR ''w''))))
        else 
         (if b3 then 
           (if b2 then (if b1 then (if b0 then CHR ''v'' else CHR ''u'') else (if b0 then CHR ''t'' else CHR ''s''))
            else (if b1 then (if b0 then CHR ''r'' else CHR ''q'') else (if b0 then CHR ''p'' else CHR ''o'')))
          else 
           (if b2 then (if b1 then (if b0 then CHR ''n'' else CHR ''m'') else (if b0 then CHR ''l'' else CHR ''k''))
            else (if b1 then (if b0 then CHR ''j'' else CHR ''i'') else (if b0 then CHR ''h'' else CHR ''g'')))))
      else 
       (if b4 then 
         (if b3 then 
           (if b2 then (if b1 then (if b0 then CHR ''f'' else CHR ''e'') else (if b0 then CHR ''d'' else CHR ''c''))
            else (if b1 then (if b0 then CHR ''b'' else CHR ''a'') else (if b0 then CHR ''Z'' else CHR ''Y'')))
          else 
           (if b2 then (if b1 then (if b0 then CHR ''X'' else CHR ''W'') else (if b0 then CHR ''V'' else CHR ''U''))
            else (if b1 then (if b0 then CHR ''T'' else CHR ''S'') else (if b0 then CHR ''R'' else CHR ''Q''))))
        else 
         (if b3 then 
           (if b2 then (if b1 then (if b0 then CHR ''P'' else CHR ''O'') else (if b0 then CHR ''N'' else CHR ''M''))
            else (if b1 then (if b0 then CHR ''L'' else CHR ''K'') else (if b0 then CHR ''J'' else CHR ''I'')))
          else 
           (if b2 then (if b1 then (if b0 then CHR ''H'' else CHR ''G'') else (if b0 then CHR ''F'' else CHR ''E''))
            else (if b1 then (if b0 then CHR ''D'' else CHR ''C'') else (if b0 then CHR ''B'' else CHR ''A''))))))"
  by (cases b0; cases b1; cases b2; cases b3; cases b4; cases b5)
    (simp_all add: b64_bits_def b64_char_def char_of_def bit_iff_odd)

lemma six_bits:
  fixes a b c d e f :: bool and x :: nat
  defines "v \<equiv> of_bool a + 2 * of_bool b + 4 * of_bool c + 8 * of_bool d + 16 * of_bool e + 32 * of_bool f"
  shows "x = v \<Longrightarrow> b64_char x = b64_bits a b c d e f"
  by (simp add: v_def b64_bits_def)

lemma b64_encode_code [code]:
  "b64_encode [] = []"
  "b64_encode [Char a0 a1 a2 a3 a4 a5 a6 a7] =
     [b64_bits a2 a3 a4 a5 a6 a7, b64_bits False False False False a0 a1]"
  "b64_encode [Char a0 a1 a2 a3 a4 a5 a6 a7, Char b0 b1 b2 b3 b4 b5 b6 b7] =
     [b64_bits a2 a3 a4 a5 a6 a7, b64_bits b4 b5 b6 b7 a0 a1, b64_bits False False b0 b1 b2 b3]"
  "b64_encode (Char a0 a1 a2 a3 a4 a5 a6 a7 # Char b0 b1 b2 b3 b4 b5 b6 b7 # Char c0 c1 c2 c3 c4 c5 c6 c7 # s) =
     b64_bits a2 a3 a4 a5 a6 a7 # b64_bits b4 b5 b6 b7 a0 a1 # b64_bits c6 c7 b0 b1 b2 b3
       # b64_bits c0 c1 c2 c3 c4 c5 # b64_encode s"
proof -
  have 4: "byte_of (Char x0 x1 x2 x3 x4 x5 x6 x7) div 4 =
      of_bool x2 + 2 * of_bool x3 + 4 * of_bool x4 + 8 * of_bool x5 + 16 * of_bool x6 + 32 * of_bool x7"
    "byte_of (Char x0 x1 x2 x3 x4 x5 x6 x7) mod 4 = of_bool x0 + 2 * of_bool x1"
    "byte_of (Char x0 x1 x2 x3 x4 x5 x6 x7) div 64 = of_bool x6 + 2 * of_bool x7"
    "byte_of (Char x0 x1 x2 x3 x4 x5 x6 x7) mod 64 =
      of_bool x0 + 2 * of_bool x1 + 4 * of_bool x2 + 8 * of_bool x3 + 16 * of_bool x4 + 32 * of_bool x5"
    for x0 x1 x2 x3 x4 x5 x6 x7
    by (cases x0; cases x1; cases x2; cases x3; cases x4; cases x5; cases x6; cases x7; simp)+
  note bits = 4 high_nibble low_nibble nibble_def Let_def
  show "b64_encode [] = []" by simp
  show "b64_encode [Char a0 a1 a2 a3 a4 a5 a6 a7] =
     [b64_bits a2 a3 a4 a5 a6 a7, b64_bits False False False False a0 a1]"
    by (simp add: bits b64_bits_def algebra_simps del: of_char_Char)
  show "b64_encode [Char a0 a1 a2 a3 a4 a5 a6 a7, Char b0 b1 b2 b3 b4 b5 b6 b7] =
     [b64_bits a2 a3 a4 a5 a6 a7, b64_bits b4 b5 b6 b7 a0 a1, b64_bits False False b0 b1 b2 b3]"
    by (simp add: bits b64_bits_def algebra_simps del: of_char_Char)
  show "b64_encode (Char a0 a1 a2 a3 a4 a5 a6 a7 # Char b0 b1 b2 b3 b4 b5 b6 b7 # Char c0 c1 c2 c3 c4 c5 c6 c7 # s) =
     b64_bits a2 a3 a4 a5 a6 a7 # b64_bits b4 b5 b6 b7 a0 a1 # b64_bits c6 c7 b0 b1 b2 b3
       # b64_bits c0 c1 c2 c3 c4 c5 # b64_encode s"
    by (simp add: bits b64_bits_def algebra_simps del: of_char_Char)
qed

type_synonym sextet = "bool \<times> bool \<times> bool \<times> bool \<times> bool \<times> bool"

fun sextet_value :: "sextet \<Rightarrow> nat" where
  "sextet_value (a, b, c, d, e, f) =
     of_bool a + 2 * of_bool b + 4 * of_bool c + 8 * of_bool d + 16 * of_bool e + 32 * of_bool f"

definition b64_sextet :: "char \<Rightarrow> sextet option" where
  "b64_sextet ch = (case ch of Char b0 b1 b2 b3 b4 b5 b6 b7 \<Rightarrow>
     (if b7 then None
      else (if b6 then (if b5 then (if b4 then (if b3 then (if b2 then None
      else (if b1 then (if b0 then None
      else Some (True, True, False, False, True, True))
      else (if b0 then Some (False, True, False, False, True, True)
      else Some (True, False, False, False, True, True))))
      else (if b2 then (if b1 then (if b0 then Some (False, False, False, False, True, True)
      else Some (True, True, True, True, False, True))
      else (if b0 then Some (False, True, True, True, False, True)
      else Some (True, False, True, True, False, True)))
      else (if b1 then (if b0 then Some (False, False, True, True, False, True)
      else Some (True, True, False, True, False, True))
      else (if b0 then Some (False, True, False, True, False, True)
      else Some (True, False, False, True, False, True)))))
      else (if b3 then (if b2 then (if b1 then (if b0 then Some (False, False, False, True, False, True)
      else Some (True, True, True, False, False, True))
      else (if b0 then Some (False, True, True, False, False, True)
      else Some (True, False, True, False, False, True)))
      else (if b1 then (if b0 then Some (False, False, True, False, False, True)
      else Some (True, True, False, False, False, True))
      else (if b0 then Some (False, True, False, False, False, True)
      else Some (True, False, False, False, False, True))))
      else (if b2 then (if b1 then (if b0 then Some (False, False, False, False, False, True)
      else Some (True, True, True, True, True, False))
      else (if b0 then Some (False, True, True, True, True, False)
      else Some (True, False, True, True, True, False)))
      else (if b1 then (if b0 then Some (False, False, True, True, True, False)
      else Some (True, True, False, True, True, False))
      else (if b0 then Some (False, True, False, True, True, False)
      else None)))))
      else (if b4 then (if b3 then (if b2 then (if b1 then (if b0 then Some (True, True, True, True, True, True)
      else None)
      else None)
      else (if b1 then (if b0 then None
      else Some (True, False, False, True, True, False))
      else (if b0 then Some (False, False, False, True, True, False)
      else Some (True, True, True, False, True, False))))
      else (if b2 then (if b1 then (if b0 then Some (False, True, True, False, True, False)
      else Some (True, False, True, False, True, False))
      else (if b0 then Some (False, False, True, False, True, False)
      else Some (True, True, False, False, True, False)))
      else (if b1 then (if b0 then Some (False, True, False, False, True, False)
      else Some (True, False, False, False, True, False))
      else (if b0 then Some (False, False, False, False, True, False)
      else Some (True, True, True, True, False, False)))))
      else (if b3 then (if b2 then (if b1 then (if b0 then Some (False, True, True, True, False, False)
      else Some (True, False, True, True, False, False))
      else (if b0 then Some (False, False, True, True, False, False)
      else Some (True, True, False, True, False, False)))
      else (if b1 then (if b0 then Some (False, True, False, True, False, False)
      else Some (True, False, False, True, False, False))
      else (if b0 then Some (False, False, False, True, False, False)
      else Some (True, True, True, False, False, False))))
      else (if b2 then (if b1 then (if b0 then Some (False, True, True, False, False, False)
      else Some (True, False, True, False, False, False))
      else (if b0 then Some (False, False, True, False, False, False)
      else Some (True, True, False, False, False, False)))
      else (if b1 then (if b0 then Some (False, True, False, False, False, False)
      else Some (True, False, False, False, False, False))
      else (if b0 then Some (False, False, False, False, False, False)
      else None))))))
      else (if b5 then (if b4 then (if b3 then (if b2 then None
      else (if b1 then None
      else (if b0 then Some (True, False, True, True, True, True)
      else Some (False, False, True, True, True, True))))
      else (if b2 then (if b1 then (if b0 then Some (True, True, False, True, True, True)
      else Some (False, True, False, True, True, True))
      else (if b0 then Some (True, False, False, True, True, True)
      else Some (False, False, False, True, True, True)))
      else (if b1 then (if b0 then Some (True, True, True, False, True, True)
      else Some (False, True, True, False, True, True))
      else (if b0 then Some (True, False, True, False, True, True)
      else Some (False, False, True, False, True, True)))))
      else (if b3 then (if b2 then (if b1 then None
      else (if b0 then Some (False, True, True, True, True, True)
      else None))
      else None)
      else None))
      else None))))"

lemma b64_value_sextet: "b64_value ch = map_option sextet_value (b64_sextet ch)"
proof (cases ch)
  case (Char b0 b1 b2 b3 b4 b5 b6 b7)
  then show ?thesis
    by (cases b0; cases b1; cases b2; cases b3; cases b4; cases b5; cases b6; cases b7)
      (simp_all add: b64_value_def b64_sextet_def Let_def)
qed

fun sextet_groups :: "sextet list \<Rightarrow> bytes option" where
  "sextet_groups [] = Some []"
| "sextet_groups [v] = None"
| "sextet_groups [(a0, a1, a2, a3, a4, a5), (b0, b1, b2, b3, b4, b5)] = Some [Char b4 b5 a0 a1 a2 a3 a4 a5]"
| "sextet_groups [(a0, a1, a2, a3, a4, a5), (b0, b1, b2, b3, b4, b5), (c0, c1, c2, c3, c4, c5)] =
     Some [Char b4 b5 a0 a1 a2 a3 a4 a5, Char c2 c3 c4 c5 b0 b1 b2 b3]"
| "sextet_groups ((a0, a1, a2, a3, a4, a5) # (b0, b1, b2, b3, b4, b5) # (c0, c1, c2, c3, c4, c5)
       # (d0, d1, d2, d3, d4, d5) # s) =
     map_option (\<lambda>rest. Char b4 b5 a0 a1 a2 a3 a4 a5 # Char c2 c3 c4 c5 b0 b1 b2 b3
       # Char d0 d1 d2 d3 d4 d5 c0 c1 # rest) (sextet_groups s)"

fun b64_sextets :: "bytes \<Rightarrow> sextet list option" where
  "b64_sextets [] = Some []"
| "b64_sextets (c # s) =
     (if c = CHR 0x0D \<or> c = CHR 0x0A then b64_sextets s
      else case b64_sextet c of None \<Rightarrow> None | Some v \<Rightarrow> map_option ((#) v) (b64_sextets s))"

lemma char_of_sextets:
  fixes a0 a1 a2 a3 a4 a5 b0 b1 b2 b3 b4 b5 c0 c1 :: bool
  defines "v \<equiv> sextet_value (a0, a1, a2, a3, a4, a5)" and "w \<equiv> sextet_value (b0, b1, b2, b3, b4, b5)"
  shows "char_of (v * 4 + w div 16) = Char b4 b5 a0 a1 a2 a3 a4 a5"
    "char_of ((v mod 16) * 16 + w div 4) = Char b2 b3 b4 b5 a0 a1 a2 a3"
    "char_of ((v mod 4) * 64 + w) = Char b0 b1 b2 b3 b4 b5 a0 a1"
proof -
  have eq: "char_of n = c" if "n = byte_of c" for n :: nat and c
    using that by simp
  have d: "sextet_value (p, q, r, x, y, z) div 16 = of_bool y + 2 * of_bool z"
    "sextet_value (p, q, r, x, y, z) div 4 = of_bool r + 2 * of_bool x + 4 * of_bool y + 8 * of_bool z"
    "sextet_value (p, q, r, x, y, z) mod 16 = of_bool p + 2 * of_bool q + 4 * of_bool r + 8 * of_bool x"
    "sextet_value (p, q, r, x, y, z) mod 4 = of_bool p + 2 * of_bool q" for p q r x y z
    by (cases p; cases q; cases r; cases x; cases y; cases z; simp)+
  show "char_of (v * 4 + w div 16) = Char b4 b5 a0 a1 a2 a3 a4 a5"
    "char_of ((v mod 16) * 16 + w div 4) = Char b2 b3 b4 b5 a0 a1 a2 a3"
    "char_of ((v mod 4) * 64 + w) = Char b0 b1 b2 b3 b4 b5 a0 a1"
    unfolding v_def w_def d by (rule eq, simp add: algebra_simps)+
qed

lemma b64_groups_sextets: "b64_groups (map sextet_value vs) = sextet_groups vs"
  by (induction vs rule: sextet_groups.induct) (simp_all add: char_of_sextets del: sextet_value.simps)

lemma b64_values_sextets: "b64_values s = map_option (map sextet_value) (b64_sextets s)"
proof (induction s)
  case (Cons c s)
  then show ?case
    by (cases "b64_sextet c"; cases "b64_sextets s") (simp_all add: b64_value_sextet del: sextet_value.simps)
qed simp

lemma b64_decode_code [code]:
  "b64_decode s = (case b64_sextets s of None \<Rightarrow> None | Some vs \<Rightarrow> sextet_groups vs)"
  by (simp add: b64_decode_def b64_values_sextets b64_groups_sextets split: option.splits)

section \<open>Decimal numbers and JSON text\<close>

definition digit_char :: "int \<Rightarrow> char" where
  "digit_char d = char_of (48 + nat d)"

lemma digit_char_code [code]:
  "digit_char d =
     (if d \<le> 0 then CHR ''0'' else if d = 1 then CHR ''1'' else if d = 2 then CHR ''2''
      else if d = 3 then CHR ''3'' else if d = 4 then CHR ''4'' else if d = 5 then CHR ''5''
      else if d = 6 then CHR ''6'' else if d = 7 then CHR ''7'' else if d = 8 then CHR ''8''
      else if d = 9 then CHR ''9'' else char_of (48 + nat d))"
  by (auto simp: digit_char_def char_of_def bit_iff_odd)

definition decimal_int :: "int \<Rightarrow> bytes" where
  "decimal_int i = decimal_nat (nat i)"

lemma decimal_int_code [code]:
  "decimal_int i = (if i < 10 then [digit_char i] else decimal_int (i div 10) @ [digit_char (i mod 10)])"
proof -
  have "nat i < 10 \<longleftrightarrow> i < 10" by linarith
  then show ?thesis
    by (simp add: decimal_int_def decimal_nat.simps [of "nat i"] digit_char_def nat_div_distrib nat_mod_distrib)
qed

lemma itoa_code [code]:
  "itoa i = (if i < 0 then CHR 0x2D # decimal_int (- i) else decimal_int i)"
  by (simp add: itoa_def decimal_int_def)
lemma html_safe_code [code]:
  "html_safe (Char b0 b1 b2 b3 b4 b5 b6 b7) \<longleftrightarrow> (b5 \<or> b6 \<or> b7) \<and>
     (let c = Char b0 b1 b2 b3 b4 b5 b6 b7 in c \<noteq> CHR 0x22 \<and> c \<noteq> CHR 0x5C \<and> c \<noteq> CHR ''<'' \<and> c \<noteq> CHR ''>'' \<and> c \<noteq> CHR ''&'')"
proof -
  have "0x20 \<le> byte_of (Char b0 b1 b2 b3 b4 b5 b6 b7) \<longleftrightarrow> b5 \<or> b6 \<or> b7"
    using nibble_lt [of b0 b1 b2 b3] unfolding byte_of_Char
    by (cases b4; cases b5; cases b6; cases b7) (simp_all add: nibble_def [of b4] nibble_def [of True] nibble_def [of False])
  then show ?thesis by (simp add: html_safe_def del: of_char_Char)
qed

lemma runes_code [code]:
  "runes [] = []"
  "runes (c # cs) =
     (if \<not> high_bit c then [c] # runes cs
      else let w = snd (decode_rune (c # cs)) in take w (c # cs) # runes (drop w (c # cs)))"
  by (simp_all add: runes.simps [of "[]"] runes.simps [of "c # cs"] high_bit_def decode_rune_def Let_def)

lemma escape_rune_code [code]:
  "escape_rune p =
     (case p of
        [] \<Rightarrow> []
      | c # _ \<Rightarrow>
          if \<not> high_bit c then escape_ascii c
          else if decode_rune p = (rune_error, 1) then backslash # ''ufffd''
          else if p = [CHR 0xE2, CHR 0x80, CHR 0xA8] then backslash # ''u2028''
          else if p = [CHR 0xE2, CHR 0x80, CHR 0xA9] then backslash # ''u2029''
          else p)"
  by (simp add: escape_rune_def high_bit_def split: list.splits)

end
