(* ===== verification/Samples.thy ===== *)
theory Samples
  imports Sessions Evaluation
begin

text \<open>
  A concrete instance of the cryptography and a small service built with the operations
  themselves: one account with one network, and the states its first requests lead to.  The
  properties' witnesses are evaluated on it.  The functions below are not cryptography; they
  satisfy \<open>sound_crypto\<close>, which is all the properties ask for.
\<close>

definition sized :: "bytes \<Rightarrow> bytes" where
  "sized x = take 32 (x @ replicate 32 (CHR 0x00))"

definition plain_crypto :: crypto where
  "plain_crypto = \<lparr>sha256 = sized, ed_public = sized, ed_sign = (\<lambda>k m. sized k @ m),
     ed_verify = (\<lambda>p m s. s = p @ m), bcrypt_hash = (\<lambda>_ p. Some p), bcrypt_matches = (\<lambda>h p. h = p),
     pem_decode = (\<lambda>s. Some (''CERTIFICATE REQUEST'', s, [])),
     parse_csr = (\<lambda>s. Some \<lparr>csr_signature_ok = True, csr_public = Some (sized s)\<rparr>),
     create_cert = (\<lambda>_ _ _ _ _ _ _. Some ''cert''), parse_cert = (\<lambda>_. None), verify_cert = (\<lambda>_ _ _. True)\<rparr>"

lemma length_sized [simp]: "length (sized x) = 32"
  by (simp add: sized_def)

lemma plain_crypto_sound: "sound_crypto plain_crypto"
  by (simp add: sound_crypto_def plain_crypto_def)

text \<open>An empty service, and the clock of the examples.\<close>

definition clock0 :: time where
  "clock0 = 1000 * second"

definition service0 :: store where
  "service0 = \<lparr>st_db = empty_db, st_faults = [], st_key = ''k'', st_CA = [],
     st_serviceID = KeyID plain_crypto (sized ''k''), st_logins = 0, st_unknownPassword = []\<rparr>"

definition owner0 :: string where
  "owner0 = NewID ''OOOOOO''"

definition net0 :: string where
  "net0 = NewID ''NNNNNN''"

definition service1 :: store where
  "service1 = snd (CreateUser plain_crypto [] ''OOOOOO'' ''a@b.cd'' ''correct horse'' service0)"

definition token7 :: string where
  "token7 = hex_encode (replicate 32 (CHR ''7''))"

definition logged_in1 :: store where
  "logged_in1 = snd (Login plain_crypto (Some (replicate 32 (CHR ''7''))) ''a@b.cd'' ''correct horse'' clock0 service1)"

definition service2 :: store where
  "service2 = snd (CreateNetwork ''NNNNNN'' owner0 ''home'' service1)"

definition secret_of :: "char \<Rightarrow> bytes" where
  "secret_of c = replicate 32 c"

definition token_of :: "char \<Rightarrow> string" where
  "token_of c = hex_encode (secret_of c)"

definition service3 :: store where
  "service3 = snd (IssueEnrollmentToken plain_crypto (Some (secret_of (CHR ''1''))) owner0 net0 clock0 service2)"

definition request1 :: Enrollment where
  "request1 = \<lparr>en_RequestID = NewID ''QQQQQ1'', en_Token = token_of (CHR ''1''), en_CSR = ''device1'', en_Name = ''one''\<rparr>"

definition service4 :: store where
  "service4 = snd (Enroll plain_crypto (Some []) request1 clock0 service3)"

definition join2 :: NetworkJoin where
  "join2 = \<lparr>nj_RequestID = NewID ''QQQQQ2'', nj_NetworkID = net0, nj_CSR = ''Device2'', nj_Name = ''two''\<rparr>"

definition service5 :: store where
  "service5 = snd (JoinNetwork plain_crypto (Some []) join2 clock0 service4)"

definition dev1 :: string where
  "dev1 = KeyID plain_crypto (sized ''device1'')"

definition dev2 :: string where
  "dev2 = KeyID plain_crypto (sized ''Device2'')"

text \<open>The second device shares its address, the first invites it, the second approves and the
  first confirms; and the first dials the second after both have reported in.\<close>

definition service6 :: store where
  "service6 = snd (mintShare plain_crypto ''SSSSSS'' dev2 net0 clock0 service5)"

definition share2 :: Share where
  "share2 = projr (fst (mintShare plain_crypto ''SSSSSS'' dev2 net0 clock0 service5))"

definition pair1 :: string where
  "pair1 = NewID ''PPPPPP''"

definition service7 :: store where
  "service7 = snd (Invite plain_crypto ''PPPPPP'' dev1 share2 clock0 service6)"

definition service8 :: store where
  "service8 = snd (ActOnPair plain_crypto dev2 pair1 ''approve'' [] clock0 service7)"

definition service9 :: store where
  "service9 = snd (ActOnPair plain_crypto dev1 pair1 ''confirm'' dev2 clock0 service8)"

definition online0 :: sessions where
  "online0 = snd (Heartbeat dev2 owner0 no_telemetry clock0
     (snd (Heartbeat dev1 owner0 no_telemetry clock0 (NewSessions service5))))"

definition lease1 :: Lease where
  "lease1 = projr (fst (Begin plain_crypto id ''AAAAAA'' dev1 dev2 1 clock0 online0))"

definition dialed :: sessions where
  "dialed = snd (Begin plain_crypto id ''AAAAAA'' dev1 dev2 1 clock0 online0)"

section \<open>The values of the samples\<close>

text \<open>Evaluated once, so that the proofs by evaluation start from values and not from the calls.\<close>

lemma sample_ids [code]:
  "owner0 = ''4f4f4f4f4f4f''" "net0 = ''4e4e4e4e4e4e''" "dev1 = ''646576696365''" "dev2 = ''446576696365''"
  "pair1 = ''505050505050''"
  by code_simp+

lemma service5_value [code]:
  "service5 = \<lparr>st_db = \<lparr>users = [\<lparr>u_id = owner0, u_email = ''a@b.cd'', u_hash = ''correct horse'', u_disabled = False\<rparr>],
       user_sessions = [],
       networks = [\<lparr>n_id = net0, n_user = owner0, n_name = ''home'', n_deleted = False, n_max = 10\<rparr>],
       tokens = [\<lparr>t_hash = hex_encode (sized (token_of (CHR ''1''))), t_user = owner0, t_network = net0,
         t_expires = 1300, t_used = True\<rparr>],
       devices = [\<lparr>d_id = dev1, d_user = owner0, d_key = sized ''device1'', d_name = ''one'', d_cert = ''cert'', d_revoked = False,
           d_request = NewID ''QQQQQ1'', d_last_seen = 0, d_version = [], d_platform = [], d_arch = []\<rparr>,
         \<lparr>d_id = dev2, d_user = owner0, d_key = sized ''Device2'', d_name = ''two'', d_cert = ''cert'', d_revoked = False,
           d_request = NewID ''QQQQQ2'', d_last_seen = 0, d_version = [], d_platform = [], d_arch = []\<rparr>],
       device_users = [(dev1, owner0), (dev2, owner0)],
       bindings = [\<lparr>b_network = net0, b_device = dev1, b_active = True\<rparr>,
         \<lparr>b_network = net0, b_device = dev2, b_active = True\<rparr>],
       shares = [], pairs = [], renewals = [],
       audit = [\<lparr>a_event = ''enrolled'', a_subject = dev1, a_at = 1000\<rparr>,
         \<lparr>a_event = ''network-join'', a_subject = dev2, a_at = 1000\<rparr>]\<rparr>,
     st_faults = [], st_key = ''k'', st_CA = [], st_serviceID = ''6b0000000000'', st_logins = 0,
     st_unknownPassword = []\<rparr>"
  by code_simp

lemma service6_value [code]:
  "service6 = service5\<lparr>st_db := (st_db service5)\<lparr>shares := [\<lparr>s_nonce = ''535353535353'', s_device = dev2, s_network = net0,
     s_expires = 1300, s_used = False\<rparr>]\<rparr>\<rparr>"
  by code_simp

lemma share2_value [code]:
  "share2 = \<lparr>sh_Version = 1, sh_ServiceID = ''6b0000000000'', sh_NetworkID = net0, sh_DeviceID = dev2, sh_Fingerprint = dev2,
     sh_Nonce = ''535353535353'', sh_ExpiresAt = 1300,
     sh_Signature = ''awAAAAAAAAAAAAAAAAAAAAAAAAAAAAAAAAAAAAAAAABbImRzaGtlci5wYWlyLXNoYXJlLnYxIiwxLCI2YjAwMDAwMDAwMDAiLCI0ZTRlNGU0ZTRlNGUiLCI0NDY1NzY2OTYzNjUiLCI0NDY1NzY2OTYzNjUiLCI1MzUzNTM1MzUzNTMiLDEzMDBd''\<rparr>"
  by code_simp

lemma service7_value [code]:
  "service7 = service5\<lparr>st_db := (st_db service5)\<lparr>shares := [\<lparr>s_nonce = ''535353535353'', s_device = dev2, s_network = net0,
     s_expires = 1300, s_used = True\<rparr>], pairs := [\<lparr>p_id = pair1, p_network = net0, p_initiator = dev1, p_target = dev2,
     p_state = Invited, p_expires = 1300, p_revision = 1\<rparr>]\<rparr>\<rparr>"
  by code_simp

lemma service8_value [code]:
  "service8 = service7\<lparr>st_db := (st_db service7)\<lparr>pairs := [\<lparr>p_id = pair1, p_network = net0, p_initiator = dev1, p_target = dev2,
     p_state = Approved, p_expires = 1300, p_revision = 2\<rparr>]\<rparr>\<rparr>"
  by code_simp

section \<open>Their invariants\<close>

lemma service0_inv: "db_inv (st_db service0)"
  by (simp add: service0_def db_inv_empty)

lemma service1_inv: "db_inv (st_db service1)"
  unfolding service1_def by (rule CreateUser_keeps [OF service0_inv])

lemma service2_inv: "db_inv (st_db service2)"
  unfolding service2_def by (rule CreateNetwork_keeps [OF service1_inv])

lemma service3_inv: "db_inv (st_db service3)"
  unfolding service3_def by (rule IssueEnrollmentToken_keeps [OF service2_inv])

lemma service4_inv: "db_inv (st_db service4)"
  unfolding service4_def by (rule Enroll_keeps [OF service3_inv])

lemma service5_inv: "db_inv (st_db service5)"
  unfolding service5_def by (rule JoinNetwork_keeps [OF service4_inv])

lemma service6_inv: "db_inv (st_db service6)"
  unfolding service6_def by (rule mintShare_keeps [OF service5_inv])

lemma service7_inv: "db_inv (st_db service7)"
  unfolding service7_def by (rule Invite_keeps [OF service6_inv])

lemma service8_inv: "db_inv (st_db service8)"
  unfolding service8_def by (rule ActOnPair_keeps [OF service7_inv])

lemma service9_inv: "db_inv (st_db service9)"
  unfolding service9_def by (rule ActOnPair_keeps [OF service8_inv])

lemma logged_in1_inv: "db_inv (st_db logged_in1)"
  unfolding logged_in1_def by (rule Login_keeps [OF service1_inv])

end
