(* ===== verification/System.thy ===== *)
theory System
  imports Samples
begin

text \<open>
  The store as one machine: a \<open>call\<close> is a request to one of its methods with everything it
  depends on (the arguments, the clock, the random bytes it draws), and \<open>run\<close> performs a list
  of calls one after the other, whatever each returns.  A call may also set the fault schedule,
  so that the runs cover every pattern of failing statements.  Methods that only read are left
  out of the calls: they change nothing.
\<close>

section \<open>Calls\<close>

datatype call =
    CallCreateUser bytes bytes string string
  | CallLogin "bytes option" string string time
  | CallLogout string
  | CallDisableUser string time
  | CallCreateNetwork bytes string string
  | CallRenameNetwork string string string
  | CallUpdateNetworkLimit time string string int
  | CallDeleteNetwork string string time
  | CallBindDevice string string string
  | CallUnbindDevice string string string time
  | CallDeletePair string string string time
  | CallRecordDeviceSeen string DeviceTelemetry time
  | CallIssueEnrollmentToken "bytes option" string string time
  | CallEnroll "bytes option" Enrollment time
  | CallJoinNetwork "bytes option" NetworkJoin time
  | CallRenew "bytes option" "certificate option" Renewal time
  | CallRecoverCertificate "bytes option" CertificateRecovery time
  | CallRevokeDevice string time
  | CallShare bytes string string time
  | CallInvite bytes string Share time
  | CallAdoptNetwork "nat \<Rightarrow> bytes" string time
  | CallActOnPair string string string string time
  | Faults "bool list"

text \<open>The error of a method, without its value.\<close>

definition only_error :: "('z, 'a) act \<Rightarrow> ('z, unit) act" where
  "only_error m = bnd m (\<lambda>_. ret ())"

fun perform :: "crypto \<Rightarrow> call \<Rightarrow> ('z, unit) act" where
  "perform C (CallCreateUser salt rnd email password) = only_error (CreateUser C salt rnd email password)"
| "perform C (CallLogin rnd username password now) = only_error (Login C rnd username password now)"
| "perform C (CallLogout token) = Logout C token"
| "perform C (CallDisableUser i now) = DisableUser i now"
| "perform C (CallCreateNetwork rnd userID name) = only_error (CreateNetwork rnd userID name)"
| "perform C (CallRenameNetwork userID i name) = only_error (RenameNetwork userID i name)"
| "perform C (CallUpdateNetworkLimit now userID i maxDevices) = only_error (UpdateNetworkLimit now userID i maxDevices)"
| "perform C (CallDeleteNetwork userID i now) = DeleteNetwork userID i now"
| "perform C (CallBindDevice userID networkID deviceID) = BindDevice userID networkID deviceID"
| "perform C (CallUnbindDevice userID networkID deviceID now) = UnbindDevice userID networkID deviceID now"
| "perform C (CallDeletePair userID networkID pairID now) = DeletePair userID networkID pairID now"
| "perform C (CallRecordDeviceSeen i telemetry now) = RecordDeviceSeen i telemetry now"
| "perform C (CallIssueEnrollmentToken rnd userID networkID now) =
     only_error (IssueEnrollmentToken C rnd userID networkID now)"
| "perform C (CallEnroll serial request now) = only_error (Enroll C serial request now)"
| "perform C (CallJoinNetwork serial request now) = only_error (JoinNetwork C serial request now)"
| "perform C (CallRenew serial cert request now) = only_error (Renew C serial cert request now)"
| "perform C (CallRecoverCertificate serial request now) = only_error (RecoverCertificate C serial request now)"
| "perform C (CallRevokeDevice i now) = RevokeDevice i now"
| "perform C (CallShare rnd i networkID now) = only_error (mintShare C rnd i networkID now)"
| "perform C (CallInvite rnd sender share now) = only_error (Invite C rnd sender share now)"
| "perform C (CallAdoptNetwork rnds deviceID now) = only_error (AdoptNetwork rnds deviceID now)"
| "perform C (CallActOnPair deviceID pairID action fingerprint now) =
     only_error (ActOnPair C deviceID pairID action fingerprint now)"
| "perform C (Faults fs) = modify (\<lambda>s. s\<lparr>st_faults := fs\<rparr>)"

fun run :: "crypto \<Rightarrow> call list \<Rightarrow> 'z store_scheme \<Rightarrow> 'z store_scheme" where
  "run C [] s = s"
| "run C (c # cs) s = run C cs (snd (perform C c s))"

lemma run_append: "run C (cs @ ds) s = run C ds (run C cs s)"
  by (induction cs arbitrary: s) auto

section \<open>The contracts of every call\<close>

lemma only_error_result: "snd (only_error m s) = snd (m s)"
  by (simp add: only_error_def bnd_def ret_def split: prod.splits sum.splits)

lemma only_error_Inl: "only_error m s = (Inl e, t) \<longleftrightarrow> m s = (Inl e, t)"
  by (auto simp: only_error_def bnd_def ret_def split: prod.splits sum.splits)

lemmas call_keeps = CreateUser_keeps Login_keeps Logout_keeps DisableUser_keeps CreateNetwork_keeps
  RenameNetwork_keeps UpdateNetworkLimit_keeps DeleteNetwork_keeps BindDevice_keeps UnbindDevice_keeps
  DeletePair_keeps RecordDeviceSeen_keeps IssueEnrollmentToken_keeps Enroll_keeps JoinNetwork_keeps
  Renew_keeping [THEN keeping.keeps] RecoverCertificate_keeping [THEN keeping.keeps] RevokeDevice_keeps
  mintShare_keeps Invite_keeps AdoptNetwork_keeps ActOnPair_keeps

lemma perform_keeps: "db_inv (st_db s) \<Longrightarrow> db_inv (st_db (snd (perform C c s)))"
  by (cases c) (simp_all add: only_error_result call_keeps, simp add: modify_def)

lemmas call_advances = CreateUser_advancing Login_advancing Logout_advancing DisableUser_advancing
  CreateNetwork_advancing RenameNetwork_advancing UpdateNetworkLimit_advancing DeleteNetwork_advancing
  BindDevice_advancing UnbindDevice_advancing DeletePair_advancing RecordDeviceSeen_advancing
  IssueEnrollmentToken_advancing Enroll_advancing JoinNetwork_advancing Renew_advancing
  RecoverCertificate_advancing RevokeDevice_advancing mintShare_advancing Invite_advancing
  AdoptNetwork_advancing

lemma perform_advances: "advances (st_db s) (st_db (snd (perform C c s)))"
  by (cases c) (simp_all add: only_error_result call_advances [THEN advancing.advance] ActOnPair_advances,
      simp add: modify_def)

interpretation perform: keeping "perform C c" for C c
  by unfold_locales (rule perform_keeps)

interpretation perform: advancing "perform C c" for C c
  by unfold_locales (rule perform_advances)

lemma run_keeps: "db_inv (st_db s) \<Longrightarrow> db_inv (st_db (run C cs s))"
  by (induction cs arbitrary: s) (auto intro: perform.keeps)

lemma run_advancing: "advances (st_db s) (st_db (run C cs s))"
  by (induction cs arbitrary: s) (auto intro: advances_trans perform.advance)

section \<open>Calls that fail without effect\<close>

lemma atomic_wp: "(\<And>s. wp m (\<lambda>_ _. True) (\<lambda>_ t. st_db t = st_db s) s) \<Longrightarrow> atomic m"
proof
  fix s e t
  assume "\<And>s. wp m (\<lambda>_ _. True) (\<lambda>_ t. st_db t = st_db s) s" "m s = (Inl e, t)"
  then show "st_db t = st_db s" using wpD(2) [of m "\<lambda>_ _. True" "\<lambda>_ t. st_db t = st_db s" s e t] by simp
qed

lemma atomicD: "atomic m \<Longrightarrow> m s = (Inl e, t) \<Longrightarrow> st_db t = st_db s"
  by (rule atomic.fails_clean)

lemma CreateUser_atomic: "atomic (CreateUser C salt rnd email password)"
  by (rule atomic_wp) (auto simp: CreateUser_def wp_simps Let_def split: option.splits)

lemma ins_session_of_none: "ins_session_of h e u d = Some (d', n) \<Longrightarrow> n \<noteq> 1 \<Longrightarrow> d' = d"
  by (auto simp: ins_session_of_def split: if_splits)

lemma login_body_atomic: "atomic (login_body C rnd username password now)"
  by (rule atomic_wp)
    (auto simp: login_body_def wp_simps Let_def dest: ins_session_of_none split: sum.splits)

lemma Login_atomic: "atomic (Login C rnd username password now)"
  by unfold_locales
    (auto simp: Login_def split: if_splits prod.splits dest: atomicD [OF login_body_atomic])

lemma ins_network_of_none: "ins_network_of i name m u d = Some (d', n) \<Longrightarrow> n \<noteq> 1 \<Longrightarrow> d' = d"
  by (auto simp: ins_network_of_def split: if_splits)

lemma CreateNetwork_atomic: "atomic (CreateNetwork rnd userID name)"
  by (rule atomic_wp)
    (auto simp: CreateNetwork_def countNetworks_def insertNetwork_def wp_simps Let_def dest: ins_network_of_none)

lemma RecordDeviceSeen_atomic: "atomic (RecordDeviceSeen i telemetry now)"
  by (rule atomic_wp) (auto simp: RecordDeviceSeen_def wp_simps Let_def)

lemma adoptAll_succeeds: "\<exists>x. fst (adoptAll rnds deviceID now peers adopted s) = Inr x"
proof (induction rnds deviceID now peers adopted arbitrary: s rule: adoptAll.induct)
  case (2 rnds deviceID now networkID peer peers adopted)
  then show ?case
    by (auto simp: bnd_def attempt_def split: prod.splits sum.splits)
qed (simp add: ret_def)

lemma AdoptNetwork_atomic: "atomic (AdoptNetwork rnds deviceID now)"
proof (rule atomic_wp)
  fix s :: "'a store_scheme"
  have "wp (adoptAll rnds deviceID now peers []) (\<lambda>_ _. True) E u" for peers E and u :: "'a store_scheme"
    using adoptAll_succeeds [of rnds deviceID now peers "[]" u] by (auto simp: wp_def split: prod.splits sum.splits)
  then show "wp (AdoptNetwork rnds deviceID now) (\<lambda>_ _. True) (\<lambda>_ t. st_db t = st_db s) s"
    by (simp add: AdoptNetwork_def wp_simps)
qed

text \<open>The hash of a token identifies its session, so a logout that reports an error removed none.\<close>

lemma Logout_clean:
  assumes "db_inv (st_db s)" "Logout C token s = (Inl e, t)"
  shows "st_db t = st_db s"
proof -
  have "count_where (\<lambda>r. us_hash r = digest C token) (user_sessions (st_db s)) \<noteq> 1 \<Longrightarrow>
      count_where (\<lambda>r. us_hash r = digest C token) (user_sessions (st_db s)) = 0"
    using count_key_le_1 [of us_hash "user_sessions (st_db s)" "digest C token" "\<lambda>_. True"] assms(1)
    by (auto simp: db_inv_def inv_keys_def session_hash.unique_def)
  moreover have "count_where P rs = 0 \<Longrightarrow> filter (\<lambda>r. \<not> P r) rs = rs" for P and rs :: "session_row list"
    by (simp add: count_where_0 filter_id_conv)
  ultimately have "wp (Logout C token) (\<lambda>_ _. True) (\<lambda>_ t. st_db t = st_db s) s"
    by (auto simp: Logout_def wp_simps del_sessions_def)
  with assms(2) show ?thesis by (simp add: wp_def)
qed

definition pair_action :: "call \<Rightarrow> bool" where
  "pair_action c = (case c of CallActOnPair _ _ _ _ _ \<Rightarrow> True | _ \<Rightarrow> False)"

lemmas call_atomic = CreateUser_atomic Login_atomic DisableUser_atomic CreateNetwork_atomic
  RenameNetwork_atomic UpdateNetworkLimit_atomic DeleteNetwork_atomic BindDevice_atomic
  UnbindDevice_atomic DeletePair_atomic RecordDeviceSeen_atomic IssueEnrollmentToken_atomic
  Enroll_atomic JoinNetwork_atomic Renew_atomic RecoverCertificate_atomic RevokeDevice_atomic
  mintShare_atomic Invite_atomic AdoptNetwork_atomic

lemma only_error_atomic: "atomic m \<Longrightarrow> atomic (only_error m)"
  by unfold_locales (auto simp: only_error_Inl dest: atomicD)

lemma perform_atomic: "\<not> pair_action c \<Longrightarrow> \<forall>token. c \<noteq> CallLogout token \<Longrightarrow> atomic (perform C c)"
  by (cases c) (simp_all add: pair_action_def only_error_atomic call_atomic, unfold_locales, simp add: modify_def)

lemma perform_clean:
  assumes "db_inv (st_db s)" "\<not> pair_action c" "perform C c s = (Inl e, t)"
  shows "st_db t = st_db s"
proof (cases "\<exists>token. c = CallLogout token")
  case True
  with assms show ?thesis by (auto dest: Logout_clean)
next
  case False
  with assms show ?thesis by (intro atomicD [OF perform_atomic, of c C]) auto
qed

end
