(* ===== verification/Marks.thy ===== *)
theory Marks
  imports System
begin

text \<open>
  Facts about a row that no later call takes back: a network stays deleted, an account disabled, a
  device revoked, a token or a share spent, whatever calls follow.  Each mark is a predicate on
  the database, kept by \<open>advances\<close> and, under the unique keys, decisive for every query.
\<close>

section \<open>What history preserves\<close>

lemma advances_network:
  assumes "advances d d'" "n \<in> set (networks d)"
  shows "\<exists>m \<in> set (networks d'). network_le n m"
  using assms network.grows_in by (auto simp: advances_def)

lemma advances_user:
  assumes "advances d d'" "u \<in> set (users d)"
  shows "\<exists>v \<in> set (users d'). user_le u v"
  using assms user.grows_in by (auto simp: advances_def)

lemma advances_token:
  assumes "advances d d'" "u \<in> set (tokens d)"
  shows "\<exists>v \<in> set (tokens d'). token_le u v"
  using assms token.grows_in by (auto simp: advances_def)

lemma advances_device:
  assumes "advances d d'" "u \<in> set (devices d)"
  shows "\<exists>v \<in> set (devices d'). device_le u v"
  using assms device.grows_in by (auto simp: advances_def)

lemma advances_share:
  assumes "advances d d'" "u \<in> set (shares d)"
  shows "\<exists>v \<in> set (shares d'). share_le u v"
  using assms share.grows_in by (auto simp: advances_def)

lemma advances_pair:
  assumes "advances d d'" "u \<in> set (pairs d)"
  shows "\<exists>v \<in> set (pairs d'). pair_le u v"
  using assms pair.grows_in by (auto simp: advances_def)

text \<open>A deleted network, a disabled account and a spent token stay what they are.\<close>

definition deleted :: "db \<Rightarrow> string \<Rightarrow> bool" where
  "deleted d i \<longleftrightarrow> (\<exists>n \<in> set (networks d). n_id n = i \<and> n_deleted n)"

definition disabled :: "db \<Rightarrow> string \<Rightarrow> bool" where
  "disabled d i \<longleftrightarrow> (\<exists>u \<in> set (users d). u_id u = i \<and> u_disabled u)"

definition revoked :: "db \<Rightarrow> string \<Rightarrow> bool" where
  "revoked d i \<longleftrightarrow> (\<exists>r \<in> set (devices d). d_id r = i \<and> d_revoked r)"

definition spent :: "db \<Rightarrow> string \<Rightarrow> bool" where
  "spent d h \<longleftrightarrow> (\<exists>t \<in> set (tokens d). t_hash t = h \<and> t_used t)"

definition share_spent :: "db \<Rightarrow> string \<Rightarrow> bool" where
  "share_spent d nonce \<longleftrightarrow> (\<exists>r \<in> set (shares d). s_nonce r = nonce \<and> s_used r)"

lemmas mark_defs = deleted_def disabled_def revoked_def spent_def share_spent_def

lemma deleted_stays: "advances d d' \<Longrightarrow> deleted d i \<Longrightarrow> deleted d' i"
  unfolding deleted_def by (metis advances_network network_le_def)

lemma disabled_stays: "advances d d' \<Longrightarrow> disabled d i \<Longrightarrow> disabled d' i"
  unfolding disabled_def by (metis advances_user user_le_def)

lemma revoked_stays: "advances d d' \<Longrightarrow> revoked d i \<Longrightarrow> revoked d' i"
  unfolding revoked_def by (metis advances_device device_le_def)

lemma spent_stays: "advances d d' \<Longrightarrow> spent d h \<Longrightarrow> spent d' h"
  unfolding spent_def by (metis advances_token token_le_def)

lemma share_spent_stays: "advances d d' \<Longrightarrow> share_spent d h \<Longrightarrow> share_spent d' h"
  unfolding share_spent_def by (metis advances_share share_le_def)

lemmas marks_stay = deleted_stays disabled_stays revoked_stays spent_stays share_spent_stays

text \<open>With unique keys, a mark on one row is a mark on every row of the key.\<close>

lemma deleted_dead: "inv_keys d \<Longrightarrow> deleted d i \<Longrightarrow> \<not> alive d i usr"
  unfolding deleted_def alive_def inv_keys_def using network_id.unique_eq by blast

lemma disabled_out: "inv_keys d \<Longrightarrow> disabled d i \<Longrightarrow> \<not> enabled d i"
  unfolding disabled_def enabled_def inv_keys_def using user_id.unique_eq by blast

lemma revoked_rows: "inv_keys d \<Longrightarrow> revoked d i \<Longrightarrow> device_rows i d = []"
proof -
  assume "inv_keys d" "revoked d i"
  then have "x \<notin> set (device_rows i d)" for x
    unfolding set_device_rows revoked_def inv_keys_def using device_id.unique_eq by blast
  then show ?thesis by (metis list.set_intros(1) neq_Nil_conv)
qed

lemma spent_rows: "inv_keys d \<Longrightarrow> spent d (digest C token) \<Longrightarrow> token_rows C token now d = []"
proof -
  assume "inv_keys d" "spent d (digest C token)"
  then have "(u, n) \<notin> set (token_rows C token now d)" for u n
    unfolding set_token_rows spent_def inv_keys_def using token_hash.unique_eq by metis
  then show ?thesis by (metis list.set_intros(1) neq_Nil_conv surj_pair)
qed

lemma share_spent_none:
  "inv_keys d \<Longrightarrow> share_spent d nonce \<Longrightarrow> count_where (\<lambda>r. s_nonce r = nonce \<and> P r \<and> \<not> s_used r) (shares d) = 0"
  unfolding share_spent_def inv_keys_def count_where_0 using share_nonce.unique_eq by blast

end
