(* ===== verification/Effects.thy ===== *)
theory Effects
  imports Marks
begin

text \<open>
  What a successful call has done: the marks that deletion, disabling and revocation leave, and
  the weakest precondition of enrolment with the facts a caller can rely on afterwards.
\<close>

section \<open>Deletion, disabling, revocation\<close>

lemma DeleteNetwork_marks:
  assumes "DeleteNetwork userID i now s = (Inr (), t)"
  shows "deleted (st_db t) i"
proof -
  have "deleted d i" if "owned_rows userID i (st_db s) = x # xs"
    "networks d = update_where (\<lambda>n. n_id n = i) (\<lambda>n. n\<lparr>n_deleted := True\<rparr>) (networks (st_db s))" for x xs d
    using owned_rowsD [OF that(1)] unfolding deleted_def that(2) bex_update_where alive_def by auto
  then have "wp (DeleteNetwork userID i now) (\<lambda>_ t. deleted (st_db t) i) (\<lambda>_ _. True) s"
    by (auto simp: DeleteNetwork_def wp_simps upd_defs ins_audit_def)
  with assms show ?thesis by (simp add: wp_def)
qed

lemma DisableUser_marks:
  assumes "DisableUser i now s = (Inr (), t)"
  shows "disabled (st_db t) i"
proof -
  have "disabled d i" if "count_where (\<lambda>u. u_id u = i \<and> \<not> u_disabled u) (users (st_db s)) = Suc 0"
    "users d = update_where (\<lambda>u. u_id u = i \<and> \<not> u_disabled u) (\<lambda>u. u\<lparr>u_disabled := True\<rparr>) (users (st_db s))" for d
    using count_where_pos [of "\<lambda>u. u_id u = i \<and> \<not> u_disabled u" "users (st_db s)"] that(1)
    unfolding disabled_def that(2) bex_update_where by auto
  then have "wp (DisableUser i now) (\<lambda>_ t. disabled (st_db t) i) (\<lambda>_ _. True) s"
    by (auto simp: DisableUser_def wp_simps upd_defs del_sessions_def ins_audit_def)
  with assms show ?thesis by (simp add: wp_def)
qed

lemma RevokeDevice_marks:
  assumes "RevokeDevice i now s = (Inr (), t)"
  shows "revoked (st_db t) i"
    "p \<in> set (pairs (st_db t)) \<Longrightarrow> p_initiator p = i \<or> p_target p = i \<Longrightarrow> p_state p = Revoked"
proof -
  have r: "revoked d i" if "count_where (\<lambda>u. d_id u = i \<and> \<not> d_revoked u) (devices (st_db s)) = Suc 0"
    "devices d = update_where (\<lambda>u. d_id u = i \<and> \<not> d_revoked u) (\<lambda>u. u\<lparr>d_revoked := True\<rparr>) (devices (st_db s))" for d
    using count_where_pos [of "\<lambda>u. d_id u = i \<and> \<not> d_revoked u" "devices (st_db s)"] that(1)
    unfolding revoked_def that(2) bex_update_where by auto
  have p: "\<forall>p \<in> set (update_where (\<lambda>p. p_initiator p = i \<or> p_target p = i) (set_state Revoked) ps).
      p_initiator p = i \<or> p_target p = i \<longrightarrow> p_state p = Revoked" for ps
    by (auto simp: ball_update_where)
  have "wp (RevokeDevice i now) (\<lambda>_ t. revoked (st_db t) i
      \<and> (\<forall>p \<in> set (pairs (st_db t)). p_initiator p = i \<or> p_target p = i \<longrightarrow> p_state p = Revoked)) (\<lambda>_ _. True) s"
    using r p by (simp add: RevokeDevice_def wp_simps upd_defs ins_audit_def)
  with assms show "revoked (st_db t) i"
    "p \<in> set (pairs (st_db t)) \<Longrightarrow> p_initiator p = i \<or> p_target p = i \<Longrightarrow> p_state p = Revoked"
    by (auto simp: wp_def)
qed

text \<open>What is left of a deleted network, and of a disabled account.\<close>

definition dead_network :: "db \<Rightarrow> string \<Rightarrow> bool" where
  "dead_network d i \<longleftrightarrow> (\<forall>usr. \<not> alive d i usr) \<and> (\<forall>x. \<not> bound d i x)
     \<and> (\<forall>p \<in> set (pairs d). p_network p = i \<longrightarrow> \<not> live (p_state p))
     \<and> (\<forall>k \<in> set (tokens d). t_network k = i \<longrightarrow> t_used k)
     \<and> (\<forall>r \<in> set (shares d). s_network r = i \<longrightarrow> s_used r)"

definition locked_out :: "db \<Rightarrow> string \<Rightarrow> bool" where
  "locked_out d usr \<longleftrightarrow> (\<forall>r \<in> set (user_sessions d). us_user r \<noteq> usr) \<and> (\<forall>i. owned_rows usr i d = [])
     \<and> (\<forall>i x. usr \<notin> set (binding_rows i x d))
     \<and> (\<forall>p \<in> set (pairs d). owned d (p_network p) usr \<longrightarrow> \<not> live (p_state p))"

lemma deleted_is_dead:
  assumes inv: "db_inv d" and "deleted d i"
  shows "dead_network d i"
proof -
  have dead: "\<not> alive d i usr" for usr by (rule deleted_dead [OF db_invD(1) [OF inv] assms(2)])
  then have unbound: "\<not> bound d i x" for x
    using db_invD(4) [OF inv] unfolding inv_bound_def bound_def by metis
  have "\<forall>p \<in> set (pairs d). p_network p = i \<longrightarrow> \<not> live (p_state p)"
    using unbound db_invD(7) [OF inv] unfolding inv_pair_def by metis
  moreover have "\<forall>k \<in> set (tokens d). t_network k = i \<longrightarrow> t_used k"
    using dead db_invD(5) [OF inv] unfolding inv_token_def by metis
  moreover have "\<forall>r \<in> set (shares d). s_network r = i \<longrightarrow> s_used r"
    using unbound db_invD(6) [OF inv] unfolding inv_share_def by metis
  ultimately show ?thesis using dead unbound by (simp add: dead_network_def)
qed

lemma owned_unique: "inv_keys d \<Longrightarrow> owned d i usr \<Longrightarrow> owned d i usr' \<Longrightarrow> usr = usr'"
  unfolding owned_def inv_keys_def using network_id.unique_eq by blast

lemma disabled_is_locked_out:
  assumes inv: "db_inv d" and "disabled d usr"
  shows "locked_out d usr"
proof -
  have off: "\<not> enabled d usr" by (rule disabled_out [OF db_invD(1) [OF inv] assms(2)])
  have "\<forall>r \<in> set (user_sessions d). us_user r \<noteq> usr"
    using off db_invD(8) [OF inv] unfolding inv_session_def by metis
  moreover have "\<forall>p \<in> set (pairs d). owned d (p_network p) usr \<longrightarrow> \<not> live (p_state p)"
    using off db_invD(7) [OF inv] owned_unique [OF db_invD(1) [OF inv]] unfolding inv_pair_def by metis
  ultimately show ?thesis
    using off by (simp add: locked_out_def owned_rows_Nil set_binding_rows)
qed

section \<open>What enrolment does\<close>

lemma knownDevice_wp:
  assumes "\<And>t x r. r \<in> set (devices (st_db t)) \<Longrightarrow> d_id r = dev_ID x \<Longrightarrow> d_key r = dev_PublicKey device \<Longrightarrow>
      dev_PublicKey x = dev_PublicKey device \<Longrightarrow> dev_UserID x = dev_UserID device \<Longrightarrow>
      tokens (st_db t) = tokens (st_db s) \<Longrightarrow> Q x t"
    and "\<And>e t. E e t"
  shows "wp (knownDevice device req) Q E s"
proof -
  have known: "Q (device\<lparr>dev_ID := i, dev_Certificate := c\<rparr>) t"
    if "[d_id r. r \<leftarrow> devices (st_db s), d_key r = dev_PublicKey device] = i # xs"
      "upd_request (dev_Name device) req i (st_db s) = Some (st_db t)" for i c xs and t :: "'a store_scheme"
  proof -
    from hd_in [OF that(1)] obtain r where r: "r \<in> set (devices (st_db s))" "d_id r = i" "d_key r = dev_PublicKey device"
      by (auto split: if_splits)
    let ?r = "if d_id r = i then r\<lparr>d_name := dev_Name device, d_request := req\<rparr> else r"
    have "st_db t = fst (upd_devices (\<lambda>r. d_id r = i) (\<lambda>r. r\<lparr>d_name := dev_Name device, d_request := req\<rparr>) (st_db s))"
      using that(2) by (simp add: upd_request_def split: if_splits)
    then have "devices (st_db t) = update_where (\<lambda>r. d_id r = i) (\<lambda>r. r\<lparr>d_name := dev_Name device, d_request := req\<rparr>)
        (devices (st_db s))" "tokens (st_db t) = tokens (st_db s)"
      by (simp_all add: upd_defs)
    then show ?thesis
      by (intro assms(1) [of ?r]) (use r in \<open>auto simp: in_update_where\<close>)
  qed
  have new: "Q device t" if "ins_device (new_device device req) (st_db s) = Some (st_db t)" for t :: "'a store_scheme"
    using ins_SomeD(5) [OF that] by (intro assms(1) [of "new_device device req"]) (simp_all add: new_device_def)
  show ?thesis
    unfolding knownDevice_def using known new assms(2) by (simp add: wp_simps)
qed

lemma bind_active_binds: "bind_active net dev d = Some d' \<Longrightarrow> bound d' net dev"
  by (simp add: bind_active_bound)

lemma bind_active_frame:
  assumes "bind_active net dev d = Some d'"
  shows "devices d' = devices d" "device_users d' = device_users d" "tokens d' = tokens d"
  using assms by (auto simp: bind_active_def split: if_splits)

lemma link_device_frame:
  assumes "link_device x usr d = Some d'"
  shows "devices d' = devices d" "tokens d' = tokens d"
  using assms by (auto simp: link_device_def split: if_splits)

text \<open>What the database holds of a device just admitted to a network.\<close>

definition member :: "db \<Rightarrow> Device \<Rightarrow> string \<Rightarrow> bool" where
  "member d device networkID \<longleftrightarrow> bound d networkID (dev_ID device)
     \<and> (dev_ID device, dev_UserID device) \<in> set (device_users d)
     \<and> (\<exists>r \<in> set (devices d). d_id r = dev_ID device \<and> d_key r = dev_PublicKey device)"

lemma admission_wp:
  assumes "\<And>t x. member (st_db t) x networkID \<Longrightarrow> dev_PublicKey x = dev_PublicKey device \<Longrightarrow>
      dev_UserID x = dev_UserID device \<Longrightarrow> tokens (st_db t) = tokens (st_db s) \<Longrightarrow> Q (Commit x) t"
    and "\<And>e t. E e t"
  shows "wp (knownDevice device req) (\<lambda>x. wp (admitDevice event x networkID now) Q E) E s"
proof (rule knownDevice_wp)
  fix t :: "'a store_scheme" and x :: Device and r
  assume known: "r \<in> set (devices (st_db t))" "d_id r = dev_ID x" "d_key r = dev_PublicKey device"
    "dev_PublicKey x = dev_PublicKey device" "dev_UserID x = dev_UserID device" "tokens (st_db t) = tokens (st_db s)"
  have "Q (Commit x) u"
    if "link_device (dev_ID x) (dev_UserID x) (st_db t) = Some d1" "bind_active networkID (dev_ID x) d1 = Some d2"
      "ins_audit event (dev_ID x) (unix now) d2 = Some (st_db u)" for d1 d2 and u :: "'a store_scheme"
  proof (rule assms(1))
    show "member (st_db u) x networkID"
      using link_device_linked [OF that(1)] link_device_frame [OF that(1)] bind_active_binds [OF that(2)]
        bind_active_frame [OF that(2)] ins_SomeD(9) [OF that(3)] known by (auto simp: member_def)
    show "tokens (st_db u) = tokens (st_db s)"
      using link_device_frame [OF that(1)] bind_active_frame [OF that(2)] ins_SomeD(9) [OF that(3)] known by simp
  qed (fact known)+
  then show "wp (admitDevice event x networkID now) Q E t"
    unfolding admitDevice_def using assms(2) by (simp add: wp_simps)
qed (rule assms(2))

lemma use_token_spent:
  "t \<in> set (tokens d) \<Longrightarrow> P t \<Longrightarrow> tokens d' = update_where P (\<lambda>t. t\<lparr>t_used := True\<rparr>) (tokens d) \<Longrightarrow> spent d' (t_hash t)"
  unfolding spent_def by (auto simp: bex_update_where)

lemma Enroll_wp:
  assumes "\<And>t dev usr net. alive (st_db s) net usr \<Longrightarrow> enabled (st_db s) usr \<Longrightarrow> room (st_db s) net \<Longrightarrow>
      \<not> spent (st_db s) (digest C (en_Token request)) \<or> \<not> inv_keys (st_db s) \<Longrightarrow>
      spent (st_db t) (digest C (en_Token request)) \<Longrightarrow> member (st_db t) dev net \<Longrightarrow> dev_UserID dev = usr \<Longrightarrow>
      csrKey C (en_CSR request) = Inr (dev_PublicKey dev) \<Longrightarrow> Q dev t"
    and "\<And>e t. E e t"
  shows "wp (Enroll C serial request now) Q E s"
proof (cases "csrKey C (en_CSR request)")
  case (Inr public)
  note key = this
  show ?thesis
  proof (cases "issueCertificate C serial s (KeyID C public) public now")
    case (Inr cert)
    let ?h = "digest C (en_Token request)"
    have ok: "Q dev t"
      if "token_rows C (en_Token request) now (st_db s) = (usr, net) # xs"
        "room (st_db s) net" "member (st_db t) dev net" "dev_UserID dev = usr" "dev_PublicKey dev = public"
        "tokens (st_db t) = update_where (\<lambda>t. t_hash t = ?h \<and> \<not> t_used t \<and> unix now < t_expires t)
           (\<lambda>t. t\<lparr>t_used := True\<rparr>) (tokens (st_db s))" for usr net xs dev t
    proof -
      from hd_in [OF that(1)] obtain k where k: "k \<in> set (tokens (st_db s))" "t_hash k = ?h" "\<not> t_used k"
          "unix now < t_expires k" and rest: "alive (st_db s) net usr" "enabled (st_db s) usr"
        unfolding set_token_rows by blast
      have "spent (st_db t) (t_hash k)"
        by (rule use_token_spent [OF k(1) _ that(6)]) (use k in simp)
      then show ?thesis
        using k rest that key spent_rows [of "st_db s" C "en_Token request" now] by (intro assms(1)) auto
    qed
    show ?thesis
      unfolding Enroll_def consumeToken_def using key Inr assms(2)
      by (simp add: wp_simps bindingFitsCapacity_def activeBindingCount_def)
        (auto intro!: admission_wp ok roomI simp: upd_defs split: prod.splits)
  qed (use assms(2) key in \<open>simp add: Enroll_def wp_simps\<close>)
qed (use assms(2) in \<open>simp add: Enroll_def wp_simps\<close>)

section \<open>Sessions of accounts\<close>

lemma queryRow_Inr:
  "\<not> faulty s \<Longrightarrow> fst (queryRow q s) = Inr x \<longleftrightarrow> (\<exists>xs. q (st_db s) = x # xs)"
  by (simp add: queryRow_def split: list.splits)

lemma mapErr_Inr: "fst (mapErr g m s) = Inr x \<longleftrightarrow> fst (m s) = Inr x"
  by (simp add: mapErr_def split: prod.splits sum.splits)

lemma AuthenticateUser_iff:
  assumes "db_inv (st_db s)" "\<not> faulty s"
  shows "fst (AuthenticateUser C token now s) = Inr user \<longleftrightarrow> length token = 64 \<and>
    (\<exists>r \<in> set (user_sessions (st_db s)). \<exists>u \<in> set (users (st_db s)). us_hash r = digest C token
       \<and> us_user r = u_id u \<and> unix now < us_expires r \<and> user = \<lparr>usr_ID = u_id u, usr_Username = u_email u\<rparr>)"
  (is "_ \<longleftrightarrow> length token = 64 \<and> ?session")
proof -
  let ?rows = "[\<lparr>usr_ID = u_id u, usr_Username = u_email u\<rparr>. u \<leftarrow> users (st_db s), r \<leftarrow> user_sessions (st_db s),
     us_user r = u_id u \<and> us_hash r = digest C token \<and> unix now < us_expires r \<and> \<not> u_disabled u]"
  have keys: "inv_keys (st_db s)" and ses: "inv_session (st_db s)" using assms(1) by (simp_all add: db_inv_def)
  have on: "\<not> u_disabled u" if "u \<in> set (users (st_db s))" "r \<in> set (user_sessions (st_db s))" "us_user r = u_id u" for u r
    using that ses keys user_id.unique_eq unfolding inv_session_def enabled_def inv_keys_def by metis
  have in_rows: "x \<in> set ?rows \<longleftrightarrow> (\<exists>r \<in> set (user_sessions (st_db s)). \<exists>u \<in> set (users (st_db s)).
      us_hash r = digest C token \<and> us_user r = u_id u \<and> unix now < us_expires r
      \<and> x = \<lparr>usr_ID = u_id u, usr_Username = u_email u\<rparr>)" for x
    using on by (auto split: if_splits)
  have one: "x = y" if "x \<in> set ?rows" "y \<in> set ?rows" for x y
  proof -
    from that obtain r u r' u' where row: "r \<in> set (user_sessions (st_db s))" "r' \<in> set (user_sessions (st_db s))"
      "us_hash r = digest C token" "us_hash r' = digest C token" "u \<in> set (users (st_db s))"
      "u' \<in> set (users (st_db s))" "us_user r = u_id u" "us_user r' = u_id u'"
      "x = \<lparr>usr_ID = u_id u, usr_Username = u_email u\<rparr>" "y = \<lparr>usr_ID = u_id u', usr_Username = u_email u'\<rparr>"
      unfolding in_rows by blast
    then have "r = r'" using keys session_hash.unique_eq [of "user_sessions (st_db s)" r r'] by (simp add: inv_keys_def)
    then have "u = u'" using keys row user_id.unique_eq [of "users (st_db s)" u u'] by (simp add: inv_keys_def)
    with row show ?thesis by simp
  qed
  have "(\<exists>xs. rows = user # xs) \<longleftrightarrow> user \<in> set rows" if "rows = ?rows" for rows
    using one unfolding that [symmetric] by (cases rows) auto
  then have "fst (queryRow (\<lambda>d. [\<lparr>usr_ID = u_id u, usr_Username = u_email u\<rparr>. u \<leftarrow> users d, r \<leftarrow> user_sessions d,
      us_user r = u_id u \<and> us_hash r = digest C token \<and> unix now < us_expires r \<and> \<not> u_disabled u]) s) = Inr user
    \<longleftrightarrow> user \<in> set ?rows"
    unfolding queryRow_Inr [OF assms(2)] by blast
  then show ?thesis
    unfolding in_rows by (simp add: AuthenticateUser_def guard_def throw_def mapErr_Inr)
qed

definition logged_in :: "crypto \<Rightarrow> string \<Rightarrow> string \<Rightarrow> db \<Rightarrow> UserSession \<Rightarrow> db \<Rightarrow> bool" where
  "logged_in C username password d ses d' \<longleftrightarrow> (\<exists>u \<in> set (users d). u_email u = username \<and> \<not> u_disabled u
     \<and> bcrypt_matches C (u_hash u) password \<and> ses_User ses = \<lparr>usr_ID = u_id u, usr_Username = u_email u\<rparr>
     \<and> users d' = users d
     \<and> user_sessions d' = user_sessions d @ [\<lparr>us_hash = digest C (ses_Token ses), us_user = u_id u, us_expires = ses_ExpiresAt ses\<rparr>])"

lemma ins_session_of_one:
  "ins_session_of h e u d = Some (d', Suc 0) \<Longrightarrow> users d' = users d
     \<and> user_sessions d' = user_sessions d @ [\<lparr>us_hash = h, us_user = u, us_expires = e\<rparr>]"
  by (auto simp: ins_session_of_def ins_session_def split: if_splits)

lemma login_body_success:
  fixes s :: "'z store_scheme"
  assumes "login_body C (Some rnd) username password now s = (Inr ses, t)"
  shows "logged_in C username password (st_db s) ses (st_db t) \<and> ses_Token ses = hex_encode rnd
    \<and> ses_ExpiresAt ses = unix (now + 24 * hour)"
proof -
  let ?Q = "\<lambda>ses (t :: 'z store_scheme). logged_in C username password (st_db s) ses (st_db t)
    \<and> ses_Token ses = hex_encode rnd \<and> ses_ExpiresAt ses = unix (now + 24 * hour)"
  have "wp (login_body C (Some rnd) username password now) ?Q (\<lambda>_ _. True) s"
  proof -
    have step: "logged_in C username password (st_db s) \<lparr>ses_User = \<lparr>usr_ID = i, usr_Username = n\<rparr>, ses_Token = hex_encode rnd,
          ses_ExpiresAt = unix (now + 24 * hour)\<rparr> d"
      if "[(u_id u, u_email u, u_hash u). u \<leftarrow> users (st_db s), u_email u = username \<and> \<not> u_disabled u] = (i, n, h) # xs"
        "bcrypt_matches C h password"
        "ins_session_of (digest C (hex_encode rnd)) (unix (now + 24 * hour)) i (st_db s) = Some (d, Suc 0)" for i n h xs d
    proof -
      from hd_in [OF that(1)] obtain u where "u \<in> set (users (st_db s))" "u_email u = username" "\<not> u_disabled u"
        "i = u_id u" "n = u_email u" "h = u_hash u" by (auto split: if_splits)
      then show ?thesis using that(2) ins_session_of_one [OF that(3)] by (auto simp: logged_in_def)
    qed
    show ?thesis
      unfolding login_body_def NewSecret_def
      by (auto simp: wp_simps Let_def step)
  qed
  with assms show ?thesis by (simp add: wp_def)
qed

section \<open>Pairs\<close>

text \<open>The table of the moves of a pair: who may make them, from which state, and what the confirming
  device must know.\<close>

definition may_move :: "crypto \<Rightarrow> db \<Rightarrow> string \<Rightarrow> string \<Rightarrow> string \<Rightarrow> time \<Rightarrow> pair_row \<Rightarrow> pair_state \<Rightarrow> bool" where
  "may_move C d deviceID action fingerprint now p st \<longleftrightarrow>
     (action = ''approve'' \<and> st = Approved \<and> p_target p = deviceID \<and> p_state p = Invited \<and> unix now < p_expires p)
     \<or> (action = ''reject'' \<and> st = Rejected \<and> p_target p = deviceID \<and> p_state p = Invited \<and> unix now < p_expires p)
     \<or> (action = ''confirm'' \<and> st = Active \<and> p_initiator p = deviceID \<and> p_state p = Approved \<and> unix now < p_expires p
         \<and> (\<exists>r \<in> set (devices d). d_id r = p_target p \<and> fingerprint = KeyID C (d_key r)))
     \<or> (action = ''revoke'' \<and> st = Revoked \<and> p_state p = Active)"

lemma nextState_moves:
  fixes s :: "'z store_scheme"
  assumes "\<And>t st. st_db t = st_db s \<Longrightarrow> may_move C (st_db s) deviceID action fingerprint now p st \<Longrightarrow> Q st t"
    "action = ''revoke'' \<or> unix now < p_expires p" "\<And>e t. st_db t = st_db s \<Longrightarrow> E e t"
  shows "wp (nextState C deviceID (pair_of p) action fingerprint) Q E s"
proof -
  have key: "\<exists>r \<in> set (devices (st_db s)). d_id r = p_target p \<and> KeyID C (dev_PublicKey x) = KeyID C (d_key r)"
    if "device_rows (p_target p) (st_db s) = x # xs" for x xs
    using hd_in [OF that] unfolding set_device_rows by (auto simp: device_of_def)
  consider "action = ''approve''" | "action = ''reject''" | "action = ''confirm''" | "action = ''revoke''"
    | "action \<notin> {''approve'', ''reject'', ''confirm'', ''revoke''}" by blast
  then show ?thesis
  proof cases
    case 1
    then show ?thesis using assms by (simp add: nextState_def wp_simps pair_of_def may_move_def)
  next
    case 2
    then show ?thesis using assms by (simp add: nextState_def wp_simps pair_of_def may_move_def)
  next
    case 3
    then show ?thesis using assms key by (simp add: nextState_def wp_simps pair_of_def may_move_def)
  next
    case 4
    then show ?thesis using assms by (simp add: nextState_def wp_simps pair_of_def may_move_def)
  next
    case 5
    then show ?thesis using assms by (simp add: nextState_def wp_simps)
  qed
qed

lemma update_where_eq: "(\<And>r. r \<in> set rs \<Longrightarrow> P r = Q r) \<Longrightarrow> update_where P f rs = update_where Q f rs"
  by (simp add: update_where_def)

lemma moves_by_id:
  assumes "inv_keys d" "p \<in> set (pairs d)" "p_id p = i" "count_where (moves d (pair_of p)) (pairs d) = Suc 0"
  shows "fst (upd_pairs (moves d (pair_of p)) f d) = d\<lparr>pairs := update_where (\<lambda>q. p_id q = i) f (pairs d)\<rparr>"
    "\<not> revoked d (p_initiator p)" "\<not> revoked d (p_target p)"
proof -
  from assms(4) obtain q where q: "q \<in> set (pairs d)" "moves d (pair_of p) q"
    using count_where_pos [of "moves d (pair_of p)" "pairs d"] by auto
  then have "q = p"
    using assms pair_id.unique_eq [of "pairs d" q p] by (simp add: inv_keys_def moves_def pair_of_def)
  with q have p: "moves d (pair_of p) p" by simp
  have "moves d (pair_of p) r \<longleftrightarrow> p_id r = i" if "r \<in> set (pairs d)" for r
    using that p assms(1,2,3) pair_id.unique_eq [of "pairs d" r p] by (auto simp: inv_keys_def moves_def pair_of_def)
  then show "fst (upd_pairs (moves d (pair_of p)) f d) = d\<lparr>pairs := update_where (\<lambda>q. p_id q = i) f (pairs d)\<rparr>"
    by (simp add: upd_pairs_def cong: update_where_eq)
  show "\<not> revoked d (p_initiator p)" "\<not> revoked d (p_target p)"
    using p by (auto simp: moves_def pair_of_def revoked_def list_ex_iff)
qed

text \<open>What a successful action on a pair has done.\<close>

definition pair_moved :: "crypto \<Rightarrow> string \<Rightarrow> string \<Rightarrow> string \<Rightarrow> string \<Rightarrow> time \<Rightarrow> db \<Rightarrow> Pair \<Rightarrow> db \<Rightarrow> bool" where
  "pair_moved C deviceID pairID action fingerprint now d result d' \<longleftrightarrow> (\<exists>p \<in> set (pairs d). \<exists>st.
     p_id p = pairID \<and> (p_initiator p = deviceID \<or> p_target p = deviceID)
     \<and> may_pair d (p_network p) (p_initiator p) (p_target p)
     \<and> \<not> revoked d (p_initiator p) \<and> \<not> revoked d (p_target p)
     \<and> may_move C d deviceID action fingerprint now p st
     \<and> d' = d\<lparr>pairs := update_where (\<lambda>q. p_id q = pairID) (set_state st) (pairs d)\<rparr>
     \<and> result = pair_of (set_state st p))"

lemma wp_true: "wp m (\<lambda>_ _. True) (\<lambda>_ _. True) s"
  by (simp add: wp_def split: prod.splits sum.splits)

text \<open>The update of the row, and the row read back.\<close>

lemma update_pair_wp:
  fixes v :: "'z store_scheme"
  assumes keys: "inv_keys d"
    and p: "p \<in> set (pairs d)" "p_id p = pairID" "p_initiator p = deviceID \<or> p_target p = deviceID"
    and auth: "may_pair d (p_network p) (p_initiator p) (p_target p)"
    and move: "may_move C d deviceID action fingerprint now p st" and v: "st_db v = d"
  shows "wp (execUpdate (\<lambda>d. upd_pairs (moves d (pair_of p)) (set_state st) d))
    (\<lambda>n. wp (guard (n = 1) ''p2p.pair_state_conflict'' (getPair deviceID pairID))
      (\<lambda>result t. pair_moved C deviceID pairID action fingerprint now d result (st_db t)) (\<lambda>_ _. True)) (\<lambda>_ _. True) v"
    (is "wp _ (\<lambda>n. wp _ ?Q _) _ v")
proof -
  let ?d' = "d\<lparr>pairs := update_where (\<lambda>q. p_id q = pairID) (set_state st) (pairs d)\<rparr>"
  have got: "?Q (pair_of q) u"
    if "count_where (moves d (pair_of p)) (pairs d) = Suc 0" "q \<in> set (pairs ?d')" "p_id q = pairID" "st_db u = ?d'"
    for q and u :: "'z store_scheme"
  proof -
    from that(2,3) obtain r where "r \<in> set (pairs d)" "p_id r = pairID" "q = set_state st r"
      by (auto simp: in_update_where split: if_splits)
    moreover from this p keys have "r = p" using pair_id.unique_eq [of "pairs d" r p] by (simp add: inv_keys_def)
    ultimately show ?thesis
      unfolding pair_moved_def
      by (intro bexI [of _ p] exI [of _ st] conjI)
        (use p auth move that(4) moves_by_id(2,3) [OF keys p(1,2) that(1)] in simp_all)
  qed
  have "wp (getPair deviceID pairID) ?Q (\<lambda>_ _. True) u"
    if "count_where (moves d (pair_of p)) (pairs d) = Suc 0" "st_db u = ?d'" for u :: "'z store_scheme"
    by (rule getPair_wp) (use got [OF that(1)] that(2) in simp_all)
  then show ?thesis
    using v moves_by_id(1) [OF keys p(1,2), of "set_state st"] by (simp add: wp_simps upd_pairs_def)
qed

text \<open>From the decision about the next state on.\<close>

lemma decided_wp:
  fixes u :: "'z store_scheme"
  assumes keys: "inv_keys d"
    and p: "p \<in> set (pairs d)" "p_id p = pairID" "p_initiator p = deviceID \<or> p_target p = deviceID"
    and auth: "may_pair d (p_network p) (p_initiator p) (p_target p)" and u: "st_db u = d"
  shows "wp (nextState C deviceID (pair_of p) action fingerprint)
    (\<lambda>st. wp (guard (\<not> (action \<noteq> ''revoke'' \<and> pr_ExpiresAt (pair_of p) \<le> unix now)) ''p2p.pairing_expired''
       (bnd (execUpdate (\<lambda>d. upd_pairs (moves d (pair_of p)) (set_state st) d))
         (\<lambda>count. guard (count = 1) ''p2p.pair_state_conflict'' (getPair deviceID pairID))))
      (\<lambda>result t. pair_moved C deviceID pairID action fingerprint now d result (st_db t)) (\<lambda>_ _. True)) (\<lambda>_ _. True) u"
    (is "wp _ (\<lambda>st. wp (guard ?live _ (?update st)) ?Q _) _ u")
proof (cases "action = ''revoke'' \<or> unix now < p_expires p")
  case True
  show ?thesis
  proof (rule nextState_moves [OF _ True])
    fix v :: "'z store_scheme" and st
    assume v: "st_db v = st_db u" and m: "may_move C (st_db u) deviceID action fingerprint now p st"
    show "wp (guard ?live ''p2p.pairing_expired'' (?update st)) ?Q (\<lambda>_ _. True) v"
      unfolding wp_guard [of ?live] wp_bnd using update_pair_wp [OF keys p auth m [unfolded u] v [unfolded u]] by blast
  qed simp
next
  case False
  then have expired: "\<not> ?live" by (simp add: pair_of_def)
  show ?thesis
    by (rule wp_mono [OF wp_true]) (use expired in \<open>simp only: wp_guard simp_thms\<close>)+
qed

lemma ActOnPair_wp:
  fixes s :: "'z store_scheme"
  assumes keys: "inv_keys (st_db s)"
  shows "wp (ActOnPair C deviceID pairID action fingerprint now)
    (\<lambda>result t. pair_moved C deviceID pairID action fingerprint now (st_db s) result (st_db t)) (\<lambda>_ _. True) s"
  unfolding ActOnPair_def authorizePair_def wp_bnd
proof (rule getPair_wp, goal_cases)
  case (1 t p)
  show ?case
  proof (rule sameOwner_wp, goal_cases)
    case (1 u usr)
    have "may_pair (st_db s) (p_network p) (p_initiator p) (p_target p)"
      using may_pairI [OF 1(2,3)] \<open>st_db t = st_db s\<close> by (simp add: pair_of_def)
    then show ?case
      using decided_wp [OF keys] 1(1) \<open>st_db t = st_db s\<close> \<open>p \<in> set (pairs (st_db s))\<close> \<open>p_id p = pairID\<close>
        \<open>p_initiator p = deviceID \<or> p_target p = deviceID\<close> by simp
  qed simp
qed simp

section \<open>Invitations\<close>

text \<open>What a successful invitation has done.\<close>

definition invited :: "string \<Rightarrow> Share \<Rightarrow> time \<Rightarrow> db \<Rightarrow> Pair \<Rightarrow> db \<Rightarrow> bool" where
  "invited sender share now d pair d' \<longleftrightarrow>
     pr_NetworkID pair = sh_NetworkID share \<and> pr_Initiator pair = sender \<and> pr_Target pair = sh_DeviceID share
     \<and> pr_State pair = Invited \<and> pr_Revision pair = 1 \<and> pr_ExpiresAt pair = unix (now + 5 * minute)
     \<and> sender \<noteq> sh_DeviceID share \<and> may_pair d (sh_NetworkID share) sender (sh_DeviceID share)
     \<and> (\<forall>p \<in> set (pairs d). \<not> busy (sh_NetworkID share) sender (sh_DeviceID share) now p)
     \<and> \<not> share_spent d (sh_Nonce share) \<and> share_spent d' (sh_Nonce share)
     \<and> pairs d' = pairs d @ [row_of pair]"

lemma use_share_spent:
  assumes "inv_keys d" "count_where (\<lambda>r. s_nonce r = nonce \<and> P r \<and> \<not> s_used r) (shares d) = Suc 0"
  shows "\<not> share_spent d nonce"
    "shares d' = update_where (\<lambda>r. s_nonce r = nonce \<and> P r \<and> \<not> s_used r) (\<lambda>r. r\<lparr>s_used := True\<rparr>) (shares d) \<Longrightarrow>
       share_spent d' nonce"
proof -
  from assms(2) obtain r where r: "r \<in> set (shares d)" "s_nonce r = nonce" "P r" "\<not> s_used r"
    using count_where_pos [of "\<lambda>r. s_nonce r = nonce \<and> P r \<and> \<not> s_used r" "shares d"] by auto
  then show "\<not> share_spent d nonce"
    using assms(1) share_nonce.unique_eq [of "shares d"] unfolding share_spent_def inv_keys_def by blast
  show "share_spent d' nonce"
    if "shares d' = update_where (\<lambda>r. s_nonce r = nonce \<and> P r \<and> \<not> s_used r) (\<lambda>r. r\<lparr>s_used := True\<rparr>) (shares d)"
    using r unfolding share_spent_def that by (auto simp: bex_update_where)
qed

lemma Invite_wp:
  fixes s :: "'z store_scheme"
  assumes keys: "inv_keys (st_db s)"
  shows "wp (Invite C rnd sender share now) (\<lambda>pair t. invited sender share now (st_db s) pair (st_db t)) (\<lambda>_ _. True) s"
proof -
  let ?P = "\<lambda>r. s_nonce r = sh_Nonce share \<and> s_device r = sh_DeviceID share \<and> s_network r = sh_NetworkID share
    \<and> s_expires r = sh_ExpiresAt share \<and> unix now < s_expires r \<and> \<not> s_used r"
  have step: "invited sender share now (st_db s) pair d'"
    if "pair = \<lparr>pr_ID = NewID rnd, pr_NetworkID = sh_NetworkID share, pr_Initiator = sender, pr_Target = sh_DeviceID share,
        pr_State = Invited, pr_ExpiresAt = unix now + 300, pr_Revision = Suc 0\<rparr>"
      "ins_pair (row_of pair) (fst (upd_shares ?P (\<lambda>r. r\<lparr>s_used := True\<rparr>) (st_db s))) = Some d'"
      "snd (upd_shares ?P (\<lambda>r. r\<lparr>s_used := True\<rparr>) (st_db s)) = Suc 0" "sh_DeviceID share \<noteq> sender"
      "may_pair (st_db s) (sh_NetworkID share) sender (sh_DeviceID share)"
      "count_where (busy (sh_NetworkID share) sender (sh_DeviceID share) now) (pairs (st_db s)) = 0" for pair d'
  proof -
    let ?R = "\<lambda>r. s_device r = sh_DeviceID share \<and> s_network r = sh_NetworkID share
      \<and> s_expires r = sh_ExpiresAt share \<and> unix now < s_expires r"
    from ins_SomeD(7) [OF that(2)] have d: "d' = (st_db s)\<lparr>pairs := pairs (st_db s) @ [row_of pair],
        shares := update_where ?P (\<lambda>r. r\<lparr>s_used := True\<rparr>) (shares (st_db s))\<rparr>"
      by (simp add: upd_shares_def)
    have "\<not> share_spent (st_db s) (sh_Nonce share)" "share_spent d' (sh_Nonce share)"
      by (rule use_share_spent [OF keys, of "sh_Nonce share" ?R]; use that(3) d in \<open>simp add: upd_shares_def\<close>)+
    with that d show ?thesis by (simp add: invited_def count_where_0)
  qed
  show ?thesis
    unfolding Invite_def countBusy_def
    by (auto simp: wp_simps Let_def share_valid_def device_rows_id split: option.splits intro!: sameOwner_wp)
      (erule step [OF refl], simp_all add: may_pairI)
qed

section \<open>A share just minted is accepted\<close>

lemma no_faults [simp]:
  "st_faults s = [] \<Longrightarrow> \<not> faulty s" "st_faults s = [] \<Longrightarrow> st_faults (tick s) = []"
  by (simp_all add: faulty_def tick_def)

lemma mintShare_success:
  fixes s :: "'z store_scheme"
  assumes "mintShare C rnd i networkID now s = (Inr share, t)" "st_faults s = []"
  shows "\<exists>device. device \<in> set (device_rows i (st_db s)) \<and> share = new_share C s rnd device i networkID now
    \<and> binding_rows networkID i (st_db s) \<noteq> []
    \<and> st_db t = (st_db s)\<lparr>shares := shares (st_db s) @ [\<lparr>s_nonce = NewID rnd, s_device = i, s_network = networkID,
         s_expires = unix (now + 5 * minute), s_used = False\<rparr>]\<rparr>
    \<and> NewID rnd \<notin> s_nonce ` set (shares (st_db s))
    \<and> st_faults t = [] \<and> st_key t = st_key s \<and> st_serviceID t = st_serviceID s"
proof -
  let ?Q = "\<lambda>share (t :: 'z store_scheme). \<exists>device. device \<in> set (device_rows i (st_db s)) \<and> share = new_share C s rnd device i networkID now
    \<and> binding_rows networkID i (st_db s) \<noteq> []
    \<and> st_db t = (st_db s)\<lparr>shares := shares (st_db s) @ [\<lparr>s_nonce = NewID rnd, s_device = i, s_network = networkID,
         s_expires = unix (now + 5 * minute), s_used = False\<rparr>]\<rparr>
    \<and> NewID rnd \<notin> s_nonce ` set (shares (st_db s))
    \<and> st_faults t = [] \<and> st_key t = st_key s \<and> st_serviceID t = st_serviceID s"
  have n: "sh_Nonce (new_share C v rnd x i networkID now) = NewID rnd"
    "sh_ExpiresAt (new_share C v rnd x i networkID now) = unix now + 300"
    "new_share C (tick v) rnd x i networkID now = new_share C v rnd x i networkID now" for v :: "'z store_scheme" and x
    by (simp_all add: new_share_def Let_def)
  have "wp (mintShare C rnd i networkID now) ?Q (\<lambda>_ _. True) s"
    unfolding mintShare_def
    by (simp add: wp_simps Let_def assms(2) n) (auto dest!: ins_SomeD(6))
  with assms(1) show ?thesis by (simp add: wp_def)
qed

lemma shares_frame [simp]:
  "device_rows i (d\<lparr>shares := x\<rparr>) = device_rows i d" "binding_rows j i (d\<lparr>shares := x\<rparr>) = binding_rows j i d"
  by (simp_all add: device_rows_def binding_rows_def)

lemma new_share_simps:
  "sh_Version (new_share C s rnd x i j now) = Version" "sh_ServiceID (new_share C s rnd x i j now) = st_serviceID s"
  "sh_NetworkID (new_share C s rnd x i j now) = j" "sh_DeviceID (new_share C s rnd x i j now) = i"
  "sh_Fingerprint (new_share C s rnd x i j now) = KeyID C (dev_PublicKey x)"
  "sh_Nonce (new_share C s rnd x i j now) = NewID rnd" "sh_ExpiresAt (new_share C s rnd x i j now) = unix now + 300"
  "Share_SigningBytes (new_share C s rnd x i j now) =
     Share_SigningBytes (new_share C s rnd x i j now\<lparr>sh_Signature := y\<rparr>)"
  by (simp_all add: new_share_def Let_def Share_SigningBytes_def Share_elems_def)

lemma new_share_signed:
  assumes "sound_crypto C"
  shows "\<exists>sig. b64_decode (sh_Signature (new_share C s rnd x i j now)) = Some sig
    \<and> ed_verify C (ed_public C (st_key s)) (Share_SigningBytes (new_share C s rnd x i j now)) sig"
  using assms by (simp add: new_share_def Let_def b64_roundtrip sound_crypto_def Share_SigningBytes_def Share_elems_def)

lemma share_bytes_signature [simp]: "Share_SigningBytes (x\<lparr>sh_Signature := y\<rparr>) = Share_SigningBytes x"
  by (simp add: Share_SigningBytes_def Share_elems_def)

lemma device_rows_one:
  assumes "inv_keys d" "x \<in> set (device_rows i d)" "y \<in> set (device_rows i d)"
  shows "x = y"
  using assms device_id.unique_eq unfolding set_device_rows inv_keys_def by metis

lemma binding_rows_owner:
  "inv_keys d \<Longrightarrow> u \<in> set (binding_rows j a d) \<Longrightarrow> v \<in> set (binding_rows j b d) \<Longrightarrow> u = v"
  unfolding set_binding_rows alive_def inv_keys_def using network_id.unique_eq by metis

lemma sameOwner_succeeds:
  assumes "inv_keys (st_db s)" "binding_rows j a (st_db s) \<noteq> []" "binding_rows j b (st_db s) \<noteq> []" "st_faults s = []"
    and "\<And>t. st_db t = st_db s \<Longrightarrow> st_faults t = [] \<Longrightarrow> Q () t"
  shows "wp (sameOwner j a b) Q E s"
proof -
  from assms(2,3) obtain u us v vs where rows: "binding_rows j a (st_db s) = u # us" "binding_rows j b (st_db s) = v # vs"
    by (meson neq_Nil_conv)
  with binding_rows_owner [OF assms(1), of u j a v b] have "u = v" by simp
  with rows show ?thesis using assms(4,5) by (simp add: sameOwner_def wp_simps)
qed

lemma ins_pair_accepts:
  assumes "p_id r \<notin> p_id ` set (pairs d)" "p_network r \<in> n_id ` set (networks d)"
    "p_initiator r \<in> d_id ` set (devices d)" "p_target r \<in> d_id ` set (devices d)"
  shows "\<exists>d'. ins_pair r d = Some d'"
  using assms by (simp add: ins_pair_def)

lemma share_valid_tick [simp]: "share_valid C (tick s) a b c e = share_valid C s a b c e"
  by (simp add: share_valid_def split: option.split)

lemma Invite_accepts:
  fixes s :: "'z store_scheme"
  assumes sound: "sound_crypto C" and inv: "db_inv (st_db s)"
    and share: "mintShare C rnd i networkID now s = (Inr share, t)" "st_faults s = []"
    and sender: "device_rows sender (st_db s) \<noteq> []" "binding_rows networkID sender (st_db s) \<noteq> []" "sender \<noteq> i"
    and free: "\<forall>p \<in> set (pairs (st_db s)). \<not> busy networkID sender i later p" "NewID rnd' \<notin> p_id ` set (pairs (st_db s))"
    and clock: "now \<le> later" "unix later < unix (now + 5 * minute)"
  shows "\<exists>pair. fst (Invite C rnd' sender share later t) = Inr pair"
proof -
  from mintShare_success [OF share] obtain device where dev: "device \<in> set (device_rows i (st_db s))"
    and sh: "share = new_share C s rnd device i networkID now" and bound: "binding_rows networkID i (st_db s) \<noteq> []"
    and db: "st_db t = (st_db s)\<lparr>shares := shares (st_db s) @ [\<lparr>s_nonce = NewID rnd, s_device = i, s_network = networkID,
         s_expires = unix (now + 5 * minute), s_used = False\<rparr>]\<rparr>"
    and fresh: "NewID rnd \<notin> s_nonce ` set (shares (st_db s))"
    and t: "st_faults t = []" "st_key t = st_key s" "st_serviceID t = st_serviceID s" by blast
  have keys: "inv_keys (st_db s)" using inv by (rule db_invD)
  have keys_t: "inv_keys (st_db t)" using db_invD(1) [OF mintShare.keeps_result [OF inv share(1)]] .
  from sender(1) obtain x xs where x: "device_rows sender (st_db s) = x # xs" by (meson neq_Nil_conv)
  from dev obtain y ys where "device_rows i (st_db s) = y # ys" by (cases "device_rows i (st_db s)") auto
  with device_rows_one [OF keys dev, of y] have y: "device_rows i (st_db s) = device # ys" by simp
  have id: "dev_ID device = i" using device_rows_id [OF y] .
  have valid: "share_valid C t sender device share later"
    using new_share_signed [OF sound, of s rnd device i networkID now] unix_mono [OF clock(1)] clock(2) sender(3)
    by (auto simp: share_valid_def sh new_share_simps(1-7) t)
  let ?P = "\<lambda>r. s_nonce r = NewID rnd \<and> s_device r = i \<and> s_network r = networkID \<and> s_expires r = unix now + 300
     \<and> unix later < s_expires r \<and> \<not> s_used r"
  have "count_where ?P (shares (st_db s)) = 0" using fresh unfolding count_where_0 by (metis image_eqI)
  then have one: "count_where ?P (shares (st_db t)) = 1" using clock(2) by (simp add: db)
  have busy: "count_where (busy networkID sender i later) (pairs (st_db t)) = 0"
    using free(1) by (simp add: count_where_0 db)
  have rows: "networkID \<in> n_id ` set (networks (st_db s))" "sender \<in> d_id ` set (devices (st_db s))"
    "i \<in> d_id ` set (devices (st_db s))"
  proof -
    from bound obtain usr us where "binding_rows networkID i (st_db s) = usr # us" by (meson neq_Nil_conv)
    from hd_in [OF this] show "networkID \<in> n_id ` set (networks (st_db s))" "i \<in> d_id ` set (devices (st_db s))"
      unfolding set_binding_rows alive_def by auto
    from hd_in [OF x] show "sender \<in> d_id ` set (devices (st_db s))" unfolding set_device_rows by auto
  qed
  let ?d = "st_db t"
  have dt: "device_rows sender ?d = x # xs" "device_rows i ?d = device # ys" "binding_rows networkID sender ?d \<noteq> []"
    "binding_rows networkID i ?d \<noteq> []"
    using x y sender(2) bound by (simp_all add: db)
  have ins: "ins_pair (row_of \<lparr>pr_ID = NewID rnd', pr_NetworkID = networkID, pr_Initiator = sender, pr_Target = i,
      pr_State = Invited, pr_ExpiresAt = unix later + 300, pr_Revision = Suc 0\<rparr>) (fst (upd_shares ?P f ?d)) \<noteq> None" for f
    using rows free(2) by (simp add: ins_pair_def row_of_def upd_shares_def db)
  have count: "snd (upd_shares ?P f ?d) = 1" for f using one by (simp add: upd_shares_def)
  have "wp (Invite C rnd' sender share later) (\<lambda>_ _. True) (\<lambda>_ _. False) t"
    unfolding Invite_def countBusy_def
    by (simp add: wp_simps Let_def sh new_share_simps(1-7) dt id t valid [unfolded sh])
      (rule sameOwner_succeeds, use keys_t dt t busy ins count in \<open>simp_all add: wp_simps\<close>)
  then show ?thesis by (auto simp: wp_def split: prod.splits sum.splits)
qed

end
