(* ===== verification/PairBook.thy ===== *)
theory PairBook
  imports System
begin

text \<open>
  The pairs as an abstract book: from the identifier of a pair to its entry.  Whatever the calls do to the tables,
  to the book they do nothing but open an entry, move one along the protocol, or revoke some of them.
  The contract \<open>following\<close> is that of an action whose effect on the tables is within a preorder; it
  composes as the actions do.
\<close>

section \<open>Actions within a preorder\<close>

definition following :: "(db \<Rightarrow> db \<Rightarrow> bool) \<Rightarrow> ('z, 'a) act \<Rightarrow> bool" where
  "following R m \<longleftrightarrow> (\<forall>s. R (st_db s) (st_db (snd (m s))))"

lemma followingI: "(\<And>s r t. m s = (r, t) \<Longrightarrow> R (st_db s) (st_db t)) \<Longrightarrow> following R m"
  unfolding following_def by (metis prod.collapse)

lemma followingD: "following R m \<Longrightarrow> m s = (r, t) \<Longrightarrow> R (st_db s) (st_db t)"
  unfolding following_def by (metis snd_conv)

named_theorems following_intros "closure of the actions within a preorder"

locale db_preorder =
  fixes R :: "db \<Rightarrow> db \<Rightarrow> bool"
  assumes same: "R d d"
    and chain: "R d e \<Longrightarrow> R e f \<Longrightarrow> R d f"
begin

lemma following_reading: "reading m \<Longrightarrow> following R m"
  by (rule followingI) (simp add: reading_result same)

lemma following_ret [following_intros]: "following R (ret x)"
  by (rule followingI) (simp add: ret_def same)

lemma following_throw [following_intros]: "following R (throw e)"
  by (rule followingI) (simp add: throw_def same)

lemma following_bnd [following_intros]:
  assumes "following R m" "\<And>x. following R (f x)"
  shows "following R (bnd m f)"
proof (rule followingI)
  fix s r t assume "bnd m f s = (r, t)"
  then show "R (st_db s) (st_db t)"
    using followingD [OF assms(1), of s] followingD [OF assms(2)]
    by (auto simp: bnd_def split: prod.splits sum.splits intro: chain)
qed

lemma following_guard [following_intros]: "following R m \<Longrightarrow> following R (guard c e m)"
  by (simp add: guard_def following_throw)

lemma following_if [following_intros]: "following R m \<Longrightarrow> following R n \<Longrightarrow> following R (if c then m else n)"
  by simp

lemma following_sum [following_intros]:
  "(\<And>e. following R (f e)) \<Longrightarrow> (\<And>x. following R (g x)) \<Longrightarrow> following R (case r of Inl e \<Rightarrow> f e | Inr x \<Rightarrow> g x)"
  by (simp split: sum.splits)

lemma following_option [following_intros]:
  "following R m \<Longrightarrow> (\<And>x. following R (g x)) \<Longrightarrow> following R (case r of None \<Rightarrow> m | Some x \<Rightarrow> g x)"
  by (simp split: option.splits)

lemma following_prod [following_intros]:
  "(\<And>x y. following R (f x y)) \<Longrightarrow> following R (case p of (x, y) \<Rightarrow> f x y)"
  by (simp split: prod.splits)

lemma following_mapErr [following_intros]: "following R m \<Longrightarrow> following R (mapErr g m)"
  by (rule followingI) (auto simp: mapErr_def split: prod.splits sum.splits dest: followingD)

lemma following_attempt [following_intros]: "following R m \<Longrightarrow> following R (attempt m)"
  by (rule followingI) (auto simp: attempt_def split: prod.splits dest: followingD)

lemma following_withStore [following_intros]: "(\<And>s. following R (f s)) \<Longrightarrow> following R (withStore f)"
  by (rule followingI) (metis withStore_def followingD)

lemma following_queries [following_intros]: "following R (query q)" "following R (queryRow r)"
  by (rule followingI; auto simp: query_def queryRow_def same split: if_splits list.splits)+

lemma following_execInsert [following_intros]:
  "(\<And>d d'. g d = Some d' \<Longrightarrow> R d d') \<Longrightarrow> following R (execInsert g)"
  by (rule followingI) (auto simp: execInsert_def same split: if_splits option.splits)

lemma following_execUpdate [following_intros]: "(\<And>d. R d (fst (g d))) \<Longrightarrow> following R (execUpdate g)"
  by (rule followingI) (auto simp: execUpdate_def same split: if_splits prod.splits, metis fst_conv)

lemma following_execSelect [following_intros]:
  "(\<And>d d' n. g d = Some (d', n) \<Longrightarrow> R d d') \<Longrightarrow> following R (execSelect g)"
  by (rule followingI) (auto simp: execSelect_def same split: if_splits option.splits)

lemma following_transaction [following_intros]: "following R m \<Longrightarrow> following R (transaction m)"
  by (rule followingI) (auto simp: transaction_def same split: if_splits prod.splits sum.splits outcome.splits dest!: followingD)

end

section \<open>The book\<close>

type_synonym book = "string \<Rightarrow> pair_row option"

definition book_of :: "db \<Rightarrow> book" where
  "book_of d = map_of (map (\<lambda>p. (p_id p, p)) (pairs d))"

text \<open>The protocol: an entry is opened once, as an invitation or adopted, at revision 1; it moves from invited to
  approved or rejected, from approved to active and from active to revoked; a sweep revokes any number of
  entries.  Every move counts the revision up by one.\<close>

inductive book_step :: "book \<Rightarrow> book \<Rightarrow> bool" where
  opened: "\<lbrakk>B i = None; p_id p = i; p_revision p = 1; p_state p = Invited \<or> p_state p = Active\<rbrakk> \<Longrightarrow> book_step B (B(i \<mapsto> p))"
| moved: "\<lbrakk>B i = Some p; step_of (p_state p) st\<rbrakk> \<Longrightarrow> book_step B (B(i \<mapsto> set_state st p))"
| swept: "book_step B (\<lambda>i. map_option (\<lambda>p. if P p then set_state Revoked p else p) (B i))"

definition book_runs :: "db \<Rightarrow> db \<Rightarrow> bool" where
  "book_runs d d' \<longleftrightarrow> book_step\<^sup>*\<^sup>* (book_of d) (book_of d')"

interpretation book: db_preorder book_runs
  by unfold_locales (auto simp: book_runs_def)

lemma book_same: "pairs d' = pairs d \<Longrightarrow> book_runs d d'"
  by (simp add: book_runs_def book_of_def)

lemma book_of_update:
  assumes "\<And>p. p_id (f p) = p_id p"
  shows "book_of (fst (upd_pairs P f d)) i = map_option (\<lambda>p. if P p then f p else p) (book_of d i)"
proof -
  have "map_of (map (\<lambda>p. (p_id p, p)) (update_where P f ps)) i
      = map_option (\<lambda>p. if P p then f p else p) (map_of (map (\<lambda>p. (p_id p, p)) ps) i)" for ps
    using assms by (induction ps) (auto simp: update_where_def)
  then show ?thesis by (simp add: book_of_def upd_pairs_def)
qed

lemma book_sweep: "book_runs d (fst (upd_pairs P (set_state Revoked) d))"
proof -
  have "book_of (fst (upd_pairs P (set_state Revoked) d))
      = (\<lambda>i. map_option (\<lambda>p. if P p then set_state Revoked p else p) (book_of d i))"
    by (rule ext) (rule book_of_update, simp)
  then show ?thesis unfolding book_runs_def by (simp add: r_into_rtranclp [of book_step, OF book_step.swept])
qed

lemma book_move:
  assumes "step_of (pr_State pair) st"
  shows "book_runs d (fst (upd_pairs (moves d pair) (set_state st) d))"
proof -
  let ?d = "fst (upd_pairs (moves d pair) (set_state st) d)"
  have upd: "book_of ?d i = map_option (\<lambda>p. if moves d pair p then set_state st p else p) (book_of d i)" for i
    by (rule book_of_update) simp
  have id: "book_of d i = Some p \<Longrightarrow> p_id p = i" for i p
    by (auto simp: book_of_def dest!: map_of_SomeD)
  show ?thesis
  proof (cases "\<exists>p. book_of d (pr_ID pair) = Some p \<and> moves d pair p")
    case True
    then obtain p where p: "book_of d (pr_ID pair) = Some p" "moves d pair p" by blast
    have "book_of ?d = (book_of d)(pr_ID pair \<mapsto> set_state st p)"
    proof
      fix i
      show "book_of ?d i = ((book_of d)(pr_ID pair \<mapsto> set_state st p)) i"
        using p id [of i] by (cases "book_of d i") (auto simp: upd moves_def)
    qed
    moreover have "book_step (book_of d) ((book_of d)(pr_ID pair \<mapsto> set_state st p))"
      using p assms by (intro book_step.moved) (simp_all add: moves_def)
    ultimately show ?thesis by (simp add: book_runs_def r_into_rtranclp)
  next
    case False
    have "book_of ?d = book_of d"
    proof
      fix i
      show "book_of ?d i = book_of d i"
        using False id [of i] by (cases "book_of d i") (auto simp: upd moves_def)
    qed
    then show ?thesis by (simp add: book_runs_def)
  qed
qed

lemma book_open:
  assumes "ins_pair p d = Some d'" "p_revision p = 1" "p_state p = Invited \<or> p_state p = Active"
  shows "book_runs d d'"
proof -
  have d': "pairs d' = pairs d @ [p]" and fresh: "p_id p \<notin> p_id ` set (pairs d)"
    using assms(1) by (auto simp: ins_pair_def split: if_splits)
  have "book_of d (p_id p) = None"
    using fresh by (simp add: book_of_def map_of_eq_None_iff image_image)
  then have "book_of d' = (book_of d)(p_id p \<mapsto> p)"
    by (auto simp: book_of_def d' map_add_def fun_eq_iff split: option.splits)
  with \<open>book_of d (p_id p) = None\<close> assms(2,3) show ?thesis
    by (simp add: book_runs_def r_into_rtranclp [of book_step, OF book_step.opened])
qed

section \<open>Every call follows the protocol\<close>

lemma book_ins:
  "ins_user ru d = Some d' \<Longrightarrow> book_runs d d'" "ins_session rs d = Some d' \<Longrightarrow> book_runs d d'"
  "ins_network rn d = Some d' \<Longrightarrow> book_runs d d'" "ins_token rt d = Some d' \<Longrightarrow> book_runs d d'"
  "ins_device rd d = Some d' \<Longrightarrow> book_runs d d'" "link_device dev usr d = Some d' \<Longrightarrow> book_runs d d'"
  "bind_active net dev d = Some d' \<Longrightarrow> book_runs d d'" "ins_share rh d = Some d' \<Longrightarrow> book_runs d d'"
  "ins_renewal rr d = Some d' \<Longrightarrow> book_runs d d'" "ins_audit ev sub at d = Some d' \<Longrightarrow> book_runs d d'"
  "ins_session_of h e u d = Some (d', n) \<Longrightarrow> book_runs d d'" "ins_network_of i name m userID d = Some (d', n) \<Longrightarrow> book_runs d d'"
  "upd_request name req i d = Some d' \<Longrightarrow> book_runs d d'"
  by (rule book_same; force simp: ins_defs ins_session_of_def ins_network_of_def upd_request_def upd_defs split: if_splits)+

lemma book_upd:
  "book_runs d (fst (upd_users P1 f1 d))" "book_runs d (fst (del_sessions P2 d))" "book_runs d (fst (upd_networks P3 f3 d))"
  "book_runs d (fst (upd_tokens P4 f4 d))" "book_runs d (fst (upd_devices P5 f5 d))" "book_runs d (fst (upd_bindings P6 f6 d))"
  "book_runs d (fst (upd_shares P7 f7 d))"
  by (rule book_same; simp add: upd_defs)+

lemmas book_readers [following_intros] = Device_of_reading [THEN book.following_reading]
  networkOwned_reading [THEN book.following_reading] bindingOwner_reading [THEN book.following_reading]
  reads_networks [THEN book.following_reading] tokenScope_reading [THEN book.following_reading]
  Authenticate_reading [THEN book.following_reading] pairing_readers [THEN book.following_reading]

lemma following_by_wp:
  assumes "\<And>s. wp m (\<lambda>_ t. R (st_db s) (st_db t)) (\<lambda>_ t. R (st_db s) (st_db t)) s"
  shows "following R m"
proof (rule followingI)
  fix s r t assume "m s = (r, t)"
  then show "R (st_db s) (st_db t)" using assms [of s] by (cases r) (simp_all add: wp_def)
qed

lemma users_book: "following book_runs (CreateUser C salt rnd email password)" "following book_runs (Logout C token)"
    "following book_runs (DisableUser i now)"
  unfolding CreateUser_def Logout_def DisableUser_def Let_def by (intro following_intros; auto dest: book_ins intro: book_upd book_sweep)+

lemma Login_book: "following book_runs (Login C rnd username password now)"
proof (rule followingI)
  fix s :: "'z store_scheme" and r t
  have body: "following book_runs (login_body C rnd username password now :: ('z, UserSession) act)"
    unfolding login_body_def Let_def by (intro following_intros; auto dest: book_ins intro: book_upd)
  assume "Login C rnd username password now s = (r, t)"
  then show "book_runs (st_db s) (st_db t)"
    using followingD [OF body, of "s\<lparr>st_logins := st_logins s + 1\<rparr>"] book.same
    by (fastforce simp: Login_def split: if_splits prod.splits)
qed

lemma networks_book:
  "following book_runs (CreateNetwork rnd userID name)" "following book_runs (RenameNetwork userID i name)"
  "following book_runs (UpdateNetworkLimit now userID i maxDevices)" "following book_runs (DeleteNetwork userID i now)"
  "following book_runs (BindDevice userID networkID deviceID)" "following book_runs (UnbindDevice userID networkID deviceID now)"
  "following book_runs (DeletePair userID networkID pairID now)"
  unfolding CreateNetwork_def countNetworks_def insertNetwork_def RenameNetwork_def UpdateNetworkLimit_def DeleteNetwork_def
    BindDevice_def UnbindDevice_def DeletePair_def Let_def
  by (intro following_intros; auto dest: book_ins intro: book_upd book_sweep)+

lemma enrolment_book:
  "following book_runs (RecordDeviceSeen i tel now)" "following book_runs (IssueEnrollmentToken C secret userID networkID now)"
  "following book_runs (Enroll C serial request now)" "following book_runs (JoinNetwork C serial request' now)"
  unfolding RecordDeviceSeen_def IssueEnrollmentToken_def Enroll_def JoinNetwork_def consumeToken_def knownDevice_def admitDevice_def Let_def
  by (intro following_intros; auto dest: book_ins intro: book_upd)+

lemma certificates_book:
  "following book_runs (Renew C serial cert request now)" "following book_runs (RecoverCertificate C serial request' now)"
  "following book_runs (RevokeDevice i now)"
  unfolding Renew_def RecoverCertificate_def RevokeDevice_def replaceCertificate_def spendToken_def consumeToken_def Let_def
  by (intro following_intros; auto dest: book_ins intro: book_upd book_sweep)+

lemma pairing_book:
  "following book_runs (mintShare C rnd i networkID now)" "following book_runs (Invite C rnd sender share now)"
  "following book_runs (adopt rnd initiator target networkID now)"
  unfolding mintShare_def Invite_def adopt_def Let_def
  by (intro following_intros; auto simp: row_of_def dest: book_ins intro: book_upd book_open)+

lemma adoptAll_book: "following book_runs (adoptAll rnds deviceID now peers adopted)"
  by (induction rnds deviceID now peers adopted rule: adoptAll.induct)
    (simp_all, (intro following_intros pairing_book(3); assumption?)+)

lemma AdoptNetwork_book: "following book_runs (AdoptNetwork rnds deviceID now)"
  unfolding AdoptNetwork_def by (intro following_intros adoptAll_book)

lemma ActOnPair_book: "following book_runs (ActOnPair C deviceID pairID action fingerprint now)"
  by (rule following_by_wp, unfold ActOnPair_def authorizePair_def)
    (auto simp: wp_simps book_move book.same intro!: getPair_wp sameOwner_wp nextState_wp)

lemmas calls_book = users_book Login_book networks_book enrolment_book certificates_book pairing_book AdoptNetwork_book ActOnPair_book

lemma perform_book: "book_runs (st_db s) (st_db (snd (perform C c s)))"
  by (cases c) (simp_all add: only_error_result calls_book [unfolded following_def, rule_format], simp add: modify_def book.same)

lemma run_book: "book_runs (st_db s) (st_db (run C cs s))"
  by (induction cs arbitrary: s) (auto intro: book.same book.chain perform_book)

end
