(* ===== verification/Adoption.thy ===== *)
theory Adoption
  imports Pairing
begin

text \<open>
  What an adoption (\<open>AdoptNetwork\<close> of \<open>internal/coordinator/pairing.go\<close>) does when the database answers: it opens
  an active pair with exactly the devices of the account in the networks of the device that have none open,
  and a second one finds nothing left to do.
\<close>

section \<open>The peers\<close>

lemma set_foldr_insert: "set (foldr insert_peer qs []) = set qs"
  by (induction qs) auto

lemma distinct_insert_peer: "distinct (insert_peer p qs) \<longleftrightarrow> p \<notin> set qs \<and> distinct qs"
  by (induction qs) auto

lemma distinct_peer_rows: "distinct (peer_rows deviceID userID d)"
proof -
  have "distinct (foldr insert_peer qs [])" if "distinct qs" for qs
    using that by (induction qs) (simp_all add: distinct_insert_peer set_foldr_insert)
  then show ?thesis unfolding peer_rows_def by simp
qed

lemma peer_rows_alive:
  assumes "(net, x) \<in> set (peer_rows deviceID userID d)"
  shows "alive d net userID \<and> enabled d userID \<and> (\<exists>r \<in> set (devices d). d_id r = x \<and> d_user r = userID \<and> \<not> d_revoked r)"
  using assms unfolding peer_rows_def set_foldr_insert set_remdups select_simps alive_def enabled_def
  by (elim bexE conjE; simp only: prod.inject) metis

lemma alive_owner: "inv_keys d \<Longrightarrow> alive d net u \<Longrightarrow> alive d net v \<Longrightarrow> u = v"
  unfolding alive_def inv_keys_def by (metis network_id.unique_eq)

lemma binding_rows_head:
  assumes "inv_keys d" "usr \<in> set (binding_rows net x d)"
  obtains rest where "binding_rows net x d = usr # rest"
proof (cases "binding_rows net x d")
  case (Cons u rest)
  then have "u \<in> set (binding_rows net x d)" by simp
  with assms have "u = usr" using alive_owner set_binding_rows by metis
  with Cons that show thesis by simp
qed (use assms(2) in simp)

text \<open>Two devices of one account, bound to a network of it that is not deleted.\<close>

definition mates :: "db \<Rightarrow> string \<Rightarrow> string \<Rightarrow> string \<Rightarrow> bool" where
  "mates d net a b \<longleftrightarrow> a \<noteq> b \<and> net \<in> n_id ` set (networks d) \<and> a \<in> d_id ` set (devices d) \<and> b \<in> d_id ` set (devices d)
     \<and> (\<exists>usr xs ys. binding_rows net a d = usr # xs \<and> binding_rows net b d = usr # ys)"

lemma mates_pairs [simp]: "mates (d\<lparr>pairs := ps\<rparr>) net a b = mates d net a b"
  by (simp add: mates_def binding_rows_def)

lemma peer_rows_pairs [simp]: "peer_rows i u (d\<lparr>pairs := ps\<rparr>) = peer_rows i u d"
  by (simp add: peer_rows_def)

lemma device_rows_pairs [simp]: "device_rows i (d\<lparr>pairs := ps\<rparr>) = device_rows i d"
  by (simp add: device_rows_def)

lemma peers_are_mates:
  assumes "db_inv d" "x \<in> set (device_rows deviceID d)" "(net, peer) \<in> set (peer_rows deviceID (dev_UserID x) d)"
  shows "mates d net deviceID peer"
proof -
  let ?u = "dev_UserID x"
  obtain r where r: "r \<in> set (devices d)" "d_id r = deviceID" "\<not> d_revoked r" "?u = d_user r"
    using assms(2) by (auto simp: set_device_rows device_of_def)
  note p = set_peer_rows [OF assms(3)] and q = peer_rows_alive [OF assms(3)]
  obtain r' where r': "r' \<in> set (devices d)" "d_id r' = peer" "d_user r' = ?u" "\<not> d_revoked r'" using q by blast
  have linked: "(deviceID, ?u) \<in> set (device_users d)" "(peer, ?u) \<in> set (device_users d)"
    using db_invD(3) [OF assms(1)] r r' unfolding inv_linked_def by metis+
  have "?u \<in> set (binding_rows net deviceID d)" "?u \<in> set (binding_rows net peer d)"
    using p q r r' linked unfolding set_binding_rows by blast+
  then obtain xs ys where "binding_rows net deviceID d = ?u # xs" "binding_rows net peer d = ?u # ys"
    using binding_rows_head [OF db_invD(1) [OF assms(1)]] by metis
  moreover have "net \<in> n_id ` set (networks d)" using q by (auto simp: alive_def)
  ultimately show ?thesis using p r r' unfolding mates_def by blast
qed

section \<open>One adoption\<close>

definition open_pair :: "string \<Rightarrow> time \<Rightarrow> db \<Rightarrow> string \<times> string \<Rightarrow> bool" where
  "open_pair i now d peer \<longleftrightarrow> (\<exists>p \<in> set (pairs d). busy (fst peer) i (snd peer) now p)"

definition adopted_pair :: "bytes \<Rightarrow> string \<Rightarrow> time \<Rightarrow> string \<times> string \<Rightarrow> Pair" where
  "adopted_pair rnd i now peer = \<lparr>pr_ID = NewID rnd, pr_NetworkID = fst peer, pr_Initiator = i, pr_Target = snd peer,
     pr_State = Active, pr_ExpiresAt = unix (now + 5 * minute), pr_Revision = 1\<rparr>"

lemma faultless_step: "st_faults s = [] \<Longrightarrow> \<not> faulty s \<and> tick s = s"
  by (cases s) (simp add: faulty_def tick_def)

lemma count_open: "count_where (busy net i x now) (pairs d) = 0 \<longleftrightarrow> \<not> open_pair i now d (net, x)"
  by (auto simp: count_where_def open_pair_def filter_empty_conv)

lemma adopt_open:
  assumes "st_faults s = []" "mates (st_db s) net i x" "open_pair i now (st_db s) (net, x)"
  shows "adopt rnd i x net now s = (Inl (P2p ''p2p.pairing_busy''), s)"
  using assms faultless_step [OF assms(1)] count_open [of net i x now "st_db s"]
  by (auto simp: adopt_def sameOwner_def bindingOwner_def countBusy_def act_defs Let_def mates_def)

lemma adopt_new:
  assumes "st_faults s = []" "mates (st_db s) net i x" "\<not> open_pair i now (st_db s) (net, x)"
    and "NewID rnd \<notin> p_id ` set (pairs (st_db s))"
  shows "adopt rnd i x net now s = (Inr (adopted_pair rnd i now (net, x)),
    s\<lparr>st_db := (st_db s)\<lparr>pairs := pairs (st_db s) @ [row_of (adopted_pair rnd i now (net, x))]\<rparr>\<rparr>)"
  using assms faultless_step [OF assms(1)] count_open [of net i x now "st_db s"]
  by (auto simp: adopt_def sameOwner_def bindingOwner_def countBusy_def act_defs Let_def mates_def ins_pair_def
      row_of_def adopted_pair_def faulty_def tick_def)

section \<open>The whole adoption\<close>

lemma open_pair_append:
  "open_pair i now (d\<lparr>pairs := pairs d @ [row_of (adopted_pair rnd i now peer)]\<rparr>) q \<longleftrightarrow>
     open_pair i now d q \<or> busy (fst q) i (snd q) now (row_of (adopted_pair rnd i now peer))"
  by (auto simp: open_pair_def)

lemma busy_adopted: "snd q \<noteq> i \<Longrightarrow> busy (fst q) i (snd q) now' (row_of (adopted_pair rnd i now peer)) \<longleftrightarrow> q = peer"
  by (auto simp: busy_def row_of_def adopted_pair_def prod_eq_iff)

fun new_pairs :: "(nat \<Rightarrow> bytes) \<Rightarrow> string \<Rightarrow> time \<Rightarrow> db \<Rightarrow> (string \<times> string) list \<Rightarrow> Pair list" where
  "new_pairs rnds i now d [] = []"
| "new_pairs rnds i now d (peer # peers) =
     (if open_pair i now d peer then new_pairs (\<lambda>n. rnds (Suc n)) i now d peers
      else adopted_pair (rnds 0) i now peer # new_pairs (\<lambda>n. rnds (Suc n)) i now d peers)"

lemma new_pairs_peers: "map (\<lambda>p. (pr_NetworkID p, pr_Target p)) (new_pairs rnds i now d peers) = filter (\<lambda>q. \<not> open_pair i now d q) peers"
  by (induction rnds i now d peers rule: new_pairs.induct) (simp_all add: adopted_pair_def)

lemma new_pairs_shape: "p \<in> set (new_pairs rnds i now d peers) \<Longrightarrow> \<exists>rnd peer. p = adopted_pair rnd i now peer"
  by (induction rnds i now d peers rule: new_pairs.induct) (auto split: if_splits)

lemma new_pairs_append:
  "q \<notin> set peers \<Longrightarrow> \<forall>p \<in> set peers. snd p \<noteq> i \<Longrightarrow>
   new_pairs rnds i now (d\<lparr>pairs := pairs d @ [row_of (adopted_pair rnd i now q)]\<rparr>) peers = new_pairs rnds i now d peers"
  by (induction rnds i now d peers rule: new_pairs.induct) (auto simp: open_pair_append busy_adopted)

text \<open>The first \<open>n\<close> identifiers drawn are new.\<close>

definition fresh_ids :: "(nat \<Rightarrow> bytes) \<Rightarrow> nat \<Rightarrow> db \<Rightarrow> bool" where
  "fresh_ids rnds n d \<longleftrightarrow> distinct (map (\<lambda>k. NewID (rnds k)) [0..<n])
     \<and> list_all (\<lambda>k. NewID (rnds k) \<notin> p_id ` set (pairs d)) [0..<n]"

lemma fresh_ids_Suc:
  "fresh_ids rnds (Suc n) d \<longleftrightarrow> NewID (rnds 0) \<notin> p_id ` set (pairs d) \<and> (\<forall>k < n. NewID (rnds 0) \<noteq> NewID (rnds (Suc k)))
     \<and> fresh_ids (\<lambda>n. rnds (Suc n)) n d"
proof -
  have first: "[0..<Suc n] = 0 # map Suc [0..<n]" by (simp add: upt_conv_Cons map_Suc_upt del: upt_Suc)
  show ?thesis unfolding fresh_ids_def first by (auto simp: list.pred_map comp_def simp del: map_Suc_upt)
qed

lemma adoptAll_result:
  assumes "st_faults s = []" "\<forall>(net, x) \<in> set peers. mates (st_db s) net i x" "distinct peers"
    and "fresh_ids rnds (length peers) (st_db s)"
  shows "adoptAll rnds i now peers acc s = (Inr (acc @ new_pairs rnds i now (st_db s) peers),
    s\<lparr>st_db := (st_db s)\<lparr>pairs := pairs (st_db s) @ map row_of (new_pairs rnds i now (st_db s) peers)\<rparr>\<rparr>)"
  using assms
proof (induction rnds i now peers acc arbitrary: s rule: adoptAll.induct)
  case (1 rnds i now acc)
  show ?case by (simp add: ret_def)
next
  case (2 rnds i now net x peers acc)
  let ?rnd = "rnds 0" and ?rest = "\<lambda>n. rnds (Suc n)"
  have mate: "mates (st_db s) net i x" "\<forall>(net, x) \<in> set peers. mates (st_db s) net i x" using "2.prems"(2) by auto
  then have others: "\<forall>p \<in> set peers. snd p \<noteq> i" by (auto simp: mates_def)
  have fresh: "fresh_ids ?rest (length peers) (st_db s)" "NewID ?rnd \<notin> p_id ` set (pairs (st_db s))"
    "\<forall>k < length peers. NewID ?rnd \<noteq> NewID (?rest k)"
    using "2.prems"(4) by (simp_all add: fresh_ids_Suc)
  show ?case
  proof (cases "open_pair i now (st_db s) (net, x)")
    case True
    from adopt_open [OF "2.prems"(1) mate(1) True] "2.IH" [of s "Inl (P2p ''p2p.pairing_busy'')"] "2.prems" mate(2) fresh(1) True
    show ?thesis by (simp add: bnd_def attempt_def)
  next
    case False
    let ?p = "adopted_pair ?rnd i now (net, x)"
    let ?d = "(st_db s)\<lparr>pairs := pairs (st_db s) @ [row_of ?p]\<rparr>"
    have "fresh_ids ?rest (length peers) ?d"
      using fresh by (auto simp: fresh_ids_def row_of_def adopted_pair_def list_all_iff)
    moreover have "new_pairs ?rest i now ?d peers = new_pairs ?rest i now (st_db s) peers"
      using "2.prems"(3) others by (intro new_pairs_append) simp_all
    ultimately show ?thesis
      using adopt_new [OF "2.prems"(1) mate(1) False fresh(2)] "2.IH" [of "s\<lparr>st_db := ?d\<rparr>" "Inr ?p"] "2.prems" mate(2) False
      by (simp add: bnd_def attempt_def)
  qed
qed

lemma adoptAll_nothing:
  assumes "st_faults s = []" "\<forall>(net, x) \<in> set peers. mates (st_db s) net i x" "\<forall>p \<in> set peers. open_pair i now (st_db s) p"
  shows "adoptAll rnds i now peers acc s = (Inr acc, s)"
  using assms
proof (induction rnds i now peers acc rule: adoptAll.induct)
  case (2 rnds i now net x peers acc)
  have "mates (st_db s) net i x" "open_pair i now (st_db s) (net, x)" using "2.prems"(2,3) by auto
  from adopt_open [OF "2.prems"(1) this] "2.IH" [of "Inl (P2p ''p2p.pairing_busy'')"] "2.prems"
  show ?case by (simp add: bnd_def attempt_def)
qed (simp add: ret_def)

lemma AdoptNetwork_result:
  fixes now :: time
  assumes "db_inv (st_db s)" "st_faults s = []" "device_rows i (st_db s) = device # rest"
    and "fresh_ids rnds (length (peer_rows i (dev_UserID device) (st_db s))) (st_db s)"
  defines "ps \<equiv> new_pairs rnds i now (st_db s) (peer_rows i (dev_UserID device) (st_db s))"
  defines "t \<equiv> s\<lparr>st_db := (st_db s)\<lparr>pairs := pairs (st_db s) @ map row_of ps\<rparr>\<rparr>"
  shows "AdoptNetwork rnds i now s = (Inr ps, t)" "AdoptNetwork rnds' i now t = (Inr [], t)"
proof -
  let ?peers = "peer_rows i (dev_UserID device) (st_db s)"
  have mates: "\<forall>(net, x) \<in> set ?peers. mates (st_db s) net i x"
    using peers_are_mates [OF assms(1)] assms(3) by (metis (no_types, lifting) case_prodI2 list.set_intros(1))
  show "AdoptNetwork rnds i now s = (Inr ps, t)"
    using adoptAll_result [OF assms(2) mates distinct_peer_rows assms(4), of now "[]"] faultless_step [OF assms(2)] assms(3)
    by (simp add: AdoptNetwork_def Device_of_def act_defs ps_def t_def)
  have t: "st_faults t = []" "st_db t = (st_db s)\<lparr>pairs := pairs (st_db s) @ map row_of ps\<rparr>"
    using assms(2) by (simp_all add: t_def)
  have "open_pair i now (st_db t) q" if "q \<in> set ?peers" for q
  proof (cases "open_pair i now (st_db s) q")
    case True
    then show ?thesis by (auto simp: t(2) open_pair_def)
  next
    case False
    with that have "q \<in> set (map (\<lambda>p. (pr_NetworkID p, pr_Target p)) ps)" by (simp add: ps_def new_pairs_peers)
    then obtain p where p: "p \<in> set ps" "q = (pr_NetworkID p, pr_Target p)" by auto
    then obtain rnd peer where "p = adopted_pair rnd i now peer" using new_pairs_shape unfolding ps_def by blast
    with p show ?thesis by (force simp: t(2) open_pair_def busy_def row_of_def adopted_pair_def)
  qed
  then have "\<forall>p \<in> set ?peers. open_pair i now (st_db t) p" by blast
  from adoptAll_nothing [OF t(1) _ this, of rnds' "[]"] mates faultless_step [OF t(1)] assms(3)
  show "AdoptNetwork rnds' i now t = (Inr [], t)"
    by (simp add: AdoptNetwork_def Device_of_def act_defs t(2))
qed

end
