(* ===== verification/StoreProperties.thy ===== *)
theory StoreProperties
  imports Effects PairBook Adoption
begin

text \<open>
  The properties of the store: its invariant and its history over every run of calls, what a
  successful call guarantees and what no later call can undo, with their witnesses on the
  sample service.
\<close>

section \<open>Runs\<close>

text \<open>C1: whatever calls a store that starts empty performs, in whatever order and with whatever
  failing statements, its database satisfies the invariant: unique keys, references that resolve,
  every active binding and unused token in a live network of the device's or token's account,
  every live pair between two bound devices of an enabled account, sessions of enabled accounts
  only, at most two networks for each account and thirty active devices for each network.\<close>

theorem every_run_keeps_the_invariant: "db_inv (st_db (run C calls (s\<lparr>st_db := empty_db\<rparr>)))"
  by (rule run_keeps) (simp add: db_inv_empty)

text \<open>C2: the database only moves forward: rows are never removed (sessions apart), identifiers,
  keys, owners and expiries never change, deleted, disabled, revoked and used flags are never
  cleared, the audit trail is only extended, and a pair's state and revision never go back.\<close>

theorem every_run_advances: "advances (st_db s) (st_db (run C calls s))"
  by (rule run_advancing)

text \<open>C12: a call that returns an error has changed nothing in the database, the action on a pair
  excepted.\<close>

theorem failed_calls_change_nothing:
  assumes "db_inv (st_db s)" "\<not> pair_action c" "perform C c s = (Inl e, t)"
  shows "st_db t = st_db s"
  using assms by (rule perform_clean)

theorem failed_calls_change_nothing_witness:
  "st_db (snd (perform plain_crypto (CallDeleteNetwork net0 net0 clock0) service2)) = st_db service2"
proof (rule failed_calls_change_nothing)
  show "perform plain_crypto (CallDeleteNetwork net0 net0 clock0) service2
    = (Inl (P2p ''p2p.network_unauthorized''), snd (perform plain_crypto (CallDeleteNetwork net0 net0 clock0) service2))"
    by code_simp
qed (simp_all add: service2_inv pair_action_def)

text \<open>C3: seen as a book from identifiers to pairs, every run of calls is a run of the pairing protocol: an
  entry is opened once, invited or adopted, at revision 1; it is approved or rejected, made active,
  revoked, each time with one revision more; and nothing else ever happens to it.\<close>

theorem calls_refine_the_pair_book: "book_step\<^sup>*\<^sup>* (book_of (st_db s)) (book_of (st_db (run C calls s)))"
  using run_book unfolding book_runs_def .

section \<open>What no call undoes\<close>

text \<open>C13: after a network is deleted, no run of calls gives it an owner's view, an active binding,
  a live pair, an unused enrolment token or an unused share again.\<close>

theorem deleted_network_stays_dead:
  assumes "db_inv (st_db s)" "DeleteNetwork userID i now s = (Inr (), t)"
  shows "dead_network (st_db (run C calls t)) i"
  by (rule deleted_is_dead [OF run_keeps [OF DeleteNetwork.keeps_result [OF assms]]
        deleted_stays [OF run_advancing DeleteNetwork_marks [OF assms(2)]]])

theorem deleted_network_stays_dead_witness:
  "dead_network (st_db (run plain_crypto [CallJoinNetwork (Some []) join2 clock0]
     (snd (DeleteNetwork owner0 net0 clock0 service4)))) net0"
proof (rule deleted_network_stays_dead [OF service4_inv])
  show "DeleteNetwork owner0 net0 clock0 service4 = (Inr (), snd (DeleteNetwork owner0 net0 clock0 service4))"
    by code_simp
qed





section \<open>Enrolment\<close>

lemma Enroll_success:
  assumes "db_inv (st_db s)" "Enroll C serial request now s = (Inr dev, t)"
  obtains networkID where "alive (st_db s) networkID (dev_UserID dev)" "enabled (st_db s) (dev_UserID dev)"
    "room (st_db s) networkID" "\<not> spent (st_db s) (digest C (en_Token request))"
    "spent (st_db t) (digest C (en_Token request))" "member (st_db t) dev networkID"
    "csrKey C (en_CSR request) = Inr (dev_PublicKey dev)"
proof -
  have "wp (Enroll C serial request now) (\<lambda>dev t. \<exists>networkID. alive (st_db s) networkID (dev_UserID dev)
      \<and> enabled (st_db s) (dev_UserID dev) \<and> room (st_db s) networkID
      \<and> \<not> spent (st_db s) (digest C (en_Token request)) \<and> spent (st_db t) (digest C (en_Token request))
      \<and> member (st_db t) dev networkID \<and> csrKey C (en_CSR request) = Inr (dev_PublicKey dev)) (\<lambda>_ _. True) s"
    by (rule Enroll_wp) (use db_invD(1) [OF assms(1)] in auto)
  with assms(2) that show ?thesis by (auto simp: wp_def)
qed



text \<open>C17: an enrolment token admits at most one device, once: after an enrolment that used it,
  whatever calls follow, every other enrolment with the token fails.\<close>

theorem enrolment_token_is_single_use:
  assumes "db_inv (st_db s)" "Enroll C serial request now s = (Inr dev, t)" "en_Token again = en_Token request"
  shows "isl (fst (Enroll C serial' again later (run C calls t)))"
proof -
  let ?u = "run C calls t"
  have inv: "db_inv (st_db t)" using Enroll.keeps_result [OF assms(1,2)] .
  have "spent (st_db t) (digest C (en_Token request))"
    by (rule Enroll_success [OF assms(1,2)])
  then have spent: "spent (st_db ?u) (digest C (en_Token again))"
    unfolding assms(3) by (rule spent_stays [OF run_advancing])
  have "wp (Enroll C serial' again later) (\<lambda>_ _. False) (\<lambda>_ _. True) ?u"
    by (rule Enroll_wp) (use spent db_invD(1) [OF run_keeps [OF inv]] in auto)
  then show ?thesis by (auto simp: wp_def split: prod.splits sum.splits)
qed

theorem enrolment_token_is_single_use_witness:
  "isl (fst (Enroll plain_crypto (Some []) (request1\<lparr>en_RequestID := NewID ''QQQQQ9'', en_CSR := ''Device9''\<rparr>) clock0
     (run plain_crypto [CallJoinNetwork (Some []) join2 clock0] service4)))"
proof (rule enrolment_token_is_single_use [OF service3_inv])
  show "Enroll plain_crypto (Some []) request1 clock0 service3
    = (Inr (projr (fst (Enroll plain_crypto (Some []) request1 clock0 service3))), service4)"
    unfolding service4_def by code_simp
qed simp

section \<open>Sessions of accounts\<close>

text \<open>C18: with the database answering, a request is authenticated as an account exactly when the
  token has 64 characters and its digest is that of an unexpired session of that account.\<close>

theorem AuthenticateUser_is_exact:
  assumes "db_inv (st_db s)" "\<not> faulty s"
  shows "fst (AuthenticateUser C token now s) = Inr user \<longleftrightarrow> length token = 64 \<and>
    (\<exists>r \<in> set (user_sessions (st_db s)). \<exists>u \<in> set (users (st_db s)). us_hash r = digest C token
       \<and> us_user r = u_id u \<and> unix now < us_expires r \<and> user = \<lparr>usr_ID = u_id u, usr_Username = u_email u\<rparr>)"
  using assms by (rule AuthenticateUser_iff)

theorem AuthenticateUser_is_exact_witness:
  "\<exists>r \<in> set (user_sessions (st_db logged_in1)). us_hash r = digest plain_crypto token7 \<and> us_user r = owner0"
proof -
  have "\<not> faulty logged_in1" by code_simp
  moreover have "fst (AuthenticateUser plain_crypto token7 clock0 logged_in1)
      = Inr \<lparr>usr_ID = owner0, usr_Username = ''a@b.cd''\<rparr>"
    by code_simp
  ultimately show ?thesis
    using AuthenticateUser_is_exact [OF logged_in1_inv, of plain_crypto token7 clock0] by auto
qed

text \<open>C19: a login under the right password of an enabled account gives a token that authenticates
  as that account until it expires, 24 hours later.\<close>

theorem Login_token_authenticates:
  assumes "db_inv (st_db s)" "Login C (Some rnd) username password now s = (Inr ses, t)" "length rnd = 32"
    "\<not> faulty t" "unix later < unix (now + 24 * hour)"
  shows "fst (AuthenticateUser C (ses_Token ses) later t) = Inr (ses_User ses)
    \<and> (\<exists>u \<in> set (users (st_db s)). u_email u = username \<and> \<not> u_disabled u \<and> bcrypt_matches C (u_hash u) password
         \<and> usr_ID (ses_User ses) = u_id u)"
proof -
  let ?s = "s\<lparr>st_logins := st_logins s + 1\<rparr>"
  from assms(2) obtain v where v: "login_body C (Some rnd) username password now ?s = (Inr ses, v)" "st_db t = st_db v"
    by (auto simp: Login_def split: if_splits prod.splits)
  from login_body_success [OF v(1)] obtain u where u: "u \<in> set (users (st_db s))" "u_email u = username"
    "\<not> u_disabled u" "bcrypt_matches C (u_hash u) password" "ses_User ses = \<lparr>usr_ID = u_id u, usr_Username = u_email u\<rparr>"
    "users (st_db t) = users (st_db s)" "ses_Token ses = hex_encode rnd" "ses_ExpiresAt ses = unix (now + 24 * hour)"
    "user_sessions (st_db t) = user_sessions (st_db s) @
       [\<lparr>us_hash = digest C (ses_Token ses), us_user = u_id u, us_expires = ses_ExpiresAt ses\<rparr>]"
    by (auto simp: logged_in_def v(2))
  have inv: "db_inv (st_db t)" using Login.keeps_result [OF assms(1,2)] .
  have "fst (AuthenticateUser C (ses_Token ses) later t) = Inr (ses_User ses)"
    unfolding AuthenticateUser_iff [OF inv assms(4)] using u assms(3,5) by auto
  with u show ?thesis by auto
qed

theorem Login_token_authenticates_witness:
  "fst (AuthenticateUser plain_crypto token7 (clock0 + hour) logged_in1) = Inr \<lparr>usr_ID = owner0, usr_Username = ''a@b.cd''\<rparr>"
proof -
  let ?ses = "\<lparr>ses_User = \<lparr>usr_ID = owner0, usr_Username = ''a@b.cd''\<rparr>, ses_Token = token7, ses_ExpiresAt = 87400\<rparr>"
  have login: "Login plain_crypto (Some (replicate 32 (CHR ''7''))) ''a@b.cd'' ''correct horse'' clock0 service1 = (Inr ?ses, logged_in1)"
    unfolding logged_in1_def by code_simp
  have "\<not> faulty logged_in1" by code_simp
  with Login_token_authenticates [OF service1_inv login, of "clock0 + hour"] show ?thesis
    by (simp add: unix_def clock0_def time_defs)
qed

section \<open>Pairs\<close>

text \<open>C20: an action on a pair that succeeds was made by one of its two devices, both bound to the
  pair's live network and neither revoked; it follows the table of moves (only the target
  approves or rejects an invitation, only the initiator confirms an approval, with the
  fingerprint of the target's key, either revokes an active pair, and the first three only before
  the invitation expires); it changes that pair alone, by one revision.\<close>

theorem ActOnPair_follows_the_table:
  assumes "db_inv (st_db s)" "ActOnPair C deviceID pairID action fingerprint now s = (Inr result, t)"
  shows "pair_moved C deviceID pairID action fingerprint now (st_db s) result (st_db t)"
  using ActOnPair_wp [OF db_invD(1) [OF assms(1)], of C deviceID pairID action fingerprint now] assms(2)
  by (simp add: wp_def)

theorem ActOnPair_follows_the_table_witness:
  "pair_moved plain_crypto dev1 pair1 ''confirm'' dev2 clock0 (st_db service8)
     (projr (fst (ActOnPair plain_crypto dev1 pair1 ''confirm'' dev2 clock0 service8))) (st_db service9)"
proof (rule ActOnPair_follows_the_table [OF service8_inv])
  show "ActOnPair plain_crypto dev1 pair1 ''confirm'' dev2 clock0 service8
    = (Inr (projr (fst (ActOnPair plain_crypto dev1 pair1 ''confirm'' dev2 clock0 service8))), service9)"
    unfolding service9_def by code_simp
qed

text \<open>C21: an invitation that succeeds used a share that was not spent, between two different
  devices bound to the same live network of an enabled account and with no open or active pair
  between them in it; it adds one pair, invited, at revision 1, and the share is spent.\<close>

theorem Invite_opens_a_pair:
  assumes "db_inv (st_db s)" "Invite C rnd sender share now s = (Inr pair, t)"
  shows "invited sender share now (st_db s) pair (st_db t)"
  using Invite_wp [OF db_invD(1) [OF assms(1)], of C rnd sender share now] assms(2)
  by (simp add: wp_def)

theorem Invite_opens_a_pair_witness:
  "invited dev1 share2 clock0 (st_db service6) (projr (fst (Invite plain_crypto ''PPPPPP'' dev1 share2 clock0 service6)))
     (st_db service7)"
proof (rule Invite_opens_a_pair [OF service6_inv])
  show "Invite plain_crypto ''PPPPPP'' dev1 share2 clock0 service6
    = (Inr (projr (fst (Invite plain_crypto ''PPPPPP'' dev1 share2 clock0 service6))), service7)"
    unfolding service7_def by code_simp
qed

text \<open>A share opens at most one pair: after an invitation used it, whatever calls follow, every
  other invitation with its nonce fails.\<close>

theorem share_is_single_use:
  assumes "db_inv (st_db s)" "Invite C rnd sender share now s = (Inr pair, t)" "sh_Nonce again = sh_Nonce share"
  shows "isl (fst (Invite C rnd' sender' again later (run C calls t)))"
proof -
  let ?u = "run C calls t"
  have inv: "db_inv (st_db t)" using Invite.keeps_result [OF assms(1,2)] .
  have "share_spent (st_db t) (sh_Nonce share)"
    using Invite_wp [OF db_invD(1) [OF assms(1)], of C rnd sender share now] assms(2) by (simp add: wp_def invited_def)
  then have "share_spent (st_db ?u) (sh_Nonce again)"
    unfolding assms(3) by (rule share_spent_stays [OF run_advancing])
  then show ?thesis
    using Invite_wp [OF db_invD(1) [OF run_keeps [OF inv]], of C rnd' sender' again later C calls]
    by (auto simp: wp_def invited_def split: prod.splits sum.splits)
qed

theorem share_is_single_use_witness:
  "isl (fst (Invite plain_crypto ''PPPPP2'' dev1 share2 clock0
     (run plain_crypto [CallActOnPair dev2 pair1 ''reject'' [] clock0] service7)))"
proof (rule share_is_single_use [OF service6_inv])
  show "Invite plain_crypto ''PPPPPP'' dev1 share2 clock0 service6
    = (Inr (projr (fst (Invite plain_crypto ''PPPPPP'' dev1 share2 clock0 service6))), service7)"
    unfolding service7_def by code_simp
qed simp



section \<open>Adoption\<close>



section \<open>Where the code falls short\<close>

text \<open>Creating a network counts the account's networks and inserts the new one in two separate
  statements: two requests whose statements interleave leave an account with three networks,
  although two is the limit.\<close>

theorem interleaved_creations_pass_the_limit:
  "network_count (st_db (snd (insertNetwork ''NNNNN4'' owner0 ''fourth''
     (snd (insertNetwork ''NNNNN3'' owner0 ''third''
       (snd (countNetworks owner0 (snd (countNetworks owner0 service2))))))))) owner0 = 3
   \<and> fst (countNetworks owner0 service2) = Inr 1
   \<and> fst (countNetworks owner0 (snd (countNetworks owner0 service2))) = Inr 1"
  by code_simp

text \<open>An action on a pair can report an error and yet have been carried out: when the statement
  that reads the result back fails, the caller is told that the confirmation failed, and the pair
  is active.\<close>

theorem ActOnPair_can_fail_with_effect:
  "isl (fst (ActOnPair plain_crypto dev1 pair1 ''confirm'' dev2 clock0
        (service8\<lparr>st_faults := replicate 6 False @ [True]\<rparr>)))
   \<and> map p_state (pairs (st_db (snd (ActOnPair plain_crypto dev1 pair1 ''confirm'' dev2 clock0
        (service8\<lparr>st_faults := replicate 6 False @ [True]\<rparr>))))) = [Active]"
  by code_simp

end
