(* ===== verification/SessionRuns.thy ===== *)
theory SessionRuns
  imports Effects
begin

text \<open>
  The service as one machine: the live state of \<open>Sessions\<close> over the store, and the requests that
  act on either.  \<open>Sessions\<close> holds a pointer to the store, so a store method acts on the store
  part of the state and leaves the rest as it is.
\<close>

section \<open>Session calls\<close>

definition on_store :: "(unit, 'a) act \<Rightarrow> 'a sact" where
  "on_store m s = (case m (store.truncate s) of (r, t) \<Rightarrow> (r, store.extend t (store.more s)))"

datatype session_call =
    OnStore call
  | CallHeartbeat string string DeviceTelemetry time
  | CallOffline string string
  | CallBegin bytes string string nat time
  | CallRenewLease string string string time
  | CallEnd string string string
  | CallAdmit string Signal time

fun session_perform :: "crypto \<Rightarrow> (string list \<Rightarrow> string list) \<Rightarrow> session_call \<Rightarrow> unit sact" where
  "session_perform C pick (OnStore c) = on_store (perform C c)"
| "session_perform C pick (CallHeartbeat i userID telemetry now) = Heartbeat i userID telemetry now"
| "session_perform C pick (CallOffline i userID) = Offline i userID"
| "session_perform C pick (CallBegin rnd sender target generation now) =
     only_error (Begin C pick rnd sender target generation now)"
| "session_perform C pick (CallRenewLease sender pairID attemptID now) =
     only_error (RenewLease C sender pairID attemptID now)"
| "session_perform C pick (CallEnd sender pairID attemptID) = End sender pairID attemptID"
| "session_perform C pick (CallAdmit sender signal now) = Admit C sender signal now"

fun session_run :: "crypto \<Rightarrow> (string list \<Rightarrow> string list) \<Rightarrow> session_call list \<Rightarrow> sessions \<Rightarrow> sessions" where
  "session_run C pick [] s = s"
| "session_run C pick (c # cs) s = session_run C pick cs (snd (session_perform C pick c s))"

section \<open>What every session call keeps\<close>

lemma extend_simps:
  fixes s :: sessions
  shows "ss_attempts (store.extend t (store.more s)) = ss_attempts s" "st_db (store.extend t (store.more s)) = st_db t"
  by (cases s, simp add: store.defs)+

lemma on_store_simps:
  "st_db (snd (on_store m s)) = st_db (snd (m (store.truncate s)))"
  "ss_attempts (snd (on_store m s)) = ss_attempts s"
  "st_db (store.truncate s) = st_db s"
  by (simp_all add: on_store_def extend_simps split: prod.splits) (simp add: store.defs)

lemma keeping_modify [contract_intros]: "(\<And>s. st_db (f s) = st_db s) \<Longrightarrow> keeping (modify f)"
  by unfold_locales (simp add: modify_def)

lemma reading_modify: "(\<And>s. st_db (f s) = st_db s) \<Longrightarrow> reading (modify f)"
  by unfold_locales (simp add: modify_def)

lemma RecordDeviceSeen_keeping [contract_intros]: "keeping (RecordDeviceSeen i telemetry now)"
  by unfold_locales (rule RecordDeviceSeen_keeps)

lemma deviceLinkedTo_keeping [contract_intros]: "keeping (deviceLinkedTo i userID)"
  by (rule keeping_reading [OF reads_networks(6)])

lemma checkEnd_keeping [contract_intros]: "keeping (checkEnd i now)"
  unfolding checkEnd_def by (intro contract_intros)

lemma authorize_keeping [contract_intros]: "keeping (authorize sender pairID attemptID now)"
  unfolding authorize_def by (intro contract_intros)

lemma lift_keeping [contract_intros]: "keeping (lift r)"
  unfolding lift_def by (intro contract_intros)

lemma Heartbeat_keeping: "keeping (Heartbeat i userID telemetry now)"
  unfolding Heartbeat_def markPresence_def Let_def by (intro contract_intros) simp

lemma Begin_keeping: "keeping (Begin C pick rnd sender target generation now)"
  unfolding Begin_def Let_def by (intro contract_intros) simp_all

lemma RenewLease_keeping: "keeping (RenewLease C sender pairID attemptID now)"
  unfolding RenewLease_def Let_def by (intro contract_intros) simp

lemma End_keeping: "keeping (End sender pairID attemptID)"
  unfolding End_def by (intro contract_intros) simp

lemma Admit_keeping: "keeping (Admit C sender signal now)"
  unfolding Admit_def by (intro contract_intros) simp

lemma Offline_keeping: "keeping (Offline i userID)"
  unfolding Offline_def by (intro contract_intros) simp

lemmas session_keeping = Heartbeat_keeping Begin_keeping RenewLease_keeping End_keeping Admit_keeping Offline_keeping

lemma session_perform_keeps: "db_inv (st_db s) \<Longrightarrow> db_inv (st_db (snd (session_perform C pick c s)))"
  by (cases c) (simp_all add: only_error_result on_store_simps perform_keeps session_keeping [THEN keeping.keeps])

interpretation session_perform: keeping "session_perform C pick c" for C pick c
  by unfold_locales (rule session_perform_keeps)

text \<open>Heartbeats and going offline leave the attempts alone.\<close>

lemma sess_frameI:
  assumes "wp m (\<lambda>_ t. ss_attempts t = ss_attempts s) (\<lambda>_ t. ss_attempts t = ss_attempts s) s"
  shows "ss_attempts (snd (m s)) = ss_attempts s"
  using assms by (auto simp: wp_def split: prod.splits sum.splits)

lemma Heartbeat_attempts: "ss_attempts (snd (Heartbeat i userID telemetry now s)) = ss_attempts s"
proof (rule sess_frameI)
  show "wp (Heartbeat i userID telemetry now) (\<lambda>_ t. ss_attempts t = ss_attempts s) (\<lambda>_ t. ss_attempts t = ss_attempts s) s"
    unfolding Heartbeat_def markPresence_def RecordDeviceSeen_def deviceLinkedTo_def
    by (auto simp: wp_simps Let_def split: sum.splits)
qed

lemma Offline_attempts: "ss_attempts (snd (Offline i userID s)) = ss_attempts s"
  by (simp add: Offline_def modify_def)

lemma session_perform_attempts:
  "attempts_inv (ss_attempts s) \<Longrightarrow> attempts_inv (ss_attempts (snd (session_perform C pick c s)))"
  by (cases c) (simp_all add: only_error_result on_store_simps Heartbeat_attempts Offline_attempts Begin_attempts
      RenewLease_attempts End_attempts Admit_attempts)

lemma session_run_keeps:
  "db_inv (st_db s) \<Longrightarrow> attempts_inv (ss_attempts s) \<Longrightarrow>
   db_inv (st_db (session_run C pick cs s)) \<and> attempts_inv (ss_attempts (session_run C pick cs s))"
  by (induction cs arbitrary: s) (simp_all add: session_perform.keeps session_perform_attempts)

section \<open>Sequence numbers only grow\<close>

text \<open>In the attempt \<open>aid\<close> to \<open>target\<close>, if it is still there, \<open>sender\<close> is past number \<open>n\<close>.\<close>

definition past :: "string \<Rightarrow> string \<Rightarrow> string \<Rightarrow> nat \<Rightarrow> (string \<times> attempt_state) list \<Rightarrow> bool" where
  "past target aid sender n as \<longleftrightarrow>
     (\<forall>a. map_of as target = Some a \<longrightarrow> lse_AttemptID (at_lease a) = aid \<longrightarrow> n \<le> at_sequence a sender)"

fun draws :: "session_call \<Rightarrow> bytes option" where
  "draws (CallBegin rnd _ _ _ _) = Some rnd"
| "draws _ = None"

lemma past_drop: "distinct (map fst as) \<Longrightarrow> past target aid sender n as \<Longrightarrow> past target aid sender n (dropExpired now as)"
  unfolding past_def using dropExpired_sub(2) by metis

lemma past_delete: "past target aid sender n as \<Longrightarrow> past target aid sender n (AList.delete k as)"
  by (auto simp: past_def delete_conv' split: if_splits)

lemma past_update:
  "past target aid sender n as \<Longrightarrow> (k = target \<Longrightarrow> lse_AttemptID (at_lease b) = aid \<Longrightarrow> n \<le> at_sequence b sender) \<Longrightarrow>
   past target aid sender n (AList.update k b as)"
  by (auto simp: past_def update_conv' split: if_splits)

lemma Begin_past:
  assumes "past target aid sender n (ss_attempts s)" "NewID rnd \<noteq> aid" "distinct (map fst (ss_attempts s))"
  shows "past target aid sender n (ss_attempts (snd (Begin C pick rnd x y g now s)))"
proof -
  have drop: "past target aid sender n (dropExpired now (ss_attempts s))" by (rule past_drop [OF assms(3,1)])
  have "wp (Begin C pick rnd x y g now) (\<lambda>_ t. past target aid sender n (ss_attempts t))
      (\<lambda>_ t. past target aid sender n (ss_attempts t)) s"
    unfolding Begin_def
    by (auto simp: wp_simps assms assms(2) [symmetric] drop Let_def tickedD new_attempt_def
        intro!: sameNetwork_wp checkEnd_wp Device_of_wp sharedNetworkID_wp past_update)
  then show ?thesis by (auto simp: wp_def split: prod.splits sum.splits)
qed

lemma RenewLease_past:
  assumes "past target aid sender n (ss_attempts s)"
  shows "past target aid sender n (ss_attempts (snd (RenewLease C x pairID attemptID now s)))"
proof -
  have "wp (RenewLease C x pairID attemptID now) (\<lambda>_ t. past target aid sender n (ss_attempts t))
      (\<lambda>_ t. past target aid sender n (ss_attempts t)) s"
    unfolding RenewLease_def wp_bnd
    by (rule authorize_wp)
      (use assms in \<open>auto simp: wp_simps Let_def tickedD past_def signLease_def update_conv'\<close>)
  then show ?thesis by (auto simp: wp_def split: prod.splits sum.splits)
qed

lemma End_past:
  "past target aid sender n (ss_attempts s) \<Longrightarrow> past target aid sender n (ss_attempts (snd (End x pairID attemptID s)))"
  by (simp add: End_def withStore_def guard_def throw_def modify_def past_delete)

lemma Admit_past:
  assumes "past target aid sender n (ss_attempts s)"
  shows "past target aid sender n (ss_attempts (snd (Admit C x signal now s)))"
proof -
  have "wp (Admit C x signal now) (\<lambda>_ t. past target aid sender n (ss_attempts t))
      (\<lambda>_ t. past target aid sender n (ss_attempts t)) s"
  proof (rule Admit_wp)
    fix t :: sessions and a b y
    assume a: "map_of (ss_attempts s) (sig_PairID signal) = Some a" "admitSDP C a x signal = Inr b"
      and v: "Signal_Verify C signal (dev_PublicKey y) (scope_of a x signal) now = Inr ()"
    have seq: "sig_Sequence signal = Suc (at_sequence a x)"
      using v by (simp add: Signal_Verify_def scope_of_def Let_def)
    have "past target aid sender n (AList.update (sig_PairID signal) (record_signal b x signal) (ss_attempts s))"
      using assms a seq admitSDP_link [OF a(2)] by (intro past_update) (auto simp: past_def record_signal_def)
    then show "past target aid sender n (ss_attempts
        (t\<lparr>ss_attempts := AList.update (sig_PairID signal) (record_signal b x signal) (ss_attempts s)\<rparr>))" by simp
  qed (use assms in \<open>simp add: tickedD\<close>)
  then show ?thesis by (auto simp: wp_def split: prod.splits sum.splits)
qed

lemma session_perform_past:
  assumes "past target aid sender n (ss_attempts s)" "attempts_inv (ss_attempts s)" "\<forall>rnd. draws c = Some rnd \<longrightarrow> NewID rnd \<noteq> aid"
  shows "past target aid sender n (ss_attempts (snd (session_perform C pick c s)))"
  using assms
  by (cases c) (simp_all add: only_error_result on_store_simps Heartbeat_attempts Offline_attempts Begin_past
      RenewLease_past End_past Admit_past attempts_invD(1))

lemma session_run_past:
  "past target aid sender n (ss_attempts s) \<Longrightarrow> attempts_inv (ss_attempts s) \<Longrightarrow>
   \<forall>c \<in> set cs. \<forall>rnd. draws c = Some rnd \<longrightarrow> NewID rnd \<noteq> aid \<Longrightarrow>
   past target aid sender n (ss_attempts (session_run C pick cs s))"
  by (induction cs arbitrary: s) (simp_all add: session_perform_past session_perform_attempts)

lemma Admit_establishes_past:
  assumes "Admit C sender signal now s = (Inr (), t)"
  shows "past (sig_PairID signal) (sig_AttemptID signal) sender (sig_Sequence signal) (ss_attempts t)"
proof -
  have "wp (Admit C sender signal now)
      (\<lambda>_ t. past (sig_PairID signal) (sig_AttemptID signal) sender (sig_Sequence signal) (ss_attempts t)) (\<lambda>_ _. True) s"
    by (rule Admit_wp) (simp_all add: past_def update_conv' record_signal_def)
  with assms show ?thesis by (simp add: wp_def)
qed

lemma past_refuses:
  assumes "past (sig_PairID signal) (sig_AttemptID signal) sender (sig_Sequence signal) (ss_attempts s)"
  shows "isl (fst (Admit C sender signal now s))"
proof -
  have "wp (Admit C sender signal now) (\<lambda>_ _. False) (\<lambda>_ _. True) s"
  proof (rule Admit_wp)
    fix a x
    assume "map_of (ss_attempts s) (sig_PairID signal) = Some a" "lse_AttemptID (at_lease a) = sig_AttemptID signal"
      "Signal_Verify C signal (dev_PublicKey x) (scope_of a sender signal) now = Inr ()"
    with assms show False by (simp add: past_def Signal_Verify_def scope_of_def Let_def)
  qed simp
  then show ?thesis by (auto simp: wp_def split: prod.splits sum.splits)
qed

section \<open>What a begun attempt is\<close>

lemma lease_bytes_signature [simp]: "Lease_SigningBytes (l\<lparr>lse_Signature := x\<rparr>) = Lease_SigningBytes l"
  by (simp add: Lease_SigningBytes_def Lease_elems_def)

text \<open>What a successful \<open>Begin\<close> has checked, and what it has stored.\<close>

definition present :: "sessions \<Rightarrow> string \<Rightarrow> time \<Rightarrow> bool" where
  "present s i now \<longleftrightarrow> (\<exists>device \<in> set (device_rows i (st_db s)). \<exists>at.
     ss_presence s (presenceKey i (dev_UserID device)) = Some at \<and> after (at + 30 * second) now)"

definition begun ::
  "crypto \<Rightarrow> bytes \<Rightarrow> string \<Rightarrow> string \<Rightarrow> nat \<Rightarrow> time \<Rightarrow> sessions \<Rightarrow> Lease \<Rightarrow> sessions \<Rightarrow> bool" where
  "begun C rnd sender target generation now s lease t \<longleftrightarrow>
     (\<exists>device \<in> set (device_rows sender (st_db s)). \<exists>networkID.
        lease = new_lease C s rnd device networkID sender target generation now
        \<and> bound (st_db s) networkID sender \<and> bound (st_db s) networkID target)
     \<and> target \<noteq> sender \<and> ValidID target \<and> 0 < generation \<and> safe_integer generation
     \<and> present s sender now \<and> present s target now
     \<and> \<not> connection_busy sender target (dropExpired now (ss_attempts s))
     \<and> ss_attempts t = AList.update target (new_attempt lease) (dropExpired now (ss_attempts s))
     \<and> st_db t = st_db s \<and> st_key t = st_key s \<and> st_serviceID t = st_serviceID s"

lemma in_shared_rows: "j \<in> set (shared_rows a b d) \<Longrightarrow> bound d j a \<and> bound d j b"
  by (auto simp: shared_rows_def bound_def split: if_splits)

lemma checkEnd_present:
  assumes "zero_time + 30 * second \<le> now"
    and "\<And>t. ticked s t \<Longrightarrow> present s i now \<Longrightarrow> Q () t" "\<And>e t. ticked s t \<Longrightarrow> E e t"
  shows "wp (checkEnd i now) Q E s"
  unfolding checkEnd_def wp_bnd
proof (rule Device_of_wp)
  fix t x
  assume t: "ticked s t" and x: "x \<in> set (device_rows i (st_db s))"
  have "present s i now" if "after ((case ss_presence s (presenceKey i (dev_UserID x)) of None \<Rightarrow> zero_time | Some at \<Rightarrow> at) + 30 * second) now"
    using that x assms(1) unfolding present_def by (auto simp: after_def split: option.splits)
  then show "wp (withStore (\<lambda>s. guard (after ((case ss_presence s (presenceKey i (dev_UserID x)) of None \<Rightarrow> zero_time | Some at \<Rightarrow> at)
      + 30 * second) now) ''p2p.peer_offline'' (ret ()))) Q E t"
    using assms(2,3) [OF t] tickedD(3) [OF t] by (simp add: wp_simps)
qed (rule assms(3))

lemma Begin_wp:
  assumes pick: "\<And>xs. set (pick xs) \<subseteq> set xs" and "zero_time + 30 * second \<le> now"
  shows "wp (Begin C pick rnd sender target generation now) (\<lambda>lease t. begun C rnd sender target generation now s lease t)
    (\<lambda>_ _. True) s"
proof -
  let ?as = "dropExpired now (ss_attempts s)"
  have moved: "present t i now \<Longrightarrow> present s i now" if "ticked s t" for t i
    using tickedD [OF that] by (simp add: present_def)
  have step: "begun C rnd sender target generation now s (new_lease C u rnd x j sender target generation now)
      (u\<lparr>ss_attempts := AList.update target (new_attempt (new_lease C u rnd x j sender target generation now)) ?as\<rparr>)"
    if "ticked s t" "ticked t ta" "ticked ta tb" "ticked (tick (tb\<lparr>ss_attempts := ?as\<rparr>)) u"
      "present t sender now" "present ta target now" "device_rows sender (st_db s) = x # xs"
      "j \<in> set (pick (shared_rows sender target (st_db s)))" "\<not> connection_busy sender target ?as"
      "ValidID target" "target \<noteq> sender" "0 < generation" "safe_integer generation" for t ta tb u x xs j
  proof -
    have tb: "ticked s tb" "ticked s ta" using that(1,2,3) ticked_trans by blast+
    have same: "st_db u = st_db s" "st_key u = st_key s" "st_serviceID u = st_serviceID s"
      using tickedD [OF tb(1)] tickedD [OF that(4)] by simp_all
    then have "new_lease C u rnd x j sender target generation now = new_lease C s rnd x j sender target generation now"
      by (simp add: new_lease_def signLease_def)
    moreover have "bound (st_db s) j sender" "bound (st_db s) j target"
      using pick [of "shared_rows sender target (st_db s)"] that(8) in_shared_rows by blast+
    moreover have "x \<in> set (device_rows sender (st_db s))" using that(7) by simp
    ultimately show ?thesis
      using that(9-13) same moved [OF that(1,5)] moved [OF tb(2) that(6)] unfolding begun_def
      by (intro conjI bexI [of _ x] exI [of _ j]) simp_all
  qed
  show ?thesis
    unfolding Begin_def
    by (auto simp: wp_simps Let_def tickedD intro!: sameNetwork_wp checkEnd_present [OF assms(2)] Device_of_wp sharedNetworkID_wp)
      (rule step, assumption+)
qed

lemma signLease_bytes: "Lease_SigningBytes (signLease C s l) = Lease_SigningBytes l"
  by (simp add: signLease_def)

lemma signLease_signature:
  "lse_Signature (signLease C s l) = b64_encode (ed_sign C (st_key s) (Lease_SigningBytes (signLease C s l)))"
  unfolding signLease_bytes by (simp add: signLease_def)

lemma new_lease_signature:
  "lse_Signature (new_lease C s rnd dev j x y g now)
     = b64_encode (ed_sign C (st_key s) (Lease_SigningBytes (new_lease C s rnd dev j x y g now)))"
  unfolding new_lease_def by (rule signLease_signature)

lemma new_lease_verifies:
  assumes "sound_crypto C" "st_serviceID s = KeyID C (ed_public C (st_key s))" "ValidID (dev_UserID device)"
    "ValidID j" "ValidID sender" "ValidID target" "target \<noteq> sender" "length rnd = 6"
    "now \<le> later" "unix later < unix (now + minute)"
  shows "Lease_Verify C (new_lease C s rnd device j sender target generation now) (ed_public C (st_key s))
    \<lparr>sc_AttemptID = NewID rnd, sc_FromDeviceID = sender, sc_ToDeviceID = target, sc_PairID = target,
     sc_Generation = generation, sc_NextSequence = n\<rparr> (dev_UserID device) j 1 later = Inr ()"
  using assms unix_mono [OF assms(9)]
  by (simp add: Lease_Verify_def new_lease_signature b64_roundtrip sound_crypto_def ValidID_NewID)

text \<open>A sample of a third device, and of a service whose first device has left the network.\<close>

definition left_network :: sessions where
  "left_network = snd (session_perform plain_crypto id (OnStore (CallUnbindDevice owner0 net0 dev1 clock0)) dialed)"

definition dev3 :: string where
  "dev3 = KeyID plain_crypto (sized ''third'')"

definition join3 :: NetworkJoin where
  "join3 = \<lparr>nj_RequestID = NewID ''QQQQQ3'', nj_NetworkID = net0, nj_CSR = ''third'', nj_Name = ''three''\<rparr>"

definition third_joined :: sessions where
  "third_joined = snd (session_perform plain_crypto id (OnStore (CallJoinNetwork (Some []) join3 clock0)) dialed)"

text \<open>The offer the dialling device sends.\<close>

definition offer_payload :: bytes where
  "offer_payload = CHR ''{'' # quote # ''sdp'' @ [quote, CHR '':'', quote, CHR ''x'', quote, CHR ''}'']"

definition offer1 :: Signal where
  "offer1 = Sign plain_crypto ''device1''
     \<lparr>sig_Version = 1, sig_Type = ''offer'', sig_MessageID = NewID ''MMMMMM'', sig_AttemptID = NewID ''AAAAAA'',
      sig_Generation = 1, sig_FromDeviceID = dev1, sig_ToDeviceID = dev2, sig_PairID = dev2, sig_Sequence = 1,
      sig_ExpiresAt = 1030, sig_Payload = b64_encode offer_payload, sig_Signature = []\<rparr>"

definition offered :: sessions where
  "offered = snd (Admit plain_crypto dev1 offer1 clock0 dialed)"

lemma dialed_attempts: "attempts_inv (ss_attempts dialed)"
  unfolding dialed_def
  by (rule Begin_attempts) (simp add: online0_def Heartbeat_attempts NewSessions_def store.defs sessions.defs
      attempts_inv_def one_link_def)

end
