(* ===== verification/SessionProperties.thy ===== *)
theory SessionProperties
  imports SessionRuns
begin

text \<open>
  The properties of the live sessions: the invariant of the attempts over every run of session and
  store calls, what a begun attempt is, what the lease it returns is good for, replay and presence.
\<close>

section \<open>Runs\<close>

text \<open>Whatever calls follow one another, on the sessions or on the store, the database keeps its
  invariant and every attempt is filed under its target, between two different devices, at most one
  of them between any two, with a safe generation, at most 512 messages each counted once, and no
  answer before an offer.\<close>

theorem every_session_run_keeps_the_invariants:
  "db_inv (st_db (session_run C pick calls (NewSessions (s\<lparr>st_db := empty_db\<rparr>))))
   \<and> attempts_inv (ss_attempts (session_run C pick calls (NewSessions (s\<lparr>st_db := empty_db\<rparr>))))"
proof (rule session_run_keeps)
  show "db_inv (st_db (NewSessions (s\<lparr>st_db := empty_db\<rparr>)))"
    by (simp add: NewSessions_def extend_simps store.defs db_inv_empty)
  show "attempts_inv (ss_attempts (NewSessions (s\<lparr>st_db := empty_db\<rparr>)))"
    by (simp add: NewSessions_def store.defs sessions.defs attempts_inv_def one_link_def)
qed

text \<open>C24: a signal that was admitted is never admitted again: whatever session and store calls
  follow, unless a new attempt draws the same random identifier, a second admission of the same
  message for the same sender is refused.\<close>

theorem admitted_signal_is_not_replayed:
  assumes "attempts_inv (ss_attempts s)" "Admit C sender signal now s = (Inr (), t)"
    and "\<forall>c \<in> set calls. \<forall>rnd. draws c = Some rnd \<longrightarrow> NewID rnd \<noteq> sig_AttemptID signal"
  shows "isl (fst (Admit C sender signal later (session_run C pick calls t)))"
proof (rule past_refuses [OF session_run_past [OF Admit_establishes_past [OF assms(2)]]])
  show "attempts_inv (ss_attempts t)" using Admit_attempts [OF assms(1), of C sender signal now] assms(2) by simp
qed (rule assms(3))

theorem admitted_signal_is_not_replayed_witness:
  "isl (fst (Admit plain_crypto dev1 offer1 clock0 (session_run plain_crypto id
     [CallRenewLease dev2 dev2 (NewID ''AAAAAA'') clock0, CallBegin ''BBBBBB'' dev2 dev1 2 clock0] offered)))"
proof (rule admitted_signal_is_not_replayed [OF dialed_attempts])
  show "Admit plain_crypto dev1 offer1 clock0 dialed = (Inr (), offered)"
    unfolding offered_def by (rule prod_eqI) (code_simp, simp)
  have "NewID ''BBBBBB'' \<noteq> NewID ''AAAAAA''" by code_simp
  then show "\<forall>c \<in> set [CallRenewLease dev2 dev2 (NewID ''AAAAAA'') clock0, CallBegin ''BBBBBB'' dev2 dev1 2 clock0].
      \<forall>rnd. draws c = Some rnd \<longrightarrow> NewID rnd \<noteq> sig_AttemptID offer1"
    by (simp add: offer1_def Sign_def)
qed

section \<open>Attempts\<close>

text \<open>C25: an attempt begins only between two different devices bound to the same network, both
  enrolled, unrevoked and heard from within the last 30 seconds, with a generation from 1 to
  2^53 - 1 and no other live attempt to the target or between the two; it stores the lease it
  returns and changes nothing else.\<close>

theorem Begin_checks_both_ends:
  assumes "picks pick" "zero_time + 30 * second \<le> now"
    "Begin C pick rnd sender target generation now s = (Inr lease, t)"
  shows "begun C rnd sender target generation now s lease t"
  using Begin_wp [of pick now C rnd sender target generation s] assms by (simp add: wp_def picks_def)

theorem Begin_checks_both_ends_witness:
  "begun plain_crypto ''AAAAAA'' dev1 dev2 1 clock0 online0 lease1 dialed"
proof (rule Begin_checks_both_ends)
  show "picks id" by (simp add: picks_def)
  show "zero_time + 30 * second \<le> clock0" by (simp add: clock0_def time_defs)
  show "Begin plain_crypto id ''AAAAAA'' dev1 dev2 1 clock0 online0 = (Inr lease1, dialed)"
    unfolding lease1_def dialed_def by (rule prod_eqI) (code_simp, simp)
qed

text \<open>C26: the lease an attempt begins with passes the verification of its peers for the whole minute
  it is valid, under the public key of the service and for exactly the scope that was asked for.\<close>

theorem begun_lease_verifies:
  assumes "picks pick" "zero_time + 30 * second \<le> now" "sound_crypto C"
    "st_serviceID s = KeyID C (ed_public C (st_key s))"
    "Begin C pick rnd sender target generation now s = (Inr lease, t)"
    "ValidID (lse_UserID lease)" "ValidID (lse_NetworkID lease)" "ValidID sender" "length rnd = 6"
    "now \<le> later" "unix later < unix (now + minute)"
  shows "Lease_Verify C lease (ed_public C (st_key s))
    \<lparr>sc_AttemptID = NewID rnd, sc_FromDeviceID = sender, sc_ToDeviceID = target, sc_PairID = target,
     sc_Generation = generation, sc_NextSequence = n\<rparr> (lse_UserID lease) (lse_NetworkID lease) 1 later = Inr ()"
proof -
  have "begun C rnd sender target generation now s lease t"
    using Begin_wp [of pick now C rnd sender target generation s] assms(1,2,5) by (simp add: wp_def picks_def)
  then obtain device j where "lease = new_lease C s rnd device j sender target generation now"
    "target \<noteq> sender" "ValidID target" by (auto simp: begun_def)
  with assms show ?thesis by (auto intro!: new_lease_verifies [simplified])
qed

theorem begun_lease_verifies_witness:
  "Lease_Verify plain_crypto lease1 (sized ''k'') \<lparr>sc_AttemptID = NewID ''AAAAAA'', sc_FromDeviceID = dev1,
     sc_ToDeviceID = dev2, sc_PairID = dev2, sc_Generation = 1, sc_NextSequence = 1\<rparr> owner0 net0 1 (clock0 + 59 * second) = Inr ()"
proof -
  have key: "ed_public plain_crypto (st_key online0) = sized ''k''" by code_simp
  have ids: "lse_UserID lease1 = owner0" "lse_NetworkID lease1 = net0" by code_simp+
  have "Begin plain_crypto id ''AAAAAA'' dev1 dev2 1 clock0 online0 = (Inr lease1, dialed)"
    unfolding lease1_def dialed_def by (rule prod_eqI) (code_simp, simp)
  moreover have "st_serviceID online0 = KeyID plain_crypto (ed_public plain_crypto (st_key online0))" by code_simp
  moreover have "ValidID owner0" "ValidID net0" "ValidID dev1" by code_simp+
  ultimately show ?thesis
    using begun_lease_verifies [of id clock0 plain_crypto online0 "''AAAAAA''" dev1 dev2 1 lease1 dialed "clock0 + 59 * second" 1]
    by (simp add: key ids picks_def clock0_def time_defs unix_def plain_crypto_sound)
qed

section \<open>Presence\<close>

text \<open>A heartbeat for an account makes the device online there for 30 seconds, after which it
  reads as stale; going offline takes the entry away.\<close>

theorem heartbeat_lasts_thirty_seconds:
  assumes "Heartbeat i userID telemetry now s = (Inr (), t)" "userID \<noteq> []"
  shows "Presence t i userID later = (if later < now + 30 * second then ''online'' else ''stale'')
    \<and> Presence (snd (Offline i userID t)) i userID later = ''offline''"
proof -
  have "wp (Heartbeat i userID telemetry now) (\<lambda>_ t. ss_presence t (presenceKey i userID) = Some now) (\<lambda>_ _. True) s"
    using assms(2) unfolding Heartbeat_def markPresence_def RecordDeviceSeen_def deviceLinkedTo_def
    by (auto simp: wp_simps Let_def split: sum.splits)
  with assms show ?thesis by (simp add: wp_def Presence_def Offline_def modify_def after_def)
qed

theorem heartbeat_lasts_thirty_seconds_witness:
  "Presence (snd (Heartbeat dev1 owner0 no_telemetry clock0 (NewSessions service5))) dev1 owner0 (clock0 + 31 * second) = ''stale''"
proof -
  have "Heartbeat dev1 owner0 no_telemetry clock0 (NewSessions service5)
      = (Inr (), snd (Heartbeat dev1 owner0 no_telemetry clock0 (NewSessions service5)))"
    by (rule prod_eqI) (code_simp, simp)
  moreover have "owner0 \<noteq> []" by code_simp
  ultimately show ?thesis
    using heartbeat_lasts_thirty_seconds [of dev1 owner0 no_telemetry clock0 "NewSessions service5" _ "clock0 + 31 * second"]
    by (simp add: second_def)
qed

section \<open>Where the code falls short\<close>

text \<open>The authorisation of a renewal compares the caller with the target only, and does not ask
  whether the caller takes part: once the dialling device has been unbound from the network it can
  no longer renew, but its peer still can, and so can a third device of the network that knows the
  attempt's identifier.\<close>

theorem renewal_is_not_the_participants_alone:
  "isl (fst (RenewLease plain_crypto dev1 dev2 (NewID ''AAAAAA'') clock0 left_network))
   \<and> \<not> isl (fst (RenewLease plain_crypto dev2 dev2 (NewID ''AAAAAA'') clock0 left_network))
   \<and> \<not> isl (fst (RenewLease plain_crypto dev3 dev2 (NewID ''AAAAAA'') clock0 third_joined))
   \<and> dev3 \<notin> {lse_FromDeviceID lease1, lse_ToDeviceID lease1}"
  by code_simp

end
