(* ===== verification/Replies.thy ===== *)
theory Replies
  imports Sessions
begin

text \<open>
  The JSON texts the server sends: objects and arrays as \<open>encoding/json\<close> marshals them, and the
  struct tags of what the handlers answer with.  A \<open>map[string]any\<close> is written with its keys in
  order, which is how the objects below list them.
\<close>

section \<open>Marshalling\<close>

datatype jval =
    VStr bytes
  | VInt int
  | VBool bool
  | VBytes bytes   \<comment> \<open>a \<open>[]byte\<close>, in padded standard base64\<close>
  | VArr "jval list"
  | VObj "(bytes \<times> jval) list"

text \<open>\<open>base64.StdEncoding\<close>: the URL alphabet's last two characters replaced, and padded.\<close>

definition std_char :: "char \<Rightarrow> char" where
  "std_char c = (if c = CHR ''-'' then CHR ''+'' else if c = CHR ''_'' then CHR ''/'' else c)"

fun padding :: "bytes \<Rightarrow> bytes" where
  "padding [] = []"
| "padding [_] = ''==''"
| "padding [_, _] = ''=''"
| "padding (_ # _ # _ # s) = padding s"

definition std_encode :: "bytes \<Rightarrow> bytes" where
  "std_encode b = map std_char (b64_encode b) @ padding b"

definition quoted :: "bytes \<Rightarrow> bytes" where
  "quoted s = quote # s @ [quote]"

fun marshal :: "jval \<Rightarrow> bytes" and marshal_items :: "jval list \<Rightarrow> bytes"
  and marshal_members :: "(bytes \<times> jval) list \<Rightarrow> bytes" where
  "marshal (VStr s) = quoted (escape s)"
| "marshal (VInt i) = itoa i"
| "marshal (VBool b) = (if b then ''true'' else ''false'')"
| "marshal (VBytes b) = quoted (std_encode b)"
| "marshal (VArr vs) = CHR ''['' # marshal_items vs @ '']''"
| "marshal (VObj ms) = CHR ''{'' # marshal_members ms @ ''}''"
| "marshal_items [] = []"
| "marshal_items [v] = marshal v"
| "marshal_items (v # w # vs) = marshal v @ CHR '','' # marshal_items (w # vs)"
| "marshal_members [] = []"
| "marshal_members [(k, v)] = quoted (escape k) @ CHR '':'' # marshal v"
| "marshal_members ((k, v) # m # ms) = quoted (escape k) @ CHR '':'' # marshal v @ CHR '','' # marshal_members (m # ms)"

section \<open>Structs\<close>

definition json_User :: "User \<Rightarrow> jval" where
  "json_User u = VObj [(''userId'', VStr (usr_ID u)), (''username'', VStr (usr_Username u))]"

definition json_UserSession :: "UserSession \<Rightarrow> jval" where
  "json_UserSession s = VObj [(''user'', json_User (ses_User s)), (''token'', VStr (ses_Token s)),
     (''expiresAt'', VInt (ses_ExpiresAt s))]"

definition json_Network :: "Network \<Rightarrow> jval" where
  "json_Network n = VObj [(''networkId'', VStr (net_ID n)), (''userId'', VStr (net_UserID n)), (''name'', VStr (net_Name n)),
     (''maxDevices'', VInt (net_MaxDevices n))]"

text \<open>The fields of the embedded \<open>DeviceStatus\<close> come after those of \<open>DeviceEntry\<close>.\<close>

definition json_DeviceEntry :: "DeviceEntry \<Rightarrow> jval" where
  "json_DeviceEntry d = VObj [(''deviceId'', VStr (de_DeviceID d)), (''userId'', VStr (de_UserID d)),
     (''name'', VStr (de_Name d)), (''presence'', VStr (de_Presence d)), (''lastSeen'', VInt (de_LastSeen d)),
     (''version'', VStr (de_Version d)), (''platform'', VStr (de_Platform d)), (''architecture'', VStr (de_Architecture d))]"

definition json_Device :: "Device \<Rightarrow> jval" where
  "json_Device d = VObj [(''deviceId'', VStr (dev_ID d)), (''userId'', VStr (dev_UserID d)),
     (''publicKey'', VBytes (dev_PublicKey d)), (''name'', VStr (dev_Name d)), (''certificate'', VBytes (dev_Certificate d))]"

definition state_text :: "pair_state \<Rightarrow> string" where
  "state_text st = (case st of Invited \<Rightarrow> ''invited'' | Approved \<Rightarrow> ''approved'' | Active \<Rightarrow> ''active''
     | Rejected \<Rightarrow> ''rejected'' | Revoked \<Rightarrow> ''revoked'')"

definition json_Pair :: "Pair \<Rightarrow> jval" where
  "json_Pair p = VObj [(''pairId'', VStr (pr_ID p)), (''networkId'', VStr (pr_NetworkID p)),
     (''initiator'', VStr (pr_Initiator p)), (''target'', VStr (pr_Target p)), (''state'', VStr (state_text (pr_State p))),
     (''expiresAt'', VInt (pr_ExpiresAt p)), (''revision'', VInt (int (pr_Revision p)))]"

definition json_Share :: "Share \<Rightarrow> jval" where
  "json_Share s = VObj [(''version'', VInt (sh_Version s)), (''serviceId'', VStr (sh_ServiceID s)),
     (''networkId'', VStr (sh_NetworkID s)), (''deviceId'', VStr (sh_DeviceID s)), (''fingerprint'', VStr (sh_Fingerprint s)),
     (''nonce'', VStr (sh_Nonce s)), (''expiresAt'', VInt (sh_ExpiresAt s)), (''signature'', VStr (sh_Signature s))]"

definition json_Lease :: "Lease \<Rightarrow> jval" where
  "json_Lease l = VObj [(''version'', VInt (lse_Version l)), (''serviceId'', VStr (lse_ServiceID l)),
     (''userId'', VStr (lse_UserID l)), (''networkId'', VStr (lse_NetworkID l)), (''pairId'', VStr (lse_PairID l)),
     (''attemptId'', VStr (lse_AttemptID l)), (''fromDeviceId'', VStr (lse_FromDeviceID l)),
     (''toDeviceId'', VStr (lse_ToDeviceID l)), (''generation'', VInt (int (lse_Generation l))),
     (''revision'', VInt (int (lse_Revision l))), (''expiresAt'', VInt (lse_ExpiresAt l)),
     (''permission'', VStr (lse_Permission l)), (''signature'', VStr (lse_Signature l))]"

definition json_Signal :: "Signal \<Rightarrow> jval" where
  "json_Signal s = VObj [(''version'', VInt (sig_Version s)), (''type'', VStr (sig_Type s)),
     (''messageId'', VStr (sig_MessageID s)), (''attemptId'', VStr (sig_AttemptID s)),
     (''generation'', VInt (int (sig_Generation s))), (''fromDeviceId'', VStr (sig_FromDeviceID s)),
     (''toDeviceId'', VStr (sig_ToDeviceID s)), (''pairId'', VStr (sig_PairID s)),
     (''sequence'', VInt (int (sig_Sequence s))), (''expiresAt'', VInt (sig_ExpiresAt s)),
     (''payload'', VStr (sig_Payload s)), (''signature'', VStr (sig_Signature s))]"

text \<open>What is put on a signal socket: \<open>ready\<close>, \<open>attempt\<close>, \<open>signal\<close> and \<open>revoked\<close>.\<close>

definition ready_message :: "string \<Rightarrow> jval" where
  "ready_message i = VObj [(''deviceId'', VStr i), (''type'', VStr ''ready''), (''version'', VInt Version)]"

definition attempt_message :: "Lease \<Rightarrow> jval" where
  "attempt_message lease = VObj [(''lease'', json_Lease lease), (''type'', VStr ''attempt'')]"

definition signal_message :: "Signal \<Rightarrow> jval" where
  "signal_message signal = VObj [(''signal'', json_Signal signal), (''type'', VStr ''signal'')]"

definition revoked_message :: "Pair \<Rightarrow> jval" where
  "revoked_message pair = VObj [(''pairId'', VStr (pr_ID pair)), (''revision'', VInt (int (pr_Revision pair))),
     (''type'', VStr ''revoked'')]"

end
