(* ===== verification/NetText.thy ===== *)
theory NetText
  imports GoText
begin

text \<open>
  The text functions of Go's \<open>net\<close> and \<open>strconv\<close> that the configuration and the server use:
  \<open>SplitHostPort\<close>, \<open>JoinHostPort\<close> and \<open>Atoi\<close>.  Parsing a URL and an IP address is a parameter, the record
  \<open>net_lib\<close>: their rules belong to the release of the library the program is built with.
\<close>

section \<open>Parameters\<close>

record url =
  url_Scheme :: string
  url_Host :: string
  url_User :: bool      \<comment> \<open>whether there is user information\<close>
  url_Path :: string
  url_RawQuery :: string
  url_Fragment :: string

record net_lib =
  parse_url :: "string \<Rightarrow> url option"
  parse_ip :: "string \<Rightarrow> bytes option"

section \<open>Host and port\<close>

text \<open>The text before and after the last \<open>c\<close>.\<close>

definition split_last :: "char \<Rightarrow> bytes \<Rightarrow> (bytes \<times> bytes) option" where
  "split_last c s = (case dropWhile (\<lambda>x. x \<noteq> c) (rev s) of
     [] \<Rightarrow> None
   | _ # t \<Rightarrow> Some (rev t, rev (takeWhile (\<lambda>x. x \<noteq> c) (rev s))))"

definition bracketed :: "bytes \<Rightarrow> bytes" where
  "bracketed host = CHR ''['' # host @ '']''"

definition no_bracket :: "bytes \<Rightarrow> bool" where
  "no_bracket s \<longleftrightarrow> \<not> contains_any s ''[]''"

definition SplitHostPort :: "bytes \<Rightarrow> (bytes \<times> bytes) option" where
  "SplitHostPort hostport = (case split_last (CHR '':'') hostport of
     None \<Rightarrow> None
   | Some (front, port) \<Rightarrow>
       if take 1 hostport = ''['' then
         (let host = takeWhile (\<lambda>x. x \<noteq> CHR '']'') (tl hostport) in
          if front = bracketed host \<and> no_bracket host \<and> no_bracket port then Some (host, port) else None)
       else if \<not> contains_any front '':'' \<and> no_bracket hostport then Some (front, port) else None)"

definition JoinHostPort :: "bytes \<Rightarrow> bytes \<Rightarrow> bytes" where
  "JoinHostPort host port = (if contains_any host '':'' then bracketed host else host) @ CHR '':'' # port"

lemma contains_any_simps [simp]:
  "contains_any [] cs = False" "contains_any (c # s) cs \<longleftrightarrow> c \<in> set cs \<or> contains_any s cs"
  "contains_any (s @ t) cs \<longleftrightarrow> contains_any s cs \<or> contains_any t cs"
  by (auto simp: contains_any_def)

lemma contains_any_iff: "contains_any s cs \<longleftrightarrow> (\<exists>c \<in> set s. c \<in> set cs)"
  by (auto simp: contains_any_def list_ex_iff)

lemma split_last_here: "c \<notin> set t \<Longrightarrow> split_last c (s @ c # t) = Some (s, t)"
proof -
  assume c: "c \<notin> set t"
  have "dropWhile (\<lambda>x. x \<noteq> c) (rev t @ c # rev s) = c # rev s"
    "takeWhile (\<lambda>x. x \<noteq> c) (rev t @ c # rev s) = rev t"
    using c by (subst dropWhile_append2 takeWhile_append2; auto)+
  then show ?thesis by (simp add: split_last_def)
qed

lemma host_port_round_trip:
  assumes "no_bracket host" "no_bracket port" "\<not> contains_any port '':''"
  shows "SplitHostPort (JoinHostPort host port) = Some (host, port)"
proof -
  have port: "CHR '':'' \<notin> set port" using assms(3) by (auto simp: contains_any_iff)
  have host: "takeWhile (\<lambda>x. x \<noteq> CHR '']'') (host @ CHR '']'' # CHR '':'' # port) = host"
    using assms(1) by (auto simp: no_bracket_def contains_any_iff takeWhile_append)
  have "take 1 (host @ CHR '':'' # port) \<noteq> ''[''"
    using assms(1) by (cases host) (auto simp: no_bracket_def)
  then show ?thesis
    using assms split_last_here [OF port, of "bracketed host"] split_last_here [OF port, of host] host
    by (auto simp: SplitHostPort_def JoinHostPort_def Let_def bracketed_def no_bracket_def)
qed

section \<open>Numbers\<close>

text \<open>\<open>strconv.Atoi\<close>: an optional sign, at least one digit, and a value that fits an \<open>int\<close>.\<close>

definition Atoi :: "bytes \<Rightarrow> int option" where
  "Atoi s =
     (let sign = take 1 s; t = (if sign = ''-'' \<or> sign = ''+'' then drop 1 s else s) in
      if t = [] then None
      else case parse_nat 0 t of
        None \<Rightarrow> None
      | Some n \<Rightarrow>
          let v = (if sign = ''-'' then - int n else int n) in
          if - (2 ^ 63) \<le> v \<and> v < 2 ^ 63 then Some v else None)"

lemma Atoi_decimal:
  assumes "n < 2 ^ 63"
  shows "Atoi (decimal_nat n) = Some (int n)"
proof -
  obtain c t where ct: "decimal_nat n = c # t" by (cases "decimal_nat n") auto
  then have "48 \<le> byte_of c \<and> byte_of c \<le> 57" using decimal_nat_digits [of c n] by simp
  then have "c \<noteq> CHR ''-''" "c \<noteq> CHR ''+''" by auto
  moreover have "parse_nat 0 (c # t) = Some n" using parse_decimal_nat [of n] ct by simp
  moreover have "int n < 2 ^ 63" using assms by (metis of_nat_less_iff of_nat_numeral of_nat_power)
  ultimately show ?thesis by (simp add: Atoi_def ct Let_def del: parse_nat.simps)
qed

end
