(* ===== verification/Http.thy ===== *)
theory Http
  imports Replies NetText
begin

text \<open>
  Requests and responses (\<open>internal/coordinator/server.go\<close>, from \<open>readBody\<close> to \<open>writeError\<close>) and the request
  bodies of all endpoints, as the strict decoder reads them.
\<close>

section \<open>Requests\<close>

text \<open>
  What the handlers read of an \<open>http.Request\<close>: \<open>rq_TLS\<close> is \<open>None\<close> for a plain connection, else the client's
  certificates; \<open>rq_Body\<close> are the bytes that arrive before the body ends or, with \<open>rq_Broken\<close>, before reading
  it fails.
\<close>

record request =
  rq_RemoteAddr :: string
  rq_TLS :: "certificate list option"
  rq_RawQuery :: string
  rq_ContentType :: string
  rq_Authorization :: "string list"
  rq_Origin :: string
  rq_Body :: bytes
  rq_Broken :: bool

text \<open>\<open>readBody\<close>: one byte more than the limit is read at most.\<close>

definition readBody :: "schema \<Rightarrow> request \<Rightarrow> err + (bytes \<rightharpoonup> field)" where
  "readBody fs rq =
     (if rq_ContentType rq \<noteq> ''application/json'' then Inl (P2p ''p2p.invalid_content_type'')
      else if over_limit (rq_Body rq) then Decode fs (take (MaxControlBytes + 1) (rq_Body rq))
      else if rq_Broken rq then Inl (P2p ''p2p.request_interrupted'')
      else Decode fs (rq_Body rq))"

section \<open>Responses\<close>

text \<open>A JSON answer, an error, a web socket, or whatever the web socket library answered when it did not
  accept the request.\<close>

datatype response = Success jval | Failure string nat | Upgraded | Refused

definition writeFailure :: "string \<Rightarrow> nat \<Rightarrow> response" where
  "writeFailure code status = Failure code status"

definition error_status :: "string \<Rightarrow> nat" where
  "error_status code =
     (if List.member [''p2p.user_unauthorized'', ''p2p.device_unauthorized'', ''p2p.login_failed''] code then 401
      else if List.member [''p2p.network_unauthorized'', ''p2p.binding_unauthorized'', ''p2p.pair_unauthorized''] code then 403
      else if code = ''p2p.rate_limited'' then 429
      else if List.member [''p2p.user_conflict'', ''p2p.request_conflict'', ''p2p.pair_state_conflict'', ''p2p.connection_busy'',
                 ''p2p.pairing_busy''] code then 409
      else 400)"

text \<open>\<open>writeError\<close>: the text of an error is shown when it is one of the program's codes.\<close>

definition shown_code :: "string \<Rightarrow> bool" where
  "shown_code code \<longleftrightarrow> take 4 code = ''p2p.'' \<and> \<not> contains_any code [CHR '' '', CHR 0x0A, CHR 0x0D]"

definition writeError :: "err \<Rightarrow> response" where
  "writeError e = (case e of
     P2p code \<Rightarrow> if shown_code code then writeFailure code (error_status code) else writeFailure ''p2p.internal_error'' 500
   | _ \<Rightarrow> writeFailure ''p2p.internal_error'' 500)"

definition respond :: "err + jval \<Rightarrow> response" where
  "respond r = (case r of Inl e \<Rightarrow> writeError e | Inr value \<Rightarrow> Success value)"

text \<open>The status and the body on the wire; the encoder ends the body with a line feed.\<close>

definition wire :: "response \<Rightarrow> (nat \<times> bytes) option" where
  "wire r = (case r of
     Success value \<Rightarrow> Some (200, marshal value @ newline)
   | Failure code status \<Rightarrow> Some (status, marshal (VObj [(''code'', VStr code)]) @ newline)
   | _ \<Rightarrow> None)"

section \<open>Bodies\<close>

definition bytes_field :: "(bytes \<rightharpoonup> field) \<Rightarrow> bytes \<Rightarrow> bytes" where
  "bytes_field m tag = (case m tag of Some (FBytes b) \<Rightarrow> b | _ \<Rightarrow> [])"

definition texts :: "bytes list \<Rightarrow> schema" where
  "texts tags = map (\<lambda>tag. (tag, KString)) tags"

definition identity_tags :: schema where
  "identity_tags = texts [''nonce'']"

definition invite_tags :: schema where
  "invite_tags = texts [''share'']"

definition action_tags :: schema where
  "action_tags = texts [''pairId'', ''action'', ''fingerprint'']"

definition begin_tags :: schema where
  "begin_tags = [(''pairId'', KString), (''generation'', KUint 64)]"

definition lease_tags :: schema where
  "lease_tags = texts [''pairId'', ''attemptId'']"

definition login_tags :: schema where
  "login_tags = texts [''username'', ''password'']"

definition register_tags :: schema where
  "register_tags = texts [''email'', ''password'']"

definition name_tags :: schema where
  "name_tags = texts [''name'']"

definition network_tags :: schema where
  "network_tags = texts [''networkId'']"

definition binding_tags :: schema where
  "binding_tags = texts [''deviceId'']"

definition limit_tags :: schema where
  "limit_tags = [(''maxDevices'', KInt 64)]"

definition heartbeat_tags :: schema where
  "heartbeat_tags = texts [''version'', ''platform'', ''architecture'', ''userId'']"

definition telemetry :: "(bytes \<rightharpoonup> field) \<Rightarrow> DeviceTelemetry" where
  "telemetry m = \<lparr>tel_Version = str_field m ''version'', tel_Platform = str_field m ''platform'',
     tel_Architecture = str_field m ''architecture''\<rparr>"

definition enrollment_tags :: schema where
  "enrollment_tags = texts [''requestId'', ''token'', ''csr'', ''name'']"

definition enrollment_of :: "(bytes \<rightharpoonup> field) \<Rightarrow> Enrollment" where
  "enrollment_of m = \<lparr>en_RequestID = str_field m ''requestId'', en_Token = str_field m ''token'',
     en_CSR = str_field m ''csr'', en_Name = str_field m ''name''\<rparr>"

definition join_tags :: schema where
  "join_tags = texts [''requestId'', ''networkId'', ''csr'', ''name'']"

definition join_of :: "(bytes \<rightharpoonup> field) \<Rightarrow> NetworkJoin" where
  "join_of m = \<lparr>nj_RequestID = str_field m ''requestId'', nj_NetworkID = str_field m ''networkId'',
     nj_CSR = str_field m ''csr'', nj_Name = str_field m ''name''\<rparr>"

definition query_tags :: schema where
  "query_tags = [(''requestId'', KString), (''publicKey'', KBytes), (''issuedAt'', KInt 64), (''signature'', KString)]"

definition query_of :: "(bytes \<rightharpoonup> field) \<Rightarrow> EnrollmentQuery" where
  "query_of m = \<lparr>eq_RequestID = str_field m ''requestId'', eq_PublicKey = bytes_field m ''publicKey'',
     eq_IssuedAt = int_field m ''issuedAt'', eq_Signature = str_field m ''signature''\<rparr>"

definition renewal_tags :: schema where
  "renewal_tags = texts [''requestId'', ''csr'']"

definition renewal_of :: "(bytes \<rightharpoonup> field) \<Rightarrow> Renewal" where
  "renewal_of m = \<lparr>rn_RequestID = str_field m ''requestId'', rn_CSR = str_field m ''csr''\<rparr>"

definition recovery_tags :: schema where
  "recovery_tags = texts [''deviceId'', ''requestId'', ''csr'', ''token'']"

definition recovery_of :: "(bytes \<rightharpoonup> field) \<Rightarrow> CertificateRecovery" where
  "recovery_of m = \<lparr>cr_DeviceID = str_field m ''deviceId'', cr_RequestID = str_field m ''requestId'',
     cr_CSR = str_field m ''csr'', cr_Token = str_field m ''token''\<rparr>"

definition share_tags :: schema where
  "share_tags = [(''version'', KInt 64), (''serviceId'', KString), (''networkId'', KString), (''deviceId'', KString),
     (''fingerprint'', KString), (''nonce'', KString), (''expiresAt'', KInt 64), (''signature'', KString)]"

definition share_of :: "(bytes \<rightharpoonup> field) \<Rightarrow> Share" where
  "share_of m = \<lparr>sh_Version = int_field m ''version'', sh_ServiceID = str_field m ''serviceId'',
     sh_NetworkID = str_field m ''networkId'', sh_DeviceID = str_field m ''deviceId'',
     sh_Fingerprint = str_field m ''fingerprint'', sh_Nonce = str_field m ''nonce'',
     sh_ExpiresAt = int_field m ''expiresAt'', sh_Signature = str_field m ''signature''\<rparr>"

text \<open>The pairing code in an invitation: unpadded base64 of the share's JSON.\<close>

definition decode_code :: "string \<Rightarrow> err + Share" where
  "decode_code code = (case b64_decode code of
     None \<Rightarrow> Inl (P2p ''p2p.invalid_pairing_code'')
   | Some encoded \<Rightarrow> (case Decode share_tags encoded of Inl e \<Rightarrow> Inl e | Inr m \<Rightarrow> Inr (share_of m)))"

section \<open>What a response can say\<close>

definition statuses :: "nat list" where
  "statuses = [400, 401, 403, 404, 409, 429, 500]"

definition proper_failure :: "response \<Rightarrow> bool" where
  "proper_failure r = (case r of
     Failure code status \<Rightarrow> shown_code code \<and> List.member statuses status
       \<and> (status = 500 \<longrightarrow> code = ''p2p.internal_error'')
   | _ \<Rightarrow> True)"

lemma error_status_cases: "error_status code \<in> {400, 401, 403, 409, 429}"
  by (simp add: error_status_def)

lemma shown_internal: "shown_code ''p2p.internal_error''"
  by (simp add: shown_code_def)

lemma proper_writeError: "proper_failure (writeError e)"
proof -
  have failure: "shown_code code \<Longrightarrow> status \<in> {400, 401, 403, 409, 429} \<Longrightarrow> proper_failure (Failure code status)" for code status
    by (auto simp: proper_failure_def statuses_def)
  have "proper_failure (Failure ''p2p.internal_error'' 500)"
    using shown_internal by (simp add: proper_failure_def statuses_def)
  then show ?thesis
    using failure [OF _ error_status_cases] by (cases e) (simp_all add: writeError_def writeFailure_def)
qed

lemma proper_respond: "proper_failure (respond r)"
  by (cases r) (simp_all add: respond_def proper_writeError, simp add: proper_failure_def)

end
