(* ===== verification/Messages.thy ===== *)
theory Messages
  imports Http
begin

text \<open>
  What is marshalled as a JSON object of strings, integers and bytes is what the strict decoder reads
  back: the two halves of the wire format, \<open>encoding/json\<close> on one side and
  \<open>internal/protocol/json.go\<close> on the other, fit together.
\<close>

section \<open>Strings\<close>

text \<open>What becomes of a string on the wire: a byte that is no part of a valid rune is replaced.\<close>

definition on_wire :: "bytes \<Rightarrow> bytes" where
  "on_wire s = unquote (escape s)"

lemma on_wire_valid [simp]: "valid_utf8 s \<Longrightarrow> on_wire s = s"
  by (simp add: on_wire_def escape_read)

definition bad_piece :: "bytes \<Rightarrow> bool" where
  "bad_piece p \<longleftrightarrow> (\<exists>c. p = [c] \<and> 0x80 \<le> byte_of c \<and> decode_rune p = (rune_error, 1))"

lemma decode_single: "0x80 \<le> byte_of c \<Longrightarrow> decode_rune [c] = (rune_error, 1)"
  by (simp add: decode_rune_def decode_multi_def)

lemma runes_pieces: "p \<in> set (runes s) \<Longrightarrow> rune_ok p \<or> bad_piece p"
proof (induction s arbitrary: p rule: runes.induct)
  case (1 s)
  show ?case
  proof (cases s)
    case Nil
    with 1 show ?thesis by (simp add: runes.simps)
  next
    case (Cons c cs)
    obtain r w where rw: "decode_rune s = (r, w)" by fastforce
    have "runes s = take w s # runes (drop w s)"
      using Cons rw by (subst runes.simps) (simp add: Let_def)
    then consider "p = take w s" | "p \<in> set (runes (drop w s))" using "1.prems" by auto
    then show ?thesis
    proof cases
      case 1
      consider (ascii) "byte_of c < 0x80" | (error) "0x80 \<le> byte_of c" "(r, w) = (rune_error, 1)"
        | (multi) "0x80 \<le> byte_of c" "(r, w) \<noteq> (rune_error, 1)" by (cases "byte_of c < 0x80") auto
      then show ?thesis
      proof cases
        case ascii
        then have "w = 1" using rw Cons by (simp add: decode_rune_def)
        with ascii 1 Cons show ?thesis by (simp add: rune_ok_def)
      next
        case error
        then show ?thesis using 1 Cons decode_single by (simp add: bad_piece_def)
      next
        case multi
        note st = decode_rune_stable [OF multi(1) rw [unfolded Cons] multi(2)]
        have "1 \<le> w" using decode_rune_width_pos [of s] rw Cons by simp
        then have "p = c # take (w - 1) cs" "length p = w" using 1 Cons st(1) by (cases w; auto)+
        moreover have "\<forall>b \<in> set p. 0x80 \<le> byte_of b" "\<And>x. decode_rune (p @ x) = (r, w)"
          using st(2,3) 1 Cons by simp_all
        ultimately show ?thesis using multi unfolding rune_ok_def by auto
      qed
    next
      case 2
      then show ?thesis using "1.IH" [of w p] Cons rw by auto
    qed
  qed
qed

lemma bad_piece_scan:
  assumes "bad_piece p"
  shows "scan_string (escape_rune p @ x) = map_option (\<lambda>(y, r). (escape_rune p @ y, r)) (scan_string x)"
proof -
  have "escape_rune p = backslash # ''ufffd''" using assms by (auto simp: bad_piece_def escape_rune_def)
  moreover have "hex4 (''fffd'' @ x) = Some 0xFFFD" by (simp add: hex_value_def Let_def)
  ultimately show ?thesis using scan_string_u [of "''fffd'' @ x"] by simp
qed

lemma scan_escape: "scan_string (escape s @ quote # x) = Some (escape s, x)"
proof -
  have "scan_string (concat (map escape_rune ps) @ quote # x) = Some (concat (map escape_rune ps), x)"
    if "\<forall>p \<in> set ps. rune_ok p \<or> bad_piece p" for ps
    using that
  proof (induction ps)
    case (Cons p ps)
    then have "scan_string (escape_rune p @ y) = map_option (\<lambda>(z, r). (escape_rune p @ z, r)) (scan_string y)" for y
      using escape_rune_read bad_piece_scan by auto
    with Cons show ?case by simp
  qed simp
  then show ?thesis using runes_pieces by (simp add: escape_def)
qed

section \<open>Numbers\<close>

definition ends_value :: "bytes \<Rightarrow> bool" where
  "ends_value x \<longleftrightarrow> x = [] \<or> (\<exists>c y. x = c # y \<and> (c = CHR '','' \<or> c = CHR ''}'' \<or> c = CHR '']'' \<or> c = CHR 0x0A))"

lemma decimal_nat_zero: "decimal_nat n = CHR ''0'' # t \<Longrightarrow> t = []"
proof (induction n arbitrary: t rule: decimal_nat.induct)
  case (1 n)
  show ?case
  proof (cases "n < 10")
    case True
    with "1.prems" show ?thesis by (simp add: decimal_nat.simps [of n])
  next
    case False
    then have split: "decimal_nat n = decimal_nat (n div 10) @ [char_of (48 + n mod 10)]"
      by (simp add: decimal_nat.simps [of n])
    then obtain u where u: "decimal_nat (n div 10) = CHR ''0'' # u"
      using "1.prems" by (cases "decimal_nat (n div 10)") auto
    then have "u = []" using "1.IH" False by blast
    then have "n div 10 = 0" using u parse_decimal_nat [of "n div 10"] by simp
    with False show ?thesis by simp
  qed
qed

lemma scan_int_decimal:
  assumes "ends_value x"
  shows "scan_int (decimal_nat n @ x) = Some (decimal_nat n, x)"
proof -
  obtain c t where d: "decimal_nat n = c # t" using decimal_nat_nonempty [of n] by (cases "decimal_nat n") auto
  have all: "\<forall>b \<in> set (decimal_nat n). is_digit b" by (auto simp: is_digit_def dest: decimal_nat_digits)
  have stop: "takeWhile is_digit x = []" "dropWhile is_digit x = x"
    using assms by (auto simp: ends_value_def is_digit_def)
  show ?thesis
  proof (cases "c = CHR ''0''")
    case True
    with d decimal_nat_zero have "t = []" by blast
    with d True show ?thesis by (simp add: scan_int_def)
  next
    case False
    have "takeWhile is_digit (decimal_nat n @ x) = decimal_nat n" "dropWhile is_digit (decimal_nat n @ x) = x"
      using all stop by simp_all
    with False d all show ?thesis by (simp add: scan_int_def)
  qed
qed

definition small :: "int \<Rightarrow> bool" where
  "small i \<longleftrightarrow> - (2 ^ 64) \<le> i \<and> i < 2 ^ 64"

definition json_of_int :: "int \<Rightarrow> json" where
  "json_of_int i = JNum (if i < 0 then [CHR ''-''] else []) (decimal_nat (nat \<bar>i\<bar>)) [] []"

lemma digits_value_decimal [simp]: "digits_value (decimal_nat n) = n"
  by (simp add: digits_value_def parse_decimal_nat)

lemma small_no_overflow: "small i \<Longrightarrow> \<not> float_overflow (decimal_nat (nat \<bar>i\<bar>)) [] []"
proof -
  assume "small i"
  then have "nat \<bar>i\<bar> \<le> 2 ^ 64" by (auto simp: small_def)
  moreover have "(2::nat) ^ 64 < 2 ^ 1024 - 2 ^ 970" by simp
  ultimately show ?thesis by (simp add: float_overflow_def exp_value_def)
qed

lemma scan_number_itoa:
  assumes "ends_value x"
  shows "scan_number (itoa i @ x) = Some ((if i < 0 then [CHR ''-''] else [], decimal_nat (nat \<bar>i\<bar>), [], []), x)"
proof -
  have sign: "scan_sign (itoa i @ x) = (if i < 0 then [CHR ''-''] else [], decimal_nat (nat \<bar>i\<bar>) @ x)"
  proof (cases "i < 0")
    case True
    then show ?thesis by (simp add: scan_sign_def itoa_def)
  next
    case False
    obtain c t where d: "decimal_nat (nat i) = c # t"
      using decimal_nat_nonempty [of "nat i"] by (cases "decimal_nat (nat i)") auto
    then have "c \<in> set (decimal_nat (nat i))" by simp
    then have "c \<noteq> CHR ''-''" by (auto dest: decimal_nat_digits)
    with False d show ?thesis by (simp add: scan_sign_def itoa_def)
  qed
  have "scan_frac x = Some ([], x)" "scan_exp x = Some ([], x)"
    using assms by (auto simp: ends_value_def scan_frac_def scan_exp_def)
  with sign scan_int_decimal [OF assms] show ?thesis by (simp add: scan_number_def)
qed

lemma itoa_nonempty: "itoa i \<noteq> []"
  by (simp add: itoa_def)

lemma json_int_of_int [simp]: "json_int (json_of_int i) = Some i"
  by (simp add: json_int_def json_of_int_def)

section \<open>Bytes\<close>

lemma byte_is: "c = d \<longleftrightarrow> byte_of c = byte_of d"
  by simp

lemma b64_char_bytes:
  "n < 64 \<Longrightarrow> byte_of (b64_char n) \<in> {45, 95} \<union> {48..57} \<union> {65..90} \<union> {97..122}"
  by (auto simp: b64_char_def)

lemma b64_encode_chars: "c \<in> set (b64_encode s) \<Longrightarrow> byte_of c \<in> {45, 95} \<union> {48..57} \<union> {65..90} \<union> {97..122}"
proof (induction s rule: b64_encode.induct)
  case (4 a b c' s)
  from 4(2) consider "c \<in> b64_char ` {..<64}" | "c \<in> set (b64_encode s)"
    by (simp add: Let_def) (elim disjE, simp_all)
  then show ?case using 4(1) b64_char_bytes by cases auto
qed (use b64_char_bytes in \<open>simp_all add: Let_def, (elim disjE; simp)+\<close>)

lemma b64_encode_length: "(length (b64_encode s) + length (padding s)) mod 4 = 0"
  by (induction s rule: b64_encode.induct) (simp_all add: Let_def)

lemma std_char_bytes:
  assumes "byte_of c \<in> {45, 95} \<union> {48..57} \<union> {65..90} \<union> {97..122}"
  shows "byte_of (std_char c) \<in> {43, 47} \<union> {48..57} \<union> {65..90} \<union> {97..122}" "std_value (std_char c) = b64_value c"
proof -
  have minus: "c = CHR ''-'' \<longleftrightarrow> byte_of c = 45" and under: "c = CHR ''_'' \<longleftrightarrow> byte_of c = 95"
    using byte_is [of c "CHR ''-''"] byte_is [of c "CHR ''_''"] by simp_all
  show "byte_of (std_char c) \<in> {43, 47} \<union> {48..57} \<union> {65..90} \<union> {97..122}"
    using assms minus under by (auto simp: std_char_def)
  show "std_value (std_char c) = b64_value c"
    using assms minus under by (auto simp: std_char_def std_value_def b64_value_def)
qed

lemma padding_cases: "padding s = [] \<or> padding s = ''='' \<or> padding s = ''==''"
  by (induction s rule: padding.induct) auto

lemma b64_values_plain:
  "\<forall>c \<in> set s. c \<noteq> CHR 0x0D \<and> c \<noteq> CHR 0x0A \<Longrightarrow> b64_values s = Some vs \<Longrightarrow>
   (\<forall>c \<in> set s. b64_value c \<noteq> None) \<and> map (\<lambda>c. the (b64_value c)) s = vs"
proof (induction s arbitrary: vs)
  case (Cons c s)
  have "c \<noteq> CHR 0x0D \<and> c \<noteq> CHR 0x0A" using Cons.prems(1) by simp
  with Cons.prems(2) obtain v ws where "b64_value c = Some v" "b64_values s = Some ws" "vs = v # ws"
    by (auto split: option.splits)
  with Cons.IH [of ws] Cons.prems(1) show ?case by (simp del: b64_values.simps)
qed simp

lemma std_roundtrip: "std_decode (std_encode s) = Some s"
proof -
  let ?body = "map std_char (b64_encode s)"
  have bytes: "\<forall>c \<in> set ?body. byte_of c \<in> {43, 47} \<union> {48..57} \<union> {65..90} \<union> {97..122}"
    unfolding set_map by (intro ballI, elim imageE, hypsubst) (rule std_char_bytes(1) [OF b64_encode_chars])
  have plain: "\<forall>c \<in> set (b64_encode s). c \<noteq> CHR 0x0D \<and> c \<noteq> CHR 0x0A"
    using b64_encode_chars [of _ s] by force
  obtain vs where vs: "b64_values (b64_encode s) = Some vs" "b64_groups vs = Some s"
    using b64_roundtrip [of s] by (auto simp: b64_decode_def split: option.splits)
  note vals = b64_values_plain [OF plain vs(1)]
  have "filter (\<lambda>c. c \<noteq> CHR 0x0D \<and> c \<noteq> CHR 0x0A) ?body = ?body"
    using bytes by (force simp: filter_id_conv)
  moreover have "filter (\<lambda>c. c \<noteq> CHR 0x0D \<and> c \<noteq> CHR 0x0A) (padding s) = padding s"
    using padding_cases [of s] by auto
  ultimately have f: "filter (\<lambda>c. c \<noteq> CHR 0x0D \<and> c \<noteq> CHR 0x0A) (std_encode s) = ?body @ padding s"
    unfolding std_encode_def by simp
  have ne: "\<forall>c \<in> set ?body. c \<noteq> CHR ''=''"
  proof
    fix c assume "c \<in> set ?body"
    with bytes have "byte_of c \<in> {43, 47} \<union> {48..57} \<union> {65..90} \<union> {97..122}" by blast
    then show "c \<noteq> CHR ''=''" by auto
  qed
  moreover have "takeWhile (\<lambda>c. c \<noteq> CHR ''='') (padding s) = []" "dropWhile (\<lambda>c. c \<noteq> CHR ''='') (padding s) = padding s"
    using padding_cases [of s] by auto
  ultimately have t: "takeWhile (\<lambda>c. c \<noteq> CHR ''='') (?body @ padding s) = ?body"
    "dropWhile (\<lambda>c. c \<noteq> CHR ''='') (?body @ padding s) = padding s"
    by (subst takeWhile_append2 dropWhile_append2; auto)+
  have std: "std_value (std_char c) = b64_value c" if "c \<in> set (b64_encode s)" for c
    using std_char_bytes(2) b64_encode_chars [OF that] .
  have "\<not> list_ex (\<lambda>c. std_value c = None) ?body" using vals std by (auto simp: list_ex_iff)
  moreover have "map (\<lambda>c. the (std_value c)) ?body = vs"
  proof -
    have "map (\<lambda>c. the (std_value c)) ?body = map (\<lambda>c. the (b64_value c)) (b64_encode s)" using std by simp
    with vals show ?thesis by simp
  qed
  moreover have "length (?body @ padding s) mod 4 = 0" using b64_encode_length [of s] by simp
  moreover have "list_all (\<lambda>c. c = CHR ''='') (padding s)" "length (padding s) \<le> 2" using padding_cases [of s] by auto
  ultimately show ?thesis unfolding std_decode_def Let_def f t using vs(2) by simp
qed

interpretation std: codec std_encode std_decode
  by unfold_locales (rule std_roundtrip)

lemma plain_text:
  "\<forall>c \<in> set s. 0x20 \<le> byte_of c \<and> byte_of c < 0x80 \<and> c \<noteq> quote \<and> c \<noteq> backslash \<Longrightarrow>
   scan_string (s @ quote # x) = Some (s, x) \<and> unquote s = s"
proof (induction s)
  case Nil
  show ?case by (simp add: unquote.simps)
next
  case (Cons c s)
  then show ?case by (simp add: scan_string_plain unquote.simps [of "c # s"])
qed

lemma std_encode_text:
  "scan_string (std_encode s @ quote # x) = Some (std_encode s, x)" "unquote (std_encode s) = std_encode s"
proof -
  have "0x20 \<le> byte_of c \<and> byte_of c < 0x80 \<and> byte_of c \<noteq> 0x22 \<and> byte_of c \<noteq> 0x5C" if "c \<in> set (std_encode s)" for c
    using that padding_cases [of s] std_char_bytes(1) [OF b64_encode_chars] by (fastforce simp: std_encode_def)
  then have "\<forall>c \<in> set (std_encode s). 0x20 \<le> byte_of c \<and> byte_of c < 0x80 \<and> c \<noteq> quote \<and> c \<noteq> backslash"
    by (simp add: quote_def backslash_def byte_is [of _ "CHR 0x22"] byte_is [of _ "CHR 0x5C"] del: of_char_eq_iff)
  with plain_text [of "std_encode s" x]
  show "scan_string (std_encode s @ quote # x) = Some (std_encode s, x)" "unquote (std_encode s) = std_encode s" by simp_all
qed

section \<open>Flat values\<close>

text \<open>What a value that is not nested is read as.\<close>

fun leaf :: "jval \<Rightarrow> json option" where
  "leaf (VStr s) = Some (JStr (on_wire s))"
| "leaf (VInt i) = (if small i then Some (json_of_int i) else None)"
| "leaf (VBool b) = Some (JBool b)"
| "leaf (VBytes b) = Some (JStr (std_encode b))"
| "leaf _ = None"

lemma leaf_not_null [simp]: "leaf v \<noteq> Some JNull"
  by (cases v) (simp_all add: json_of_int_def)

lemma leaf_starts:
  assumes "leaf v = Some j"
  obtains c t where "marshal v = c # t" "c \<notin> {CHR ''['', CHR '']'', CHR ''{'', CHR ''}'', CHR '':'', CHR '',''}"
    "\<not> json_space c" "c \<noteq> quote \<or> (\<exists>s. v = VStr s) \<or> (\<exists>b. v = VBytes b)"
proof (cases v)
  case (VInt i)
  obtain c t where it: "itoa i = c # t" using itoa_nonempty [of i] by (cases "itoa i") auto
  then have "number_char c" using itoa_chars [of i] by simp
  then have "c \<notin> {CHR ''['', CHR '']'', CHR ''{'', CHR ''}'', CHR '':'', CHR '',''} \<and> \<not> json_space c \<and> c \<noteq> quote"
    by (auto simp: number_char_def is_digit_def json_space_def quote_def)
  with that it VInt show ?thesis by auto
next
  case (VBool b)
  then show ?thesis using that by (cases b) (auto simp: json_space_def quote_def)
qed (use assms that in \<open>auto simp: quoted_def quote_def json_space_def\<close>)

lemma scan_leaf:
  assumes "leaf v = Some j" "ends_value x"
  shows "scan_scalar (marshal v @ x) = Some (j, x)"
proof (cases v)
  case (VStr s)
  with assms(1) scan_escape [of s x] show ?thesis by (simp add: quoted_def scan_scalar_def on_wire_def)
next
  case (VInt i)
  obtain c t where it: "itoa i = c # t" using itoa_nonempty [of i] by (cases "itoa i") auto
  then have "number_char c" using itoa_chars [of i] by simp
  then have "c \<noteq> quote" "c \<noteq> CHR ''t''" "c \<noteq> CHR ''f''" "c \<noteq> CHR ''n''"
    by (auto simp: number_char_def is_digit_def quote_def)
  then have "scan_scalar (itoa i @ x) = (case scan_number (itoa i @ x) of
         None \<Rightarrow> None
       | Some ((sign, whole, frac, ex), r) \<Rightarrow>
           if float_overflow whole frac ex then None else Some (JNum sign whole frac ex, r))"
    by (simp add: scan_scalar_def it)
  with assms VInt scan_number_itoa [OF assms(2), of i] small_no_overflow [of i] show ?thesis
    by (auto simp: json_of_int_def split: if_splits)
next
  case (VBool b)
  with assms(1) show ?thesis by (cases b) (auto simp: scan_scalar_def literal_def quote_def)
next
  case (VBytes b)
  with assms(1) std_encode_text(1) [of b x] std_encode_text(2) [of b] show ?thesis by (simp add: quoted_def scan_scalar_def)
qed (use assms in simp_all)

lemma Token_leaf:
  assumes "leaf v = Some j" "ends_value x"
  shows "Token \<lparr>dec_state = ObjectColon, dec_stack = stack, dec_rest = CHR '':'' # marshal v @ x\<rparr>
    = Inr (Scalar j, \<lparr>dec_state = ObjectComma, dec_stack = stack, dec_rest = x\<rparr>)"
proof -
  obtain c t where m: "marshal v = c # t" "c \<notin> {CHR ''['', CHR '']'', CHR ''{'', CHR ''}'', CHR '':'', CHR '',''}" "\<not> json_space c"
    using leaf_starts [OF assms(1)] by metis
  have "Token \<lparr>dec_state = ObjectValue, dec_stack = stack, dec_rest = marshal v @ x\<rparr>
      = Inr (Scalar j, \<lparr>dec_state = ObjectComma, dec_stack = stack, dec_rest = x\<rparr>)"
    using m scan_leaf [OF assms]
    by (subst Token.simps) (simp add: skip_space_def tokenValueAllowed_def tokenValueEnd_def)
  then show ?thesis
    by (subst Token.simps) (simp add: skip_space_def json_space_def)
qed

lemma Token_key:
  "Token \<lparr>dec_state = ObjectStart, dec_stack = stack, dec_rest = quoted (escape k) @ x\<rparr>
    = Inr (Scalar (JStr (on_wire k)), \<lparr>dec_state = ObjectColon, dec_stack = stack, dec_rest = x\<rparr>)"
  "Token \<lparr>dec_state = ObjectComma, dec_stack = stack, dec_rest = CHR '','' # quoted (escape k) @ x\<rparr>
    = Inr (Scalar (JStr (on_wire k)), \<lparr>dec_state = ObjectColon, dec_stack = stack, dec_rest = x\<rparr>)"
proof -
  have key: "Token \<lparr>dec_state = st, dec_stack = stack, dec_rest = quoted (escape k) @ x\<rparr>
    = Inr (Scalar (JStr (on_wire k)), \<lparr>dec_state = ObjectColon, dec_stack = stack, dec_rest = x\<rparr>)"
    if "st = ObjectStart \<or> st = ObjectKey" for st
    using that scan_escape [of k x]
    by (subst Token.simps) (auto simp: quoted_def skip_space_def json_space_def quote_def on_wire_def)
  then show "Token \<lparr>dec_state = ObjectStart, dec_stack = stack, dec_rest = quoted (escape k) @ x\<rparr>
    = Inr (Scalar (JStr (on_wire k)), \<lparr>dec_state = ObjectColon, dec_stack = stack, dec_rest = x\<rparr>)" by simp
  show "Token \<lparr>dec_state = ObjectComma, dec_stack = stack, dec_rest = CHR '','' # quoted (escape k) @ x\<rparr>
    = Inr (Scalar (JStr (on_wire k)), \<lparr>dec_state = ObjectColon, dec_stack = stack, dec_rest = x\<rparr>)"
    using key [of ObjectKey] by (subst Token.simps) (simp add: skip_space_def json_space_def)
qed

section \<open>Objects\<close>

definition member_text :: "bytes \<times> jval \<Rightarrow> bytes" where
  "member_text m = quoted (escape (fst m)) @ CHR '':'' # marshal (snd m)"

lemma marshal_members_Cons:
  "marshal_members (m # ms) = member_text m @ concat (map (\<lambda>m. CHR '','' # member_text m) ms)"
proof (induction ms arbitrary: m)
  case Nil
  show ?case by (cases m) (simp add: member_text_def)
next
  case (Cons m' ms)
  then show ?case by (cases m) (simp add: member_text_def)
qed

definition leaves :: "(bytes \<times> jval) list \<Rightarrow> bool" where
  "leaves ms \<longleftrightarrow> list_all (\<lambda>m. leaf (snd m) \<noteq> None) ms"

definition read_members :: "(bytes \<times> jval) list \<Rightarrow> (bytes \<times> json) list" where
  "read_members ms = map (\<lambda>m. (on_wire (fst m), the (leaf (snd m)))) ms"

lemma value_leaf:
  assumes "leaf v = Some j" "ends_value x"
  shows "unique_value (Suc levels) \<lparr>dec_state = ObjectColon, dec_stack = stack, dec_rest = CHR '':'' # marshal v @ x\<rparr>
    = Inr (j, \<lparr>dec_state = ObjectComma, dec_stack = stack, dec_rest = x\<rparr>)"
proof -
  have "j \<noteq> JNull" using assms(1) leaf_not_null [of v] by auto
  then show ?thesis by (simp add: Token_leaf [OF assms])
qed

lemma members_close:
  assumes "0 < fuel"
  shows "members value (CHR ''{'') fuel seen
      \<lparr>dec_state = ObjectComma, dec_stack = st # stack, dec_rest = CHR ''}'' # x\<rparr>
    = Inr (seen, \<lparr>dec_state = tokenValueEnd st, dec_stack = stack, dec_rest = x\<rparr>)"
proof -
  obtain n where "fuel = Suc n" using assms by (cases fuel) auto
  moreover have "Token \<lparr>dec_state = ObjectComma, dec_stack = st # stack, dec_rest = CHR ''}'' # x\<rparr>
      = Inr (Delim (CHR ''}''), \<lparr>dec_state = tokenValueEnd st, dec_stack = stack, dec_rest = x\<rparr>)"
    by (subst Token.simps) (simp add: skip_space_def json_space_def)
  ultimately show ?thesis by (simp add: More_def skip_space_def json_space_def)
qed

lemma members_more:
  assumes "leaves ms" "distinct (map fst seen @ map (\<lambda>m. on_wire (fst m)) ms)" "length ms < fuel"
  shows "members (unique_value (Suc levels)) (CHR ''{'') fuel seen
      \<lparr>dec_state = ObjectComma, dec_stack = st # stack, dec_rest = concat (map (\<lambda>m. CHR '','' # member_text m) ms) @ CHR ''}'' # x\<rparr>
    = Inr (seen @ read_members ms, \<lparr>dec_state = tokenValueEnd st, dec_stack = stack, dec_rest = x\<rparr>)"
  using assms
proof (induction ms arbitrary: seen fuel)
  case Nil
  then show ?case by (simp add: members_close read_members_def)
next
  case (Cons m ms)
  obtain n where n: "fuel = Suc n" "length ms < n" using Cons.prems(3) by (cases fuel) auto
  obtain j where j: "leaf (snd m) = Some j" "leaves ms" using Cons.prems(1) by (auto simp: leaves_def)
  let ?rest = "concat (map (\<lambda>m. CHR '','' # member_text m) ms) @ CHR ''}'' # x"
  have "ends_value ?rest" by (cases ms) (simp_all add: ends_value_def)
  note v = value_leaf [OF j(1) this, of levels "st # stack"]
  have more: "More \<lparr>dec_state = ObjectComma, dec_stack = st # stack, dec_rest = CHR '','' # y\<rparr>" for y
    by (simp add: More_def skip_space_def json_space_def)
  have "on_wire (fst m) \<notin> set (map fst seen)" using Cons.prems(2) by auto
  moreover have "distinct (map fst (seen @ [(on_wire (fst m), j)]) @ map (\<lambda>m. on_wire (fst m)) ms)"
    using Cons.prems(2) by auto
  note IH = Cons.IH [OF j(2) this n(2)]
  ultimately show ?case
    using Token_key(2) [of "st # stack" "fst m" "CHR '':'' # marshal (snd m) @ ?rest"] v IH more j(1)
    by (simp add: n(1) member_text_def read_members_def quoted_def)
qed

lemma unique_value_object:
  assumes "leaves (m # ms)" "distinct (map (\<lambda>m. on_wire (fst m)) (m # ms))"
  shows "unique_value (Suc (Suc levels)) (new_decoder (marshal (VObj (m # ms)) @ x))
    = Inr (JObj (read_members (m # ms)), \<lparr>dec_state = TopValue, dec_stack = [], dec_rest = x\<rparr>)"
proof -
  let ?ms = "concat (map (\<lambda>m. CHR '','' # member_text m) ms) @ CHR ''}'' # x"
  let ?rest = "member_text m @ ?ms"
  obtain j where j: "leaf (snd m) = Some j" "leaves ms" using assms(1) by (auto simp: leaves_def)
  have ends: "ends_value ?ms" by (cases ms) (simp_all add: ends_value_def)
  have "length ms \<le> length (concat (map (\<lambda>m. CHR '','' # member_text m) ms))"
    by (induction ms) auto
  then have fuel: "length ms < length ?rest" by simp
  have start: "Token (new_decoder (CHR ''{'' # ?rest))
      = Inr (Delim (CHR ''{''), \<lparr>dec_state = ObjectStart, dec_stack = [TopValue], dec_rest = ?rest\<rparr>)"
    by (subst Token.simps) (simp add: new_decoder_def skip_space_def json_space_def tokenValueAllowed_def)
  have more: "More \<lparr>dec_state = ObjectStart, dec_stack = [TopValue], dec_rest = ?rest\<rparr>"
    by (simp add: More_def skip_space_def json_space_def member_text_def quoted_def quote_def)
  have "members (unique_value (Suc levels)) (CHR ''{'') (Suc (length ?rest)) []
      \<lparr>dec_state = ObjectStart, dec_stack = [TopValue], dec_rest = ?rest\<rparr>
    = members (unique_value (Suc levels)) (CHR ''{'') (length ?rest) [(on_wire (fst m), j)]
      \<lparr>dec_state = ObjectComma, dec_stack = [TopValue], dec_rest = ?ms\<rparr>"
    using Token_key(1) [of "[TopValue]" "fst m" "CHR '':'' # marshal (snd m) @ ?ms"]
      value_leaf [OF j(1) ends, of levels "[TopValue]"] more
    by (simp add: member_text_def)
  also have "\<dots> = Inr ((on_wire (fst m), j) # read_members ms, \<lparr>dec_state = TopValue, dec_stack = [], dec_rest = x\<rparr>)"
    using members_more [OF j(2) _ fuel, of "[(on_wire (fst m), j)]" levels TopValue "[]" x] assms(2)
    by (simp add: tokenValueEnd_def)
  finally have body: "members (unique_value (Suc levels)) (CHR ''{'') (Suc (length ?rest)) []
      \<lparr>dec_state = ObjectStart, dec_stack = [TopValue], dec_rest = ?rest\<rparr>
    = Inr (read_members (m # ms), \<lparr>dec_state = TopValue, dec_stack = [], dec_rest = x\<rparr>)"
    using j(1) by (simp add: read_members_def)
  have written: "marshal (VObj (m # ms)) @ x = CHR ''{'' # ?rest"
    by (simp only: marshal.simps marshal_members_Cons append.simps append_assoc)
  show ?thesis
    unfolding written unique_value.simps(2) [of "Suc levels"] start
    by (simp only: sum.case prod.case token.case decoder.simps body) simp
qed

section \<open>Decoding what was marshalled\<close>

text \<open>A member of an object as a field of a kind.\<close>

fun leaf_field :: "kind \<Rightarrow> jval \<Rightarrow> field option" where
  "leaf_field KString (VStr s) = Some (FString (on_wire s))"
| "leaf_field (KInt w) (VInt i) = (if small i \<and> - (2 ^ (w - 1)) \<le> i \<and> i < 2 ^ (w - 1) then Some (FInt i) else None)"
| "leaf_field (KUint w) (VInt i) = (if small i \<and> 0 \<le> i \<and> i < 2 ^ w then Some (FInt i) else None)"
| "leaf_field KBytes (VBytes b) = Some (FBytes b)"
| "leaf_field _ _ = None"

lemma leaf_field_reads: "leaf_field k v = Some f \<Longrightarrow> \<exists>j. leaf v = Some j \<and> decode_field k j = Some f"
  by (cases "(k, v)" rule: leaf_field.cases)
    (auto simp: json_of_int_def json_int_def std.dec_enc split: if_splits)

text \<open>The members come in the order of the fields, as \<open>encoding/json\<close> writes a struct.\<close>

definition struct_of :: "schema \<Rightarrow> (bytes \<times> jval) list \<Rightarrow> bool" where
  "struct_of fs ms \<longleftrightarrow> list_all2 (\<lambda>f m. fst f = fst m \<and> leaf_field (snd f) (snd m) \<noteq> None) fs ms"

definition filled :: "schema \<Rightarrow> (bytes \<times> jval) list \<Rightarrow> (bytes \<rightharpoonup> field) \<Rightarrow> bytes \<rightharpoonup> field" where
  "filled fs ms target = fold (\<lambda>(f, m) target. target(fst f := leaf_field (snd f) (snd m))) (zip fs ms) target"

lemma struct_leaves: "struct_of fs ms \<Longrightarrow> leaves ms"
  unfolding struct_of_def leaves_def
  by (induction fs ms rule: list_all2_induct) (auto dest: leaf_field_reads)

lemma struct_names: "struct_of fs ms \<Longrightarrow> map fst ms = map fst fs"
  unfolding struct_of_def by (induction fs ms rule: list_all2_induct) auto

lemma decode_read_members:
  assumes "\<forall>f \<in> set fs. valid_utf8 (fst f)" "\<forall>f \<in> set fs. find_field schema (fst f) = Some f"
  shows "struct_of fs ms \<Longrightarrow> decode_members schema (read_members ms) target = Some (filled fs ms target)"
  using assms
proof (induction fs arbitrary: ms target)
  case Nil
  then show ?case by (simp add: struct_of_def read_members_def filled_def)
next
  case (Cons f fs)
  obtain m rest where ms: "ms = m # rest" "fst m = fst f" "leaf_field (snd f) (snd m) \<noteq> None" "struct_of fs rest"
    using Cons.prems(1) by (auto simp: struct_of_def list_all2_Cons1)
  obtain x where x: "leaf_field (snd f) (snd m) = Some x" using ms(3) by blast
  obtain j where j: "leaf (snd m) = Some j" "decode_field (snd f) j = Some x" using leaf_field_reads [OF x] by blast
  have "decode_members schema (read_members rest) (target(fst f \<mapsto> x)) = Some (filled fs rest (target(fst f \<mapsto> x)))"
    using Cons.IH [OF ms(4)] Cons.prems(2,3) by simp
  with j x ms Cons.prems(2,3) show ?case by (cases f) (simp add: read_members_def filled_def)
qed

lemma Token_end: "Token \<lparr>dec_state = st, dec_stack = stack, dec_rest = []\<rparr> = Inl EOF"
  by (subst Token.simps) (simp add: skip_space_def)

lemma Decode_marshal:
  assumes "struct_of fs ms" "fs \<noteq> []" "distinct (map fst fs)" "\<forall>f \<in> set fs. valid_utf8 (fst f)"
    and size: "\<not> over_limit (marshal (VObj ms))"
  shows "Decode fs (marshal (VObj ms)) = Inr (filled fs ms Map.empty)"
proof -
  obtain m rest where ms: "ms = m # rest" using assms(1,2) by (cases ms) (auto simp: struct_of_def)
  note names = struct_names [OF assms(1)]
  have wire: "map (\<lambda>m. on_wire (fst m)) ms = map fst fs"
  proof -
    have "map (\<lambda>m. on_wire (fst m)) ms = map on_wire (map fst fs)" by (simp flip: names)
    also have "\<dots> = map fst fs" using assms(4) by (simp add: map_idI)
    finally show ?thesis .
  qed
  have read: "uniqueValue (new_decoder (marshal (VObj ms)))
      = Inr (JObj (read_members ms), \<lparr>dec_state = TopValue, dec_stack = [], dec_rest = []\<rparr>)"
  proof -
    have "distinct (map (\<lambda>m. on_wire (fst m)) (m # rest))" using wire assms(3) unfolding ms by metis
    from unique_value_object [OF struct_leaves [OF assms(1), unfolded ms] this, of 11 "[]"] show ?thesis
      unfolding uniqueValue_def ms by (simp only: append_Nil2) (simp add: eval_nat_numeral)
  qed
  have "decode_members fs (read_members ms) Map.empty = Some (filled fs ms Map.empty)"
    using assms(3,4) by (intro decode_read_members [OF _ _ assms(1)]) (auto intro: find_field_exact)
  moreover have "list_all (\<lambda>f. List.member (map fst (read_members ms)) (fst f)) fs"
    using wire by (simp add: list_all_iff read_members_def comp_def)
  moreover have "marshal (VObj ms) \<noteq> []" "\<not> over_limit (marshal (VObj ms))"
    using size by simp_all
  ultimately show ?thesis using read Token_end
    by (simp add: Decode_def decode_struct_def del: marshal.simps)
qed

section \<open>The messages\<close>

definition int64 :: "int \<Rightarrow> bool" where
  "int64 i \<longleftrightarrow> - (2 ^ 63) \<le> i \<and> i < 2 ^ 63"

definition Signal_wire :: "Signal \<Rightarrow> bool" where
  "Signal_wire s \<longleftrightarrow> Signal_text s \<and> valid_utf8 (sig_Signature s) \<and> int64 (sig_Version s) \<and> int64 (sig_ExpiresAt s)
     \<and> sig_Generation s < 2 ^ 64 \<and> sig_Sequence s < 2 ^ 64 \<and> \<not> over_limit (marshal (json_Signal s))"

definition Share_wire :: "Share \<Rightarrow> bool" where
  "Share_wire h \<longleftrightarrow> list_all valid_utf8 [sh_ServiceID h, sh_NetworkID h, sh_DeviceID h, sh_Fingerprint h, sh_Nonce h, sh_Signature h]
     \<and> int64 (sh_Version h) \<and> int64 (sh_ExpiresAt h) \<and> \<not> over_limit (marshal (json_Share h))"

lemma tags_valid:
  "list_all (\<lambda>f. valid_utf8 (fst f)) signal_tags" "list_all (\<lambda>f. valid_utf8 (fst f)) share_tags"
  by (simp_all add: signal_tags_def share_tags_def ascii_valid)

lemma tags_distinct: "distinct (map fst signal_tags)" "distinct (map fst share_tags)"
  by (simp_all add: signal_tags_def share_tags_def)

lemma read_signal:
  assumes "Signal_wire s"
  obtains m where "Decode signal_tags (marshal (json_Signal s)) = Inr m" "signal_of m = s"
proof -
  obtain ms where ms: "json_Signal s = VObj ms" by (simp add: json_Signal_def)
  have "struct_of signal_tags ms"
    using assms ms by (auto simp: struct_of_def signal_tags_def json_Signal_def Signal_wire_def int64_def small_def)
  then have d: "Decode signal_tags (marshal (json_Signal s)) = Inr (filled signal_tags ms Map.empty)"
    using assms tags_valid(1) tags_distinct(1) unfolding ms
    by (intro Decode_marshal) (simp_all add: list_all_iff Signal_wire_def ms signal_tags_def del: marshal.simps)
  have "signal_of (filled signal_tags ms Map.empty) = s"
    using assms ms by (auto simp: filled_def signal_of_def signal_tags_def json_Signal_def str_field_def int_field_def
        Signal_wire_def int64_def small_def Signal_text_def Signal_elems_def elem_ok_def)
  with d show thesis by (rule that)
qed

lemma read_share:
  assumes "Share_wire h"
  shows "decode_code (b64_encode (marshal (json_Share h))) = Inr h"
proof -
  obtain ms where ms: "json_Share h = VObj ms" by (simp add: json_Share_def)
  have "struct_of share_tags ms"
    using assms ms by (auto simp: struct_of_def share_tags_def json_Share_def Share_wire_def int64_def small_def)
  then have d: "Decode share_tags (marshal (json_Share h)) = Inr (filled share_tags ms Map.empty)"
    using assms tags_valid(2) tags_distinct(2) unfolding ms
    by (intro Decode_marshal) (simp_all add: list_all_iff Share_wire_def ms share_tags_def del: marshal.simps)
  have "share_of (filled share_tags ms Map.empty) = h"
    using assms ms by (auto simp: filled_def share_of_def share_tags_def json_Share_def str_field_def int_field_def
        Share_wire_def int64_def small_def)
  with d show ?thesis by (simp add: decode_code_def b64.dec_enc del: marshal.simps)
qed

end
