(* ===== verification/WireProperties.thy ===== *)
theory WireProperties
  imports SessionRuns Messages
begin

text \<open>
  The properties of the wire formats: the strict JSON decoder, what is signed, and the codecs.
\<close>

section \<open>The strict decoder\<close>



text \<open>C29: the scan for duplicate keys ends on every input: a fuel of one more than the bytes left is
  enough for the members of every container.\<close>

theorem uniqueValue_terminates: "uniqueValue dec \<noteq> Inl No_fuel"
  by (rule uniqueValue_total)

text \<open>The scan compares keys byte by byte, but the decoder that fills the structure matches
  them without regard to case: an object that gives a field twice, the second time in capitals, is
  accepted, and the second value wins.\<close>

definition twice_given :: bytes where
  "twice_given = CHR ''{'' # quote # ''sdp'' @ [quote, CHR '':'', quote, CHR ''x'', quote, CHR '','']
     @ quote # ''SDP'' @ [quote, CHR '':'', quote, CHR ''y'', quote, CHR ''}'']"

theorem duplicate_in_another_case_is_accepted: "decodeSDP twice_given = Inr ''y''"
  by code_simp

text \<open>An object cut off before its closing brace is refused with the raw error of the JSON
  library, which has no code of the protocol, while every other syntax error is reported as
  invalid JSON.\<close>

theorem truncated_object_gives_a_raw_error:
  "decodeSDP ''{'' = Inl Lib_error \<and> decodeSDP ''{x'' = Inl (P2p ''p2p.invalid_json'') \<and> decodeSDP ''x'' = Inl (P2p ''p2p.invalid_json'')"
  by code_simp

section \<open>What is signed\<close>

text \<open>C30: a signal signed with a device's key passes the server's verification under its public key,
  whenever it is well formed, in scope, in sequence and not expired.\<close>

theorem signed_signal_verifies:
  assumes "sound_crypto C" "validatePayload s = Inr ()"
    "sig_Version s = Version" "sig_Generation s \<noteq> 0" "safe_integer (sig_Generation s)"
    "sig_Sequence s \<noteq> 0" "safe_integer (sig_Sequence s)"
    "list_all ValidID [sig_MessageID s, sig_AttemptID s, sig_FromDeviceID s, sig_ToDeviceID s, sig_PairID s]"
    "sig_FromDeviceID s \<noteq> sig_ToDeviceID s"
    "scope = \<lparr>sc_AttemptID = sig_AttemptID s, sc_FromDeviceID = sig_FromDeviceID s, sc_ToDeviceID = sig_ToDeviceID s,
       sc_PairID = sig_PairID s, sc_Generation = sig_Generation s, sc_NextSequence = sig_Sequence s\<rparr>"
    "unix now < sig_ExpiresAt s" "sig_ExpiresAt s \<le> unix now + 60"
  shows "Signal_Verify C (Sign C key s) (ed_public C key) scope now = Inr ()"
proof -
  have bytes: "Signal_SigningBytes (s\<lparr>sig_Signature := x\<rparr>) = Signal_SigningBytes s" for x
    by (simp add: Signal_SigningBytes_def Signal_elems_def)
  have payload: "validatePayload (s\<lparr>sig_Signature := x\<rparr>) = Inr ()" for x
    using assms(2) by (simp add: validatePayload_def cong: option.case_cong sum.case_cong if_cong)
  have "unix (now + 60 * second) = unix now + 60" by (rule unix_add_second)
  with assms show ?thesis
    by (simp add: Signal_Verify_def Sign_def bytes payload b64_roundtrip sound_crypto_def)
qed

theorem signed_signal_verifies_witness:
  "Signal_Verify plain_crypto offer1 (sized ''device1'') \<lparr>sc_AttemptID = NewID ''AAAAAA'', sc_FromDeviceID = dev1,
     sc_ToDeviceID = dev2, sc_PairID = dev2, sc_Generation = 1, sc_NextSequence = 1\<rparr> clock0 = Inr ()"
proof -
  let ?s = "\<lparr>sig_Version = 1, sig_Type = ''offer'', sig_MessageID = NewID ''MMMMMM'', sig_AttemptID = NewID ''AAAAAA'',
      sig_Generation = 1, sig_FromDeviceID = dev1, sig_ToDeviceID = dev2, sig_PairID = dev2, sig_Sequence = 1,
      sig_ExpiresAt = 1030, sig_Payload = b64_encode offer_payload, sig_Signature = []\<rparr>"
  have "validatePayload ?s = Inr ()" by code_simp
  moreover have "list_all ValidID [NewID ''MMMMMM'', NewID ''AAAAAA'', dev1, dev2, dev2]" "dev1 \<noteq> dev2" by code_simp+
  moreover have "ed_public plain_crypto ''device1'' = sized ''device1''" by (simp add: plain_crypto_def)
  ultimately show ?thesis
    using signed_signal_verifies [OF plain_crypto_sound, of ?s _ clock0 "''device1''"]
    by (simp add: offer1_def Version_def safe_integer_def clock0_def time_defs unix_def)
qed

text \<open>C31: the signed bytes determine what is signed: two signals (leases) whose texts are valid UTF-8
  and whose signing bytes agree are the same signal (lease), their signatures apart.\<close>

theorem signing_bytes_determine_the_message:
  "\<forall>s t l k. (Signal_text s \<longrightarrow> Signal_text t \<longrightarrow> Signal_SigningBytes s = Signal_SigningBytes t \<longrightarrow>
        s\<lparr>sig_Signature := []\<rparr> = t\<lparr>sig_Signature := []\<rparr>)
     \<and> (Lease_text l \<longrightarrow> Lease_text k \<longrightarrow> Lease_SigningBytes l = Lease_SigningBytes k \<longrightarrow>
        l\<lparr>lse_Signature := []\<rparr> = k\<lparr>lse_Signature := []\<rparr>)"
  by (intro allI conjI impI) (rule Signal_bytes_inj, assumption+, rule Lease_bytes_inj, assumption+)

theorem signing_bytes_determine_the_message_witness:
  "Lease_SigningBytes (lease1\<lparr>lse_Generation := 2\<rparr>) \<noteq> Lease_SigningBytes lease1"
proof
  assume "Lease_SigningBytes (lease1\<lparr>lse_Generation := 2\<rparr>) = Lease_SigningBytes lease1"
  moreover have "Lease_text (lease1\<lparr>lse_Generation := 2\<rparr>)" "Lease_text lease1" by code_simp+
  ultimately have "lease1\<lparr>lse_Generation := 2\<rparr>\<lparr>lse_Signature := []\<rparr> = lease1\<lparr>lse_Signature := []\<rparr>"
    using signing_bytes_determine_the_message by blast
  then have "lse_Generation (lease1\<lparr>lse_Generation := 2\<rparr>\<lparr>lse_Signature := []\<rparr>) = lse_Generation lease1" by simp
  moreover have "lse_Generation lease1 = 1" by code_simp
  ultimately show False by simp
qed

text \<open>C32: a signature made for one kind of message is never one for another: the signing bytes of
  signals, leases, shares and enrolment queries are always different.\<close>

theorem signatures_do_not_cross:
  "Signal_SigningBytes s \<noteq> Lease_SigningBytes l \<and> Signal_SigningBytes s \<noteq> Share_SigningBytes h
   \<and> Lease_SigningBytes l \<noteq> Share_SigningBytes h \<and> EnrollmentQuery_SigningBytes q \<noteq> Signal_SigningBytes s
   \<and> EnrollmentQuery_SigningBytes q \<noteq> Lease_SigningBytes l \<and> EnrollmentQuery_SigningBytes q \<noteq> Share_SigningBytes h"
proof -
  have head: "marshal_array (EStr a # es) \<noteq> marshal_array (EStr b # gs)"
    if "valid_utf8 a" "valid_utf8 b" "a \<noteq> b" for a b es gs
    using escape_split [OF that(1,2)] that(3) by (auto simp: marshal_array_def)
  have utf: "valid_utf8 ''dshker.signal.v1''" "valid_utf8 ''dshker.lease.v1''" "valid_utf8 ''dshker.pair-share.v1''"
    by code_simp+
  have bracket: "EnrollmentQuery_SigningBytes q \<noteq> marshal_array (e # es)" for e es
    by (simp add: EnrollmentQuery_SigningBytes_def marshal_array_def)
  show ?thesis
    unfolding Signal_SigningBytes_def Lease_SigningBytes_def Share_SigningBytes_def Signal_elems_def Lease_elems_def Share_elems_def
    using head utf bracket by auto
qed

section \<open>Messages on the wire\<close>

text \<open>C28: what one side marshals the strict decoder of the other reads as it was: a signal whose texts are
  valid UTF-8, whose integers fit their fields and whose text is within the limit, and a share in its
  pairing code.\<close>

theorem wire_messages_round_trip:
  assumes "Signal_wire s" "Share_wire h"
  shows "(\<exists>m. Decode signal_tags (marshal (json_Signal s)) = Inr m \<and> signal_of m = s)
    \<and> decode_code (b64_encode (marshal (json_Share h))) = Inr h"
  using read_signal [OF assms(1)] read_share [OF assms(2)] by metis

theorem wire_messages_round_trip_witness:
  "decode_code (b64_encode (marshal (json_Share share2))) = Inr share2"
proof -
  have "list_all valid_utf8 [sh_ServiceID share2, sh_NetworkID share2, sh_DeviceID share2, sh_Fingerprint share2, sh_Nonce share2,
      sh_Signature share2]" by code_simp
  moreover have "sh_Version share2 = 1 \<and> sh_ExpiresAt share2 = 1300" by code_simp
  moreover have "\<not> over_limit (marshal (json_Share share2))" by code_simp
  ultimately have h: "Share_wire share2" by (simp add: Share_wire_def int64_def)
  have "Signal_text offer1" "valid_utf8 (sig_Signature offer1)" "\<not> over_limit (marshal (json_Signal offer1))" by code_simp+
  moreover have "sig_Version offer1 = 1 \<and> sig_ExpiresAt offer1 = 1030 \<and> sig_Generation offer1 = 1 \<and> sig_Sequence offer1 = 1" by code_simp
  ultimately have "Signal_wire offer1" by (simp add: Signal_wire_def int64_def)
  from wire_messages_round_trip [OF this h] show ?thesis by blast
qed

section \<open>Codecs\<close>

text \<open>Every byte string survives hexadecimal and unpadded base64, and every integer its decimal
  text.\<close>

theorem codecs_round_trip:
  "hex_decode (hex_encode b) = Some b \<and> b64_decode (b64_encode b) = Some b \<and> read_decimal (itoa i) = Some i"
  by (simp add: hex.dec_enc b64.dec_enc decimal.dec_enc)

end
