(* ===== verification/Limiter.thy ===== *)
theory Limiter
  imports Prelude "HOL-Library.AList"
begin

text \<open>
  The request budget of the STUN service (\<open>limiter\<close> of \<open>internal/coordinator/stun.go\<close>) and what it
  guarantees over a run: a counter is reset when its second is over, so a source can be served
  twice its budget in a second that overlaps two counters, and never more.
\<close>

section \<open>The program\<close>

record sourceBudget =
  bg_at :: time
  bg_count :: nat

record limiter =
  lim_sources :: "(string \<times> sourceBudget) list"
  lim_global :: sourceBudget

definition zero_budget :: sourceBudget where
  "zero_budget = \<lparr>bg_at = zero_time, bg_count = 0\<rparr>"

definition newLimiter :: limiter where
  "newLimiter = \<lparr>lim_sources = [], lim_global = zero_budget\<rparr>"

text \<open>\<open>if !value.at.Add(time.Second).After(now) { value = sourceBudget{at: now} }\<close>.\<close>

definition refresh :: "time \<Rightarrow> sourceBudget \<Rightarrow> sourceBudget" where
  "refresh now value = (if \<not> after (bg_at value + second) now then \<lparr>bg_at = now, bg_count = 0\<rparr> else value)"

definition prune :: "time \<Rightarrow> (string \<times> sourceBudget) list \<Rightarrow> (string \<times> sourceBudget) list" where
  "prune now = filter (\<lambda>(key, value). after (bg_at value + minute) now)"

definition spend :: "sourceBudget \<Rightarrow> sourceBudget" where
  "spend value = value\<lparr>bg_count := bg_count value + 1\<rparr>"

definition allow :: "limiter \<Rightarrow> string \<Rightarrow> time \<Rightarrow> limiter \<times> bool" where
  "allow budget source now =
     (let global = refresh now (lim_global budget) in
      if 1000 \<le> bg_count global then (budget\<lparr>lim_global := global\<rparr>, False)
      else
        let sources = prune now (lim_sources budget);
            budget1 = \<lparr>lim_sources = sources, lim_global = global\<rparr> in
        if map_of sources source = None \<and> 1024 \<le> length sources then (budget1, False)
        else
          let value = refresh now (case map_of sources source of None \<Rightarrow> zero_budget | Some v \<Rightarrow> v) in
          if 20 \<le> bg_count value then (budget1, False)
          else (\<lparr>lim_sources = AList.update source (spend value) sources, lim_global = spend global\<rparr>, True))"

text \<open>A run of the serving loop: the requests that were allowed, in order.\<close>

fun allowed :: "limiter \<Rightarrow> (string \<times> time) list \<Rightarrow> (string \<times> time) list" where
  "allowed budget [] = []"
| "allowed budget ((source, now) # rest) =
     (case allow budget source now of
        (budget', ok) \<Rightarrow> (if ok then [(source, now)] else []) @ allowed budget' rest)"

section \<open>The invariant\<close>

definition lim_inv :: "limiter \<Rightarrow> bool" where
  "lim_inv b \<longleftrightarrow> distinct (map fst (lim_sources b)) \<and> length (lim_sources b) \<le> 1024
     \<and> (\<forall>(k, v) \<in> set (lim_sources b). bg_count v \<le> 20) \<and> bg_count (lim_global b) \<le> 1000"

lemma newLimiter_inv: "lim_inv newLimiter"
  by (simp add: lim_inv_def newLimiter_def zero_budget_def)

lemma length_update_le:
  "map_of xs k \<noteq> None \<Longrightarrow> length (AList.update k v xs) = length xs"
  "length (AList.update k v xs) \<le> Suc (length xs)"
  by (induction xs) auto

lemma set_update_sub: "set (AList.update k v xs) \<subseteq> insert (k, v) (set xs)"
  by (induction xs) auto

lemma prune_sub: "set (prune now xs) \<subseteq> set xs" "length (prune now xs) \<le> length xs"
  "distinct (map fst xs) \<Longrightarrow> distinct (map fst (prune now xs))"
  by (auto simp: prune_def distinct_map_filter)

lemma map_of_prune:
  "distinct (map fst xs) \<Longrightarrow> map_of (prune now xs) k = (case map_of xs k of
     None \<Rightarrow> None | Some v \<Rightarrow> if after (bg_at v + minute) now then Some v else None)"
proof (induction xs)
  case (Cons x xs)
  have "map_of xs (fst x) = None" using Cons.prems by (simp add: map_of_eq_None_iff)
  then show ?case using Cons by (cases x) (auto simp: prune_def split: option.splits)
qed (simp add: prune_def)

text \<open>The outcomes of one request.\<close>

lemma allow_cases:
  obtains (full) "1000 \<le> bg_count (refresh now (lim_global b))"
      "allow b src now = (b\<lparr>lim_global := refresh now (lim_global b)\<rparr>, False)"
  | (refused) "allow b src now = (\<lparr>lim_sources = prune now (lim_sources b), lim_global = refresh now (lim_global b)\<rparr>, False)"
      "bg_count (refresh now (lim_global b)) < 1000"
  | (served) v where "v = refresh now (case map_of (prune now (lim_sources b)) src of None \<Rightarrow> zero_budget | Some v \<Rightarrow> v)"
      "bg_count v < 20" "bg_count (refresh now (lim_global b)) < 1000"
      "map_of (prune now (lim_sources b)) src \<noteq> None \<or> length (prune now (lim_sources b)) < 1024"
      "allow b src now = (\<lparr>lim_sources = AList.update src (spend v) (prune now (lim_sources b)),
                           lim_global = spend (refresh now (lim_global b))\<rparr>, True)"
proof -
  let ?g = "refresh now (lim_global b)" and ?s = "prune now (lim_sources b)"
  let ?v = "refresh now (case map_of ?s src of None \<Rightarrow> zero_budget | Some v \<Rightarrow> v)"
  consider "1000 \<le> bg_count ?g" | "bg_count ?g < 1000" "map_of ?s src = None \<and> 1024 \<le> length ?s \<or> 20 \<le> bg_count ?v"
    | "bg_count ?g < 1000" "map_of ?s src \<noteq> None \<or> length ?s < 1024" "bg_count ?v < 20"
    by linarith
  then show thesis
  proof cases
    case 1
    then show thesis by (intro full) (simp_all add: allow_def Let_def)
  next
    case 2
    then show thesis by (intro refused) (auto simp: allow_def Let_def)
  next
    case 3
    then show thesis by (intro served [OF refl]) (auto simp: allow_def Let_def)
  qed
qed

lemma refresh_count: "bg_count (refresh now v) \<le> bg_count v"
  by (simp add: refresh_def)

lemma allow_inv:
  assumes "lim_inv b"
  shows "lim_inv (fst (allow b src now))"
proof (cases rule: allow_cases [where now = now and b = b and src = src])
  case full
  then show ?thesis using assms refresh_count [of now "lim_global b"] by (simp add: lim_inv_def)
next
  case refused
  then show ?thesis using assms prune_sub(1,2) [of now "lim_sources b"] prune_sub(3) [of "lim_sources b" now]
    by (auto simp: lim_inv_def)
next
  case (served v)
  let ?p = "prune now (lim_sources b)"
  have "length (AList.update src (spend v) ?p) \<le> 1024"
    using served(4) length_update_le(1) [of ?p src "spend v"] length_update_le(2) [of src "spend v" ?p] prune_sub(2) [of now "lim_sources b"] assms
    by (cases "map_of ?p src") (auto simp: lim_inv_def)
  moreover have "\<forall>(k, w) \<in> set (AList.update src (spend v) ?p). bg_count w \<le> 20"
    using set_update_sub [of src "spend v" ?p] prune_sub(1) [of now "lim_sources b"] assms served(2)
    by (fastforce simp: lim_inv_def spend_def)
  ultimately show ?thesis
    using served assms prune_sub(3) [of "lim_sources b" now]
    by (simp add: lim_inv_def distinct_update spend_def)
qed

section \<open>How much is served in a second\<close>

text \<open>One counter, as the requests to one source or all of them see it: \<open>None\<close> when there is none.
  A step is a request at \<open>now\<close>; \<open>ok\<close> says whether it was served from this counter.\<close>

definition counter_step :: "nat \<Rightarrow> sourceBudget option \<Rightarrow> time \<Rightarrow> bool \<Rightarrow> sourceBudget option \<Rightarrow> bool" where
  "counter_step L b now ok b' \<longleftrightarrow>
     (ok \<and> (\<exists>v. v = refresh now (case b of None \<Rightarrow> zero_budget | Some v \<Rightarrow> v) \<and> bg_count v < L \<and> b' = Some (spend v)))
     \<or> (\<not> ok \<and> (b' = b \<or> (\<exists>v. b = Some v \<and> b' = Some (refresh now v))
              \<or> (\<exists>v. b = Some v \<and> \<not> after (bg_at v + minute) now \<and> b' = None)))"

text \<open>What holds of a counter after a request at \<open>prev\<close>, when \<open>c\<close> requests have been served from it
  in the second that starts at \<open>t\<close>.\<close>

definition window_inv :: "nat \<Rightarrow> time \<Rightarrow> sourceBudget option \<Rightarrow> time \<Rightarrow> nat \<Rightarrow> bool" where
  "window_inv L t b prev c \<longleftrightarrow> c \<le> 2 * L \<and> (prev < t \<longrightarrow> c = 0)
     \<and> (case b of
          None \<Rightarrow> prev < t + second \<longrightarrow> c = 0
        | Some v \<Rightarrow> bg_count v \<le> L \<and> (prev < t + second \<longrightarrow>
            (if bg_at v < t then c \<le> bg_count v \<and> (0 < c \<longrightarrow> t < bg_at v + second) else c \<le> L + bg_count v)))"

definition in_window :: "time \<Rightarrow> time \<Rightarrow> bool" where
  "in_window t x \<longleftrightarrow> t \<le> x \<and> x < t + second"

lemma window_step:
  assumes "window_inv L t b prev c" "prev \<le> now" "counter_step L b now ok b'" "zero_time + second \<le> now"
  shows "window_inv L t b' now (if ok \<and> in_window t now then Suc c else c)"
proof -
  have s: "0 < second" "2 * second < minute" by (simp_all add: time_defs)
  show ?thesis
    using assms s
    by (cases b; cases ok)
      (auto simp: window_inv_def counter_step_def in_window_def refresh_def spend_def after_def zero_budget_def
        split: if_splits)
qed

text \<open>A request as the counter of a source sees it, and as the global counter does.\<close>

lemma allow_source_step:
  assumes "lim_inv b" "allow b src now = (b', ok)" "zero_time + second \<le> now"
  shows "counter_step 20 (map_of (lim_sources b) x) now (ok \<and> src = x) (map_of (lim_sources b') x)"
proof -
  have pr: "map_of (prune now (lim_sources b)) k = (case map_of (lim_sources b) k of
     None \<Rightarrow> None | Some v \<Rightarrow> if after (bg_at v + minute) now then Some v else None)" for k
    using assms(1) by (intro map_of_prune) (simp add: lim_inv_def)
  show ?thesis
  proof (cases rule: allow_cases [where now = now and b = b and src = src])
    case full
    then show ?thesis using assms(2) by (auto simp: counter_step_def)
  next
    case refused
    then show ?thesis using assms(2) pr [of x] by (auto simp: counter_step_def split: option.splits)
  next
    case (served v)
    show ?thesis
    proof (cases "src = x")
      case False
      then show ?thesis using assms(2) served(5) pr [of x]
        by (auto simp: counter_step_def update_conv' split: option.splits)
    next
      case True
      have "v = refresh now (case map_of (lim_sources b) x of None \<Rightarrow> zero_budget | Some v \<Rightarrow> v)"
        using served(1) pr [of x] True assms(3)
        by (auto simp: refresh_def zero_budget_def time_defs split: option.splits if_splits)
      then show ?thesis using assms(2) served True by (auto simp: counter_step_def update_conv')
    qed
  qed
qed

lemma allow_global_step:
  assumes "allow b src now = (b', ok)"
  shows "counter_step 1000 (Some (lim_global b)) now ok (Some (lim_global b'))"
  using assms by (cases rule: allow_cases [where now = now and b = b and src = src]) (auto simp: counter_step_def)

text \<open>Over a run with a clock that does not go back.\<close>

definition served_in :: "time \<Rightarrow> (string \<times> time) list \<Rightarrow> nat" where
  "served_in t reqs = length (filter (\<lambda>(_, x). in_window t x) reqs)"

fun clocked :: "time \<Rightarrow> (string \<times> time) list \<Rightarrow> bool" where
  "clocked prev [] = True"
| "clocked prev ((_, now) # rest) = (prev \<le> now \<and> clocked now rest)"

lemma run_source_bound:
  "lim_inv b \<Longrightarrow> window_inv 20 t (map_of (lim_sources b) x) prev c \<Longrightarrow> clocked prev reqs \<Longrightarrow>
   zero_time + second \<le> prev \<Longrightarrow>
   c + served_in t (filter (\<lambda>r. fst r = x) (allowed b reqs)) \<le> 40"
proof (induction reqs arbitrary: b prev c)
  case Nil
  then show ?case by (simp add: served_in_def window_inv_def)
next
  case (Cons r reqs)
  obtain src now where r: "r = (src, now)" by fastforce
  obtain b' ok where a: "allow b src now = (b', ok)" by fastforce
  let ?c = "if (ok \<and> src = x) \<and> in_window t now then Suc c else c"
  have "window_inv 20 t (map_of (lim_sources b') x) now ?c"
    using window_step [OF Cons.prems(2) _ allow_source_step [OF Cons.prems(1) a]] Cons.prems(3,4) r by auto
  moreover have "lim_inv b'" using allow_inv [OF Cons.prems(1)] a by (metis fst_conv)
  ultimately have "?c + served_in t (filter (\<lambda>r. fst r = x) (allowed b' reqs)) \<le> 40"
    using Cons.prems(3,4) r by (intro Cons.IH [where prev = now]) auto
  then show ?case by (auto simp: r a served_in_def split: if_splits)
qed

lemma run_global_bound:
  "window_inv 1000 t (Some (lim_global b)) prev c \<Longrightarrow> clocked prev reqs \<Longrightarrow>
   zero_time + second \<le> prev \<Longrightarrow> c + served_in t (allowed b reqs) \<le> 2000"
proof (induction reqs arbitrary: b prev c)
  case Nil
  then show ?case by (simp add: served_in_def window_inv_def)
next
  case (Cons r reqs)
  obtain src now where r: "r = (src, now)" by fastforce
  obtain b' ok where a: "allow b src now = (b', ok)" by fastforce
  let ?c = "if ok \<and> in_window t now then Suc c else c"
  have "window_inv 1000 t (Some (lim_global b')) now ?c"
    using window_step [OF Cons.prems(1) _ allow_global_step [OF a]] Cons.prems(2,3) r by simp
  then have "?c + served_in t (allowed b' reqs) \<le> 2000"
    using Cons.prems(2,3) r by (intro Cons.IH [where prev = now]) auto
  then show ?case by (auto simp: r a served_in_def split: if_splits)
qed

lemma new_window_inv:
  "window_inv 20 t (map_of (lim_sources newLimiter) x) prev 0"
  "window_inv 1000 t (Some (lim_global newLimiter)) prev 0"
  by (simp_all add: window_inv_def newLimiter_def zero_budget_def)

end
