(* ===== verification/Relay.thy ===== *)
theory Relay
  imports Prelude
begin

text \<open>
  The relay's configuration, its credentials and its allocator of UDP ports
  (\<open>internal/coordinator/turn.go\<close>).  Whether the operating system lets a port be bound is the
  parameter \<open>bindable\<close>, constant during one allocation; the clock reading that picks the first
  port is an argument, and the credential generator of \<open>pion/turn\<close> a parameter.
\<close>

record TurnRelay =
  rl_SharedSecret :: string
  rl_ControlAddress :: string
  rl_PublicIP :: "bytes option"
  rl_MinPort :: int
  rl_MaxPort :: int

definition Enabled :: "TurnRelay \<Rightarrow> bool" where
  "Enabled relay \<longleftrightarrow> rl_SharedSecret relay \<noteq> []"

definition TurnCredentials ::
  "(string \<Rightarrow> string \<Rightarrow> time \<Rightarrow> err + string \<times> string) \<Rightarrow> string \<Rightarrow> string \<Rightarrow> err + string \<times> string" where
  "TurnCredentials generate sharedSecret deviceID =
     (if length sharedSecret < 32 then Inl (P2p ''p2p.relay_unconfigured'')
      else generate sharedSecret deviceID (24 * hour))"

text \<open>Which generator of relay addresses \<open>ServeTURN\<close> starts with.\<close>

record portRangeAllocator =
  pa_RelayAddress :: "bytes option"
  pa_MinPort :: int
  pa_MaxPort :: int

datatype generator = PortRange portRangeAllocator | Static "bytes option" string

definition newPortRangeAllocator :: "bytes option \<Rightarrow> int \<Rightarrow> int \<Rightarrow> portRangeAllocator" where
  "newPortRangeAllocator publicIP minPort maxPort =
     \<lparr>pa_RelayAddress = publicIP, pa_MinPort = minPort, pa_MaxPort = maxPort\<rparr>"

definition ServeTURN_generator :: "TurnRelay \<Rightarrow> err + generator" where
  "ServeTURN_generator relay =
     (if \<not> Enabled relay then Inl (P2p ''p2p.relay_unconfigured'')
      else if 0 < rl_MinPort relay \<and> rl_MinPort relay \<le> rl_MaxPort relay
      then Inr (PortRange (newPortRangeAllocator (rl_PublicIP relay) (rl_MinPort relay) (rl_MaxPort relay)))
      else Inr (Static (rl_PublicIP relay) ''0.0.0.0''))"

definition allocator_Validate :: "portRangeAllocator \<Rightarrow> err + unit" where
  "allocator_Validate g =
     (if pa_RelayAddress g = None then Inl (P2p ''p2p.invalid_relay_public_ip'')
      else if pa_MinPort g < 1 \<or> 65535 < pa_MaxPort g \<or> pa_MaxPort g < pa_MinPort g
      then Inl (P2p ''p2p.invalid_relay_port_range'')
      else Inr ())"

text \<open>\<open>bindOne\<close>: the address of the socket is the public one with the port that was bound.\<close>

definition bindOne :: "(int \<Rightarrow> bool) \<Rightarrow> portRangeAllocator \<Rightarrow> int \<Rightarrow> (bytes option \<times> int) option" where
  "bindOne bindable g port = (if bindable port then Some (pa_RelayAddress g, port) else None)"

text \<open>The loop over the range, from \<open>offset\<close> on; \<open>left\<close> is \<open>span - offset\<close>.\<close>

fun probe :: "(int \<Rightarrow> bool) \<Rightarrow> portRangeAllocator \<Rightarrow> int \<Rightarrow> int \<Rightarrow> int \<Rightarrow> nat \<Rightarrow> (bytes option \<times> int) option" where
  "probe bindable g span start offset 0 = None"
| "probe bindable g span start offset (Suc left) =
     (case bindOne bindable g (pa_MinPort g + (start + offset) mod span) of
        Some r \<Rightarrow> Some r
      | None \<Rightarrow> probe bindable g span start (offset + 1) left)"

definition AllocatePacketConn ::
  "(int \<Rightarrow> bool) \<Rightarrow> int \<Rightarrow> portRangeAllocator \<Rightarrow> int \<Rightarrow> err + bytes option \<times> int" where
  "AllocatePacketConn bindable nanosecond g requestedPort =
     (case (if pa_MinPort g \<le> requestedPort \<and> requestedPort \<le> pa_MaxPort g then bindOne bindable g requestedPort else None) of
        Some r \<Rightarrow> Inr r
      | None \<Rightarrow>
          (let span = pa_MaxPort g - pa_MinPort g + 1; start = nanosecond mod span in
           case probe bindable g span start 0 (nat span) of
             Some r \<Rightarrow> Inr r
           | None \<Rightarrow> Inl (P2p ''p2p.relay_port_exhausted'')))"

definition AllocateListener :: "err + unit" where
  "AllocateListener = Inl (P2p ''p2p.invalid_relay_network'')"

definition AllocateConn :: "err + unit" where
  "AllocateConn = Inl (P2p ''p2p.invalid_relay_network'')"

section \<open>The walk covers the range\<close>

lemma probe_Some:
  "probe bindable g span start offset n = Some (a, p) \<Longrightarrow>
   a = pa_RelayAddress g \<and> bindable p \<and> (\<exists>k. p = pa_MinPort g + (start + k) mod span)"
  by (induction n arbitrary: offset) (auto simp: bindOne_def split: if_splits option.splits)

lemma probe_None:
  "probe bindable g span start offset n = None \<longleftrightarrow>
   (\<forall>k < n. \<not> bindable (pa_MinPort g + (start + offset + int k) mod span))"
proof (induction n arbitrary: offset)
  case (Suc n)
  have "(\<forall>k < Suc n. \<not> bindable (pa_MinPort g + (start + offset + int k) mod span)) \<longleftrightarrow>
      \<not> bindable (pa_MinPort g + (start + offset) mod span)
      \<and> (\<forall>k < n. \<not> bindable (pa_MinPort g + (start + (offset + 1) + int k) mod span))"
    by (simp add: All_less_Suc2 add_ac)
  then show ?case using Suc.IH [of "offset + 1"] by (simp add: bindOne_def)
qed simp

text \<open>Every port of the range is some offset away from the first one tried.\<close>

lemma offset_reaches:
  fixes lo p start span :: int
  assumes "0 < span" "lo \<le> p" "p < lo + span"
  shows "\<exists>k < nat span. p = lo + (start + int k) mod span"
proof -
  let ?k = "nat ((p - lo - start) mod span)"
  have k: "int ?k = (p - lo - start) mod span" using assms(1) by simp
  then have "?k < nat span" using assms(1) by (simp add: zless_nat_eq_int_zless)
  moreover have "(start + int ?k) mod span = p - lo"
    unfolding k using assms by (simp add: mod_add_right_eq mod_pos_pos_trivial)
  ultimately show ?thesis by (intro exI [of _ ?k]) simp
qed

lemma probe_all:
  assumes "pa_MinPort g \<le> pa_MaxPort g" "span = pa_MaxPort g - pa_MinPort g + 1"
    and "pa_MinPort g \<le> p" "p \<le> pa_MaxPort g" "bindable p"
  shows "probe bindable g span start 0 (nat span) \<noteq> None"
  using offset_reaches [of span "pa_MinPort g" p start] assms by (auto simp: probe_None)

end
