(* ===== verification/Sockets.thy ===== *)
theory Sockets
  imports Limiter Relay "HOL-Library.Sublist"
begin

text \<open>
  The service of the UDP socket: \<open>ServeSTUN\<close> and \<open>stunResponse\<close> (\<open>internal/coordinator/stun.go\<close>) and the
  start of the relay (\<open>ServeTURN\<close> of \<open>turn.go\<close>).  Decoding and building a STUN message is the library's.
\<close>

section \<open>STUN\<close>

text \<open>A decoded message: whether it is a Binding request, and the length its header gives.\<close>

record stun_message =
  sm_binding :: bool
  sm_length :: nat

record stun_lib =
  stun_decode :: "bytes \<Rightarrow> stun_message option"
  stun_build :: "bytes \<Rightarrow> string \<Rightarrow> nat \<Rightarrow> bytes option"

definition stunResponse :: "stun_lib \<Rightarrow> bytes \<Rightarrow> string \<Rightarrow> nat \<Rightarrow> err + bytes" where
  "stunResponse L data ip port =
     (case stun_decode L data of
        None \<Rightarrow> Inl (P2p ''p2p.invalid_stun_binding'')
      | Some message \<Rightarrow>
          if \<not> sm_binding message \<or> sm_length message + 20 \<noteq> length data then Inl (P2p ''p2p.invalid_stun_binding'')
          else (case stun_build L data ip port of None \<Rightarrow> Inl Lib_error | Some response \<Rightarrow> Inr response))"

text \<open>What the socket does: a packet arrives (and an answer to it can be sent or not), or reading fails, because
  the context was cancelled or for another reason.\<close>

record packet =
  pk_ip :: string
  pk_port :: nat
  pk_data :: bytes
  pk_now :: time

datatype udp_event = Received packet bool | Read_failed bool

text \<open>The buffer has 1025 bytes: a longer packet is cut, and refused.\<close>

definition buffered :: "packet \<Rightarrow> bytes" where
  "buffered p = take 1025 (pk_data p)"

definition well_sized :: "packet \<Rightarrow> bool" where
  "well_sized p \<longleftrightarrow> \<not> (length (buffered p) < 20 \<or> 1024 < length (buffered p))"

text \<open>The loop from a budget on: the answers it sends, each with its packet, and the result if it ends.\<close>

fun serve_packets :: "stun_lib \<Rightarrow> limiter \<Rightarrow> udp_event list \<Rightarrow> (packet \<times> bytes) list \<times> (err + unit) option" where
  "serve_packets L budget [] = ([], None)"
| "serve_packets L budget (Read_failed cancelled # events) = ([], Some (if cancelled then Inr () else Inl Lib_error))"
| "serve_packets L budget (Received p sent # events) =
     (if \<not> well_sized p then serve_packets L budget events
      else (case allow budget (pk_ip p) (pk_now p) of
         (budget', ok) \<Rightarrow>
           if \<not> ok then serve_packets L budget' events
           else (case stunResponse L (buffered p) (pk_ip p) (pk_port p) of
              Inl _ \<Rightarrow> serve_packets L budget' events
            | Inr response \<Rightarrow>
                if \<not> sent then ([], Some (Inl Lib_error))
                else (case serve_packets L budget' events of (answers, r) \<Rightarrow> ((p, response) # answers, r)))))"

definition ServeSTUN :: "stun_lib \<Rightarrow> udp_event list \<Rightarrow> (packet \<times> bytes) list \<times> (err + unit) option" where
  "ServeSTUN L events = serve_packets L newLimiter events"

section \<open>The relay\<close>

definition relayRealm :: string where
  "relayRealm = ''dshker''"

record turn_config =
  tc_realm :: string
  tc_secret :: string
  tc_debug :: bool
  tc_generator :: generator

text \<open>\<open>start\<close> is the library's \<open>turn.NewServer\<close>, \<open>closing\<close> the result of closing its server once the context is
  cancelled.\<close>

definition ServeTURN :: "TurnRelay \<Rightarrow> bool \<Rightarrow> (turn_config \<Rightarrow> err option) \<Rightarrow> err + unit \<Rightarrow> err + unit" where
  "ServeTURN relay debug start closing =
     (case ServeTURN_generator relay of
        Inl e \<Rightarrow> Inl e
      | Inr g \<Rightarrow> (case start \<lparr>tc_realm = relayRealm, tc_secret = rl_SharedSecret relay, tc_debug = debug, tc_generator = g\<rparr> of
           Some e \<Rightarrow> Inl e
         | None \<Rightarrow> closing))"

section \<open>Facts\<close>

text \<open>The requests the budget is asked about.\<close>

fun asked :: "udp_event list \<Rightarrow> (string \<times> time) list" where
  "asked [] = []"
| "asked (Read_failed _ # events) = asked events"
| "asked (Received p _ # events) = (if well_sized p then (pk_ip p, pk_now p) # asked events else asked events)"

lemma answers_allowed:
  "subseq (map (\<lambda>(p, _). (pk_ip p, pk_now p)) (fst (serve_packets L budget events))) (allowed budget (asked events))"
  by (induction L budget events rule: serve_packets.induct)
    (auto split: prod.splits sum.splits intro: subseq_Cons')

lemma answers_asked:
  "(p, response) \<in> set (fst (serve_packets L budget events)) \<Longrightarrow> Received p True \<in> set events \<and> well_sized p
     \<and> stunResponse L (buffered p) (pk_ip p) (pk_port p) = Inr response"
  by (induction L budget events rule: serve_packets.induct) (auto split: if_splits prod.splits sum.splits)

lemma served_in_subseq: "subseq xs ys \<Longrightarrow> served_in t xs \<le> served_in t ys"
  unfolding served_in_def by (rule list_emb_length) (rule subseq_filter)

end
