(* ===== verification/Hub.thy ===== *)
theory Hub
  imports Wire
begin

text \<open>
  The hub of signal sockets (\<open>signalHub\<close> of \<open>internal/coordinator/signaling.go\<close>): at most one
  peer for each device, each with a queue of at most 32 messages.  A message is the JSON text the
  hub was given (\<open>None\<close> when it could not be marshalled); the web socket library is outside the
  model, a peer that \<open>CloseNow\<close> was called on is marked closed.
\<close>

record signalPeer =
  peer_outgoing :: "bytes list"
  peer_closed :: bool

type_synonym hub = "(string \<times> signalPeer) list"

definition newSignalHub :: hub where
  "newSignalHub = []"

definition queueSize :: nat where
  "queueSize = 32"

definition hub_send :: "hub \<Rightarrow> string \<Rightarrow> bytes option \<Rightarrow> (err + unit) \<times> hub" where
  "hub_send hub i value =
     (case value of
        None \<Rightarrow> (Inl (P2p ''p2p.protocol_limit''), hub)
      | Some data \<Rightarrow>
          if over_limit data then (Inl (P2p ''p2p.protocol_limit''), hub)
          else case map_of hub i of
            None \<Rightarrow> (Inl (P2p ''p2p.peer_offline''), hub)
          | Some peer \<Rightarrow>
              if length (peer_outgoing peer) < queueSize
              then (Inr (), map (\<lambda>(j, p). (j, if j = i then p\<lparr>peer_outgoing := peer_outgoing p @ [data]\<rparr> else p)) hub)
              else (Inl (P2p ''p2p.signal_limit''), hub))"

definition hub_close_peer :: "hub \<Rightarrow> string \<Rightarrow> hub" where
  "hub_close_peer hub i = map (\<lambda>(j, p). (j, if j = i then p\<lparr>peer_closed := True\<rparr> else p)) hub"

text \<open>\<open>notifyPair\<close>: a peer that cannot be told is closed.\<close>

definition notifyOne :: "bytes option \<Rightarrow> hub \<Rightarrow> string \<Rightarrow> hub" where
  "notifyOne value hub i = (case hub_send hub i value of
     (Inl _, hub') \<Rightarrow> hub_close_peer hub' i | (Inr _, hub') \<Rightarrow> hub')"

definition notifyPair :: "hub \<Rightarrow> string \<Rightarrow> string \<Rightarrow> bytes option \<Rightarrow> hub" where
  "notifyPair hub initiator target value = notifyOne value (notifyOne value hub initiator) target"

definition hub_close :: "hub \<Rightarrow> hub" where
  "hub_close hub = map (\<lambda>(i, p). (i, p\<lparr>peer_closed := True\<rparr>)) hub"

text \<open>Registration in \<open>serveSignals\<close>, the writer goroutine taking a message, and the deferred clean-up.\<close>

definition hub_register :: "hub \<Rightarrow> string \<Rightarrow> (err + unit) \<times> hub" where
  "hub_register hub i =
     (if map_of hub i \<noteq> None then (Inl (P2p ''p2p.device_busy''), hub)
      else (Inr (), (i, \<lparr>peer_outgoing = [], peer_closed = False\<rparr>) # hub))"

definition hub_take :: "hub \<Rightarrow> string \<Rightarrow> bytes option \<times> hub" where
  "hub_take hub i = (case map_of hub i of
     None \<Rightarrow> (None, hub)
   | Some peer \<Rightarrow> (case peer_outgoing peer of
        [] \<Rightarrow> (None, hub)
      | data # rest \<Rightarrow> (Some data, map (\<lambda>(j, p). (j, if j = i then p\<lparr>peer_outgoing := rest\<rparr> else p)) hub)))"

definition hub_leave :: "hub \<Rightarrow> string \<Rightarrow> hub" where
  "hub_leave hub i = filter (\<lambda>(j, _). j \<noteq> i) hub"

section \<open>The hub as a step relation\<close>

datatype hub_event = Send string "bytes option" | Register string | Take string | Leave string | CloseAll
  | Notify string string "bytes option"

inductive hub_step :: "hub \<Rightarrow> hub_event \<Rightarrow> hub \<Rightarrow> bool" where
  send: "hub_step h (Send i v) (snd (hub_send h i v))"
| register: "hub_step h (Register i) (snd (hub_register h i))"
| take: "hub_step h (Take i) (snd (hub_take h i))"
| leave: "hub_step h (Leave i) (hub_leave h i)"
| close_all: "hub_step h CloseAll (hub_close h)"
| notify: "hub_step h (Notify a b v) (notifyPair h a b v)"

inductive_cases hub_stepE: "hub_step h e h'"

inductive hub_reach :: "hub \<Rightarrow> bool" where
  start: "hub_reach newSignalHub"
| more: "hub_reach h \<Longrightarrow> hub_step h e h' \<Longrightarrow> hub_reach h'"

definition hub_inv :: "hub \<Rightarrow> bool" where
  "hub_inv h \<longleftrightarrow> distinct (map fst h) \<and>
     (\<forall>(i, p) \<in> set h. length (peer_outgoing p) \<le> queueSize \<and> (\<forall>m \<in> set (peer_outgoing p). length m \<le> MaxControlBytes))"

lemma map_fst_peers: "map fst (map (\<lambda>(j, p). (j, f j p)) h) = map fst h"
  by (induction h) auto

lemma hub_inv_map:
  assumes "hub_inv h" "\<And>j p. (j, p) \<in> set h \<Longrightarrow> length (peer_outgoing (f j p)) \<le> queueSize
    \<and> (\<forall>m \<in> set (peer_outgoing (f j p)). length m \<le> MaxControlBytes)"
  shows "hub_inv (map (\<lambda>(j, p). (j, f j p)) h)"
  using assms unfolding hub_inv_def map_fst_peers by auto

lemma hub_inv_in:
  "hub_inv h \<Longrightarrow> (j, p) \<in> set h \<Longrightarrow> length (peer_outgoing p) \<le> queueSize \<and> (\<forall>m \<in> set (peer_outgoing p). length m \<le> MaxControlBytes)"
  by (auto simp: hub_inv_def)

lemma hub_inv_same: "hub_inv h \<Longrightarrow> (j, p) \<in> set h \<Longrightarrow> map_of h j = Some p"
  by (simp add: hub_inv_def)

lemma hub_inv_close_peer: "hub_inv h \<Longrightarrow> hub_inv (hub_close_peer h i)"
  unfolding hub_close_peer_def by (rule hub_inv_map) (use hub_inv_in in auto)

lemma hub_inv_send: "hub_inv h \<Longrightarrow> hub_inv (snd (hub_send h i v))"
proof -
  assume inv: "hub_inv h"
  have "hub_inv (map (\<lambda>(j, p). (j, if j = i then p\<lparr>peer_outgoing := peer_outgoing p @ [data]\<rparr> else p)) h)"
    if "map_of h i = Some peer" "length (peer_outgoing peer) < queueSize" "length data \<le> MaxControlBytes" for peer data
  proof (rule hub_inv_map [OF inv])
    fix j p
    assume p: "(j, p) \<in> set h"
    show "length (peer_outgoing (if j = i then p\<lparr>peer_outgoing := peer_outgoing p @ [data]\<rparr> else p)) \<le> queueSize
      \<and> (\<forall>m \<in> set (peer_outgoing (if j = i then p\<lparr>peer_outgoing := peer_outgoing p @ [data]\<rparr> else p)). length m \<le> MaxControlBytes)"
    proof (cases "j = i")
      case True
      then have "p = peer" using hub_inv_same [OF inv p] that(1) by simp
      then show ?thesis using hub_inv_in [OF inv p] that(2,3) by auto
    qed (use hub_inv_in [OF inv p] in simp)
  qed
  then show ?thesis using inv by (auto simp: hub_send_def over_limit_def split: option.splits)
qed

lemma hub_inv_notifyOne: "hub_inv h \<Longrightarrow> hub_inv (notifyOne v h i)"
  using hub_inv_send [of h i v] by (auto simp: notifyOne_def split: prod.splits sum.splits intro: hub_inv_close_peer)

lemma hub_inv_take: "hub_inv h \<Longrightarrow> hub_inv (snd (hub_take h i))"
proof -
  assume inv: "hub_inv h"
  have "hub_inv (map (\<lambda>(j, p). (j, if j = i then p\<lparr>peer_outgoing := rest\<rparr> else p)) h)"
    if "map_of h i = Some peer" "peer_outgoing peer = data # rest" for peer data rest
    using hub_inv_in [OF inv, of i peer] map_of_SomeD [OF that(1)] that(2)
    by (intro hub_inv_map [OF inv]) (use hub_inv_in [OF inv] in auto)
  then show ?thesis using inv by (auto simp: hub_take_def split: option.splits list.splits)
qed

lemma hub_inv_register: "hub_inv h \<Longrightarrow> hub_inv (snd (hub_register h i))"
  by (auto simp: hub_register_def hub_inv_def map_of_eq_None_iff image_iff)

lemma hub_inv_leave: "hub_inv h \<Longrightarrow> hub_inv (hub_leave h i)"
  by (auto simp: hub_leave_def hub_inv_def distinct_map_filter)

lemma hub_inv_close: "hub_inv h \<Longrightarrow> hub_inv (hub_close h)"
  unfolding hub_close_def by (rule hub_inv_map) (use hub_inv_in in auto)

lemma hub_step_inv: "hub_step h e h' \<Longrightarrow> hub_inv h \<Longrightarrow> hub_inv h'"
  by (erule hub_stepE)
    (simp_all add: hub_inv_send hub_inv_register hub_inv_take hub_inv_leave hub_inv_close notifyPair_def hub_inv_notifyOne)

lemma hub_reach_inv: "hub_reach h \<Longrightarrow> hub_inv h"
proof (induction rule: hub_reach.induct)
  case start
  then show ?case by (simp add: hub_inv_def newSignalHub_def)
next
  case (more h e h')
  then show ?case by (blast intro: hub_step_inv)
qed

end
