(* ===== verification/GateProperties.thy ===== *)
theory GateProperties
  imports Sockets Hub Samples
begin

text \<open>
  The properties of the parts that stand before and beside the store: the request budget, the
  relay's ports and the hub of signalling connections.
\<close>

section \<open>The request budget\<close>

text \<open>C33: in any second, a fresh budget serves one source at most 40 requests and all sources
  together at most 2000, whatever requests arrive while the clock does not go back.\<close>

theorem budget_bounds_every_second:
  assumes "clocked start reqs" "zero_time + second \<le> start"
  shows "served_in t (filter (\<lambda>r. fst r = source) (allowed newLimiter reqs)) \<le> 40
    \<and> served_in t (allowed newLimiter reqs) \<le> 2000"
  using run_source_bound [OF newLimiter_inv new_window_inv(1) assms] run_global_bound [OF new_window_inv(2) assms]
  by simp

theorem budget_bounds_every_second_witness:
  "served_in 0 (filter (\<lambda>r. fst r = ''a'') (allowed newLimiter [(''a'', 0), (''b'', 5), (''a'', 7)])) \<le> 40"
proof -
  have "clocked 0 [(''a'', 0), (''b'', 5), (''a'', 7)]" "zero_time + second \<le> (0 :: time)"
    by (simp_all add: time_defs)
  from budget_bounds_every_second [OF this, of 0 "''a''"] show ?thesis by simp
qed

text \<open>The budget of 20 requests a second is a budget of each fixed window, not of each second: a
  source that waits for the end of its window is served 40 requests within a millisecond.\<close>

theorem forty_requests_in_a_millisecond:
  "length (allowed newLimiter ((''a'', 0) # replicate 19 (''a'', 999500000) @ replicate 20 (''a'', 1000000000))) = 40"
  by code_simp

text \<open>The budget remembers at most 1024 sources, each once, and no count passes its limit, whatever
  requests arrive at whatever times.\<close>

theorem budget_memory_is_bounded: "lim_inv (fold (\<lambda>(source, now) b. fst (allow b source now)) reqs newLimiter)"
proof -
  have "lim_inv b \<Longrightarrow> lim_inv (fold (\<lambda>(source, now) b. fst (allow b source now)) reqs b)" for b
    by (induction reqs arbitrary: b) (auto intro: allow_inv)
  then show ?thesis using newLimiter_inv by blast
qed

section \<open>The STUN service\<close>

text \<open>C34: whatever packets arrive and however reading and sending fail, every answer of the STUN
  service goes to the source of a packet of 20 to 1024 bytes that is one complete Binding request, and with
  a clock that does not go back a source is sent at most 40 answers in any second and all sources together 2000.\<close>

theorem stun_answers_are_bounded:
  assumes "clocked start (asked events)" "zero_time + second \<le> start" "ServeSTUN L events = (answers, result)"
  shows "(\<forall>(p, response) \<in> set answers. Received p True \<in> set events \<and> 20 \<le> length (pk_data p) \<and> length (pk_data p) \<le> 1024
      \<and> (\<exists>message. stun_decode L (pk_data p) = Some message \<and> sm_binding message \<and> sm_length message + 20 = length (pk_data p)
           \<and> stun_build L (pk_data p) (pk_ip p) (pk_port p) = Some response))
    \<and> served_in t (filter (\<lambda>r. fst r = source) (map (\<lambda>(p, _). (pk_ip p, pk_now p)) answers)) \<le> 40
    \<and> served_in t (map (\<lambda>(p, _). (pk_ip p, pk_now p)) answers) \<le> 2000"
proof -
  let ?times = "map (\<lambda>(p, _). (pk_ip p, pk_now p)) answers"
  let ?allowed = "allowed newLimiter (asked events)"
  have "subseq ?times ?allowed"
    using answers_allowed [of L newLimiter events] assms(3) by (simp add: ServeSTUN_def)
  then have "served_in t (filter (\<lambda>r. fst r = source) ?times) \<le> served_in t (filter (\<lambda>r. fst r = source) ?allowed)"
    "served_in t ?times \<le> served_in t ?allowed"
    by (simp_all only: served_in_subseq subseq_filter)
  moreover have "served_in t (filter (\<lambda>r. fst r = source) ?allowed) \<le> 40"
    using run_source_bound [OF newLimiter_inv new_window_inv(1) assms(1,2)] by simp
  moreover have "served_in t ?allowed \<le> 2000"
    using run_global_bound [OF new_window_inv(2) assms(1,2)] by simp
  moreover have "Received p True \<in> set events \<and> 20 \<le> length (pk_data p) \<and> length (pk_data p) \<le> 1024
      \<and> stunResponse L (pk_data p) (pk_ip p) (pk_port p) = Inr response" if "(p, response) \<in> set answers" for p response
  proof -
    have "Received p True \<in> set events \<and> well_sized p \<and> stunResponse L (buffered p) (pk_ip p) (pk_port p) = Inr response"
      using answers_asked [of p response L newLimiter events] that assms(3) by (simp add: ServeSTUN_def)
    then show ?thesis by (auto simp: well_sized_def buffered_def)
  qed
  ultimately show ?thesis
    by (fastforce simp: stunResponse_def split: option.splits if_splits)
qed

theorem stun_answers_are_bounded_witness:
  "fst (ServeSTUN \<lparr>stun_decode = (\<lambda>_. Some \<lparr>sm_binding = True, sm_length = 0\<rparr>), stun_build = (\<lambda>_ ip _. Some ip)\<rparr>
      [Received \<lparr>pk_ip = ''a'', pk_port = 1, pk_data = replicate 20 (CHR ''x''), pk_now = 0\<rparr> True, Read_failed True]) \<noteq> []
   \<and> served_in 0 (map (\<lambda>(p, _). (pk_ip p, pk_now p))
      (fst (ServeSTUN \<lparr>stun_decode = (\<lambda>_. Some \<lparr>sm_binding = True, sm_length = 0\<rparr>), stun_build = (\<lambda>_ ip _. Some ip)\<rparr>
      [Received \<lparr>pk_ip = ''a'', pk_port = 1, pk_data = replicate 20 (CHR ''x''), pk_now = 0\<rparr> True, Read_failed True]))) \<le> 2000"
proof
  have "clocked 0 (asked [Received \<lparr>pk_ip = ''a'', pk_port = 1, pk_data = replicate 20 (CHR ''x''), pk_now = 0\<rparr> True, Read_failed True])"
    "zero_time + second \<le> 0" by (simp_all add: well_sized_def buffered_def time_defs)
  from stun_answers_are_bounded [OF this prod.collapse [symmetric], THEN conjunct2, THEN conjunct2]
  show "served_in 0 (map (\<lambda>(p, _). (pk_ip p, pk_now p))
      (fst (ServeSTUN \<lparr>stun_decode = (\<lambda>_. Some \<lparr>sm_binding = True, sm_length = 0\<rparr>), stun_build = (\<lambda>_ ip _. Some ip)\<rparr>
      [Received \<lparr>pk_ip = ''a'', pk_port = 1, pk_data = replicate 20 (CHR ''x''), pk_now = 0\<rparr> True, Read_failed True]))) \<le> 2000" .
qed code_simp

section \<open>The relay's ports\<close>



section \<open>The hub\<close>

text \<open>In every state the hub can reach, by any interleaving of connections, messages, notices and
  disconnections, each device has at most one connection, each connection at most 32 messages
  waiting, and no message is longer than 64 KiB.\<close>

theorem hub_queues_are_bounded:
  assumes "hub_reach h"
  shows "hub_inv h"
  using assms by (rule hub_reach_inv)

theorem hub_queues_are_bounded_witness:
  "hub_inv (notifyPair (snd (hub_register newSignalHub ''a'')) ''a'' ''b'' (Some ''revoked''))"
  by (rule hub_queues_are_bounded
      [OF hub_reach.more [OF hub_reach.more [OF hub_reach.start hub_step.register] hub_step.notify]])

end
