(* ===== verification/Config.thy ===== *)
theory Config
  imports Wire Relay NetText
begin

text \<open>
  The configuration of the server (\<open>internal/coordinator/config.go\<close>): its fields, reading it from a
  file, the checks it has to pass and the relay wiring it stands for.  The server runs on Linux, so
  a path is absolute when it starts with a slash.
\<close>

section \<open>Data\<close>

record Config =
  cf_HTTPSOrigin :: string
  cf_WSSURL :: string
  cf_STUNAddress :: string
  cf_HTTPSListen :: string
  cf_STUNListen :: string
  cf_TLSCertPath :: string
  cf_TLSKeyPath :: string
  cf_DatabasePath :: string
  cf_IdentityKeyPath :: string
  cf_TurnSharedSecret :: string
  cf_TurnListen :: string
  cf_RelayPublicIP :: string
  cf_RelayPortMin :: int
  cf_RelayPortMax :: int

definition config_tags :: schema where
  "config_tags = [(''httpsOrigin'', KString), (''wssUrl'', KString), (''stunAddress'', KString), (''httpsListen'', KString),
     (''stunListen'', KString), (''tlsCertPath'', KString), (''tlsKeyPath'', KString), (''databasePath'', KString),
     (''identityKeyPath'', KString), (''turnSharedSecret'', KString), (''turnListen'', KString), (''relayPublicIP'', KString),
     (''relayPortMin'', KInt 64), (''relayPortMax'', KInt 64)]"

definition config_of :: "(bytes \<rightharpoonup> field) \<Rightarrow> Config" where
  "config_of m = \<lparr>cf_HTTPSOrigin = str_field m ''httpsOrigin'', cf_WSSURL = str_field m ''wssUrl'',
     cf_STUNAddress = str_field m ''stunAddress'', cf_HTTPSListen = str_field m ''httpsListen'',
     cf_STUNListen = str_field m ''stunListen'', cf_TLSCertPath = str_field m ''tlsCertPath'',
     cf_TLSKeyPath = str_field m ''tlsKeyPath'', cf_DatabasePath = str_field m ''databasePath'',
     cf_IdentityKeyPath = str_field m ''identityKeyPath'', cf_TurnSharedSecret = str_field m ''turnSharedSecret'',
     cf_TurnListen = str_field m ''turnListen'', cf_RelayPublicIP = str_field m ''relayPublicIP'',
     cf_RelayPortMin = int_field m ''relayPortMin'', cf_RelayPortMax = int_field m ''relayPortMax''\<rparr>"

section \<open>Validation\<close>

definition IsAbs :: "string \<Rightarrow> bool" where
  "IsAbs path \<longleftrightarrow> take 1 path = ''/''"

definition valid_origin :: "net_lib \<Rightarrow> Config \<Rightarrow> bool" where
  "valid_origin L c = (case parse_url L (cf_HTTPSOrigin c) of
     None \<Rightarrow> False
   | Some origin \<Rightarrow> url_Scheme origin = ''https'' \<and> url_Host origin \<noteq> [] \<and> \<not> url_User origin \<and> url_Path origin = []
       \<and> url_RawQuery origin = [] \<and> url_Fragment origin = [])"

definition valid_wss :: "net_lib \<Rightarrow> Config \<Rightarrow> bool" where
  "valid_wss L c = (case (parse_url L (cf_HTTPSOrigin c), parse_url L (cf_WSSURL c)) of
     (Some origin, Some wss) \<Rightarrow> url_Scheme wss = ''wss'' \<and> url_Host wss = url_Host origin \<and> \<not> url_User wss
       \<and> url_Path wss = ''/v1/signals'' \<and> url_RawQuery wss = [] \<and> url_Fragment wss = []
   | _ \<Rightarrow> False)"

definition valid_endpoint :: "string \<Rightarrow> bool" where
  "valid_endpoint address = (case SplitHostPort address of
     None \<Rightarrow> False
   | Some (host, port) \<Rightarrow> host \<noteq> [] \<and> (case Atoi port of None \<Rightarrow> False | Some number \<Rightarrow> 1 \<le> number \<and> number \<le> 65535))"

definition state_paths :: "Config \<Rightarrow> string list" where
  "state_paths c = [cf_TLSCertPath c, cf_TLSKeyPath c, cf_DatabasePath c, cf_IdentityKeyPath c]"

definition turnListen :: "Config \<Rightarrow> string" where
  "turnListen c = (if cf_TurnListen c \<noteq> [] then cf_TurnListen c else cf_STUNListen c)"

text \<open>The checks of the relay, made when there is a shared secret.\<close>

definition Validate_relay :: "net_lib \<Rightarrow> Config \<Rightarrow> err + unit" where
  "Validate_relay L c =
     check (32 \<le> length (cf_TurnSharedSecret c)) ''p2p.invalid_turn_shared_secret''
     (check (valid_endpoint (turnListen c)) ''p2p.invalid_endpoint''
     (check (\<not> (cf_RelayPublicIP c = [] \<or> parse_ip L (cf_RelayPublicIP c) = None)) ''p2p.invalid_relay_public_ip''
     (check (\<not> ((cf_RelayPortMax c \<noteq> 0 \<or> cf_RelayPortMin c \<noteq> 0) \<and>
               (cf_RelayPortMin c < 1 \<or> 65535 < cf_RelayPortMax c \<or> cf_RelayPortMax c < cf_RelayPortMin c)))
        ''p2p.invalid_relay_port_range'' (Inr ()))))"

definition Validate :: "net_lib \<Rightarrow> Config \<Rightarrow> err + unit" where
  "Validate L c =
     check (valid_origin L c) ''p2p.invalid_https_origin''
     (check (valid_wss L c) ''p2p.invalid_wss_endpoint''
     (check (list_all valid_endpoint [cf_STUNAddress c, cf_HTTPSListen c, cf_STUNListen c]) ''p2p.invalid_endpoint''
     (check (list_all IsAbs (state_paths c)) ''p2p.explicit_absolute_path_required''
     (check (\<not> (cf_DatabasePath c = cf_IdentityKeyPath c \<or> cf_TLSCertPath c = cf_TLSKeyPath c
               \<or> cf_IdentityKeyPath c = cf_TLSKeyPath c \<or> cf_DatabasePath c = cf_TLSCertPath c
               \<or> cf_DatabasePath c = cf_TLSKeyPath c \<or> cf_IdentityKeyPath c = cf_TLSCertPath c)) ''p2p.path_conflict''
     (if cf_TurnSharedSecret c \<noteq> [] then Validate_relay L c else Inr ())))))"

section \<open>The relay wiring\<close>

definition turnRelay :: "net_lib \<Rightarrow> Config \<Rightarrow> TurnRelay" where
  "turnRelay L c =
     (let relay = \<lparr>rl_SharedSecret = cf_TurnSharedSecret c, rl_ControlAddress = turnListen c, rl_PublicIP = None,
                   rl_MinPort = cf_RelayPortMin c, rl_MaxPort = cf_RelayPortMax c\<rparr> in
      if Enabled relay then relay\<lparr>rl_PublicIP := parse_ip L (cf_RelayPublicIP c)\<rparr> else relay)"

definition turnURL :: "Config \<Rightarrow> string" where
  "turnURL c = (case SplitHostPort (cf_STUNAddress c) of
     None \<Rightarrow> []
   | Some (host, _) \<Rightarrow> (case SplitHostPort (turnListen c) of
        None \<Rightarrow> []
      | Some (_, port) \<Rightarrow> JoinHostPort host port))"

section \<open>Reading the file\<close>

text \<open>
  \<open>decoder.Decode(&config)\<close> with \<open>DisallowUnknownFields\<close>, then \<open>decoder.Token()\<close>.  The fields are texts and
  numbers, so an object with anything else in a field is an error, whatever follows; a \<open>null\<close>
  leaves its field (or the whole structure) as it was, and a field may be given again.  Every error
  has the same code.  \<open>flat_members\<close> takes as fuel one more than the bytes left.
\<close>

primrec flat_members :: "nat \<Rightarrow> (bytes \<times> json) list \<Rightarrow> decoder \<Rightarrow> ((bytes \<times> json) list \<times> decoder) option" where
  "flat_members 0 seen dec = None"
| "flat_members (Suc fuel) seen dec =
     (if \<not> More dec then
        (case Token dec of Inr (Delim c, dec1) \<Rightarrow> Some (seen, dec1) | _ \<Rightarrow> None)
      else
        (case Token dec of
           Inr (Scalar (JStr name), dec1) \<Rightarrow>
             (case Token dec1 of
                Inr (Scalar v, dec2) \<Rightarrow> flat_members fuel (seen @ [(name, v)]) dec2
              | _ \<Rightarrow> None)
         | _ \<Rightarrow> None))"

definition decode_config :: "bytes \<Rightarrow> Config option" where
  "decode_config data =
     (let read = (case Token (new_decoder data) of
            Inr (Scalar JNull, dec) \<Rightarrow> Some ([], dec)
          | Inr (Delim c, dec) \<Rightarrow> if c = CHR ''{'' then flat_members (Suc (length (dec_rest dec))) [] dec else None
          | _ \<Rightarrow> None) in
      case read of
        None \<Rightarrow> None
      | Some (ms, dec) \<Rightarrow>
          if Token dec \<noteq> Inl EOF \<or> list_ex (\<lambda>(name, _). find_field config_tags name = None) ms then None
          else map_option config_of (decode_members config_tags (filter (\<lambda>(_, v). v \<noteq> JNull) ms) Map.empty))"

text \<open>What opening the file gives: whether it is a regular file, its size, and the bytes read from it
  (\<open>None\<close> when reading fails).\<close>

record config_file =
  file_regular :: bool
  file_size :: int
  file_content :: "bytes option"

definition ReadConfig :: "net_lib \<Rightarrow> config_file option \<Rightarrow> err + Config" where
  "ReadConfig L f = (case f of
     None \<Rightarrow> Inl (P2p ''p2p.config_unavailable'')
   | Some file \<Rightarrow>
       if \<not> file_regular file \<or> int MaxControlBytes < file_size file then Inl (P2p ''p2p.invalid_config'')
       else case file_content file of
         None \<Rightarrow> Inl Lib_error
       | Some data \<Rightarrow>
           (case decode_config (if over_limit data then take (MaxControlBytes + 1) data else data) of
              None \<Rightarrow> Inl (P2p ''p2p.invalid_fields'')
            | Some config \<Rightarrow> (case Validate L config of Inl e \<Rightarrow> Inl e | Inr _ \<Rightarrow> Inr config)))"

section \<open>Facts\<close>

lemma flat_members_fuel:
  "length (dec_rest dec) < f \<Longrightarrow> length (dec_rest dec) < g \<Longrightarrow> flat_members f seen dec = flat_members g seen dec"
proof (induction f arbitrary: g seen dec)
  case (Suc f)
  then obtain g' where g: "g = Suc g'" by (cases g) auto
  have "flat_members f xs dec2 = flat_members g' xs dec2"
    if "Token dec = Inr (t, dec1)" "Token dec1 = Inr (u, dec2)" for t u dec1 dec2 xs
    using Token_shrinks [OF that(1)] Token_shrinks [OF that(2)] Suc.prems g by (intro Suc.IH) auto
  then show ?case
    by (auto simp: g split: sum.splits prod.splits token.splits json.splits)
qed simp

text \<open>A valid configuration's relay has a public address and, if it is bound to a range of ports, a valid one.\<close>

definition usable_generator :: "generator \<Rightarrow> bool" where
  "usable_generator g = (case g of
     PortRange a \<Rightarrow> allocator_Validate a = Inr ()
   | Static ip address \<Rightarrow> ip \<noteq> None \<and> address = ''0.0.0.0'')"

lemma valid_relay_generator:
  assumes "Validate_relay L c = Inr ()"
  shows "\<exists>g. ServeTURN_generator (turnRelay L c) = Inr g \<and> usable_generator g"
proof -
  have "cf_TurnSharedSecret c \<noteq> []" using assms by (auto simp: Validate_relay_def)
  then have relay: "turnRelay L c = \<lparr>rl_SharedSecret = cf_TurnSharedSecret c, rl_ControlAddress = turnListen c,
      rl_PublicIP = parse_ip L (cf_RelayPublicIP c), rl_MinPort = cf_RelayPortMin c, rl_MaxPort = cf_RelayPortMax c\<rparr>"
    by (simp add: turnRelay_def Enabled_def)
  show ?thesis
    using assms by (auto simp: relay ServeTURN_generator_def Validate_relay_def Enabled_def usable_generator_def
        allocator_Validate_def newPortRangeAllocator_def)
qed

lemma valid_endpointE:
  assumes "valid_endpoint address"
  obtains host port number where "SplitHostPort address = Some (host, port)" "host \<noteq> []"
    "Atoi port = Some number" "1 \<le> number" "number \<le> 65535"
  using assms by (auto simp: valid_endpoint_def split: option.splits)

lemma turnURL_nonempty: "valid_endpoint (cf_STUNAddress c) \<Longrightarrow> valid_endpoint (turnListen c) \<Longrightarrow> turnURL c \<noteq> []"
  by (auto simp: turnURL_def JoinHostPort_def elim!: valid_endpointE)

lemma turnListen_valid: "Validate L c = Inr () \<Longrightarrow> valid_endpoint (turnListen c) \<or> cf_TurnSharedSecret c = []"
  by (auto simp: Validate_def Validate_relay_def split: if_splits)

end
