(* ===== verification/Server.thy ===== *)
theory Server
  imports Http Config Limiter Hub SessionRuns
begin

text \<open>
  The HTTPS service (\<open>internal/coordinator/server.go\<close>, \<open>user_api.go\<close>, \<open>pair_identity.go\<close>): the state behind
  it, one action for each endpoint, and the handling of a request from admission to response.  The
  router of \<open>gin\<close> picks the route: the type \<open>route\<close> has one constructor for each it is set up with,
  applied to the parameters of the path, and \<open>NoRoute\<close>.
\<close>

section \<open>State\<close>

text \<open>The server's record extends the sessions, which extend the store.\<close>

record server = sessions +
  sv_config :: Config
  sv_budget :: limiter
  sv_hub :: hub

type_synonym 'a srv = "(unit server_ext sessions_ext, 'a) act"

text \<open>What is outside the program: cryptography, the library's parsers, the row SQLite picks when there
  is no order, and the generator of relay credentials.\<close>

record lib =
  lib_crypto :: crypto
  lib_net :: net_lib
  lib_pick :: "string list \<Rightarrow> string list"
  lib_turn :: "string \<Rightarrow> string \<Rightarrow> time \<Rightarrow> err + string \<times> string"

text \<open>What a request depends on beside its content: the clock when it is admitted, authenticated and
  carried out, and the random bytes it draws.\<close>

record env =
  ev_admitted :: time
  ev_authenticated :: time
  ev_now :: time
  ev_rnd :: bytes
  ev_rnds :: "nat \<Rightarrow> bytes"
  ev_secret :: "bytes option"
  ev_serial :: "bytes option"
  ev_salt :: bytes

definition NewServer :: "lib \<Rightarrow> Config \<Rightarrow> store \<Rightarrow> err + server" where
  "NewServer lib config s =
     (case Validate (lib_net lib) config of
        Inl e \<Rightarrow> Inl e
      | Inr _ \<Rightarrow> Inr (sessions.extend (NewSessions s)
          \<lparr>sv_config = config, sv_budget = newLimiter, sv_hub = newSignalHub\<rparr>))"

text \<open>An operation of the sessions, of the store and of the hub.\<close>

definition on_sessions :: "'a sact \<Rightarrow> 'a srv" where
  "on_sessions m s = (case m (sessions.truncate s) of (r, t) \<Rightarrow> (r, sessions.extend t (sessions.more s)))"

definition of_store :: "(unit, 'a) act \<Rightarrow> 'a srv" where
  "of_store m = on_sessions (on_store m)"

definition on_hub :: "(hub \<Rightarrow> (err + 'a) \<times> hub) \<Rightarrow> 'a srv" where
  "on_hub f s = (case f (sv_hub s) of (r, h) \<Rightarrow> (r, s\<lparr>sv_hub := h\<rparr>))"

definition of_result :: "err + 'a \<Rightarrow> 'a srv" where
  "of_result r = (case r of Inl e \<Rightarrow> throw e | Inr x \<Rightarrow> ret x)"

section \<open>The identity of the service\<close>

record ServiceIdentity =
  id_Version :: int
  id_ServiceID :: string
  id_PublicKey :: bytes
  id_Certificate :: bytes
  id_Nonce :: string
  id_HTTPSOrigin :: string
  id_WSSURL :: string
  id_STUNAddress :: string
  id_Signature :: string

definition Identity_elems :: "ServiceIdentity \<Rightarrow> elem list" where
  "Identity_elems d = [EStr ''dshker.service.v1'', EInt (id_Version d), EStr (id_ServiceID d),
     EStr (std_encode (id_PublicKey d)), EStr (std_encode (id_Certificate d)), EStr (id_Nonce d),
     EStr (id_HTTPSOrigin d), EStr (id_WSSURL d), EStr (id_STUNAddress d)]"

definition Identity_SigningBytes :: "ServiceIdentity \<Rightarrow> bytes" where
  "Identity_SigningBytes d = marshal_array (Identity_elems d)"

definition json_Identity :: "ServiceIdentity \<Rightarrow> jval" where
  "json_Identity d = VObj [(''version'', VInt (id_Version d)), (''serviceId'', VStr (id_ServiceID d)),
     (''publicKey'', VBytes (id_PublicKey d)), (''certificate'', VBytes (id_Certificate d)), (''nonce'', VStr (id_Nonce d)),
     (''httpsOrigin'', VStr (id_HTTPSOrigin d)), (''wssUrl'', VStr (id_WSSURL d)), (''stunAddress'', VStr (id_STUNAddress d)),
     (''signature'', VStr (id_Signature d))]"

definition new_identity :: "crypto \<Rightarrow> server \<Rightarrow> string \<Rightarrow> ServiceIdentity" where
  "new_identity C s nonce =
     (let d = \<lparr>id_Version = Version, id_ServiceID = st_serviceID s, id_PublicKey = ed_public C (st_key s),
            id_Certificate = st_CA s, id_Nonce = nonce, id_HTTPSOrigin = cf_HTTPSOrigin (sv_config s),
            id_WSSURL = cf_WSSURL (sv_config s), id_STUNAddress = cf_STUNAddress (sv_config s), id_Signature = []\<rparr>
      in d\<lparr>id_Signature := b64_encode (ed_sign C (st_key s) (Identity_SigningBytes d))\<rparr>)"

definition server_identity :: "crypto \<Rightarrow> string \<Rightarrow> ServiceIdentity srv" where
  "server_identity C nonce = withStore (\<lambda>s.
     guard (ValidNonce nonce \<or> ValidID nonce) ''p2p.invalid_challenge'' (ret (new_identity C s nonce)))"

section \<open>The identity of a pair\<close>

record PairDeviceIdentity =
  pd_DeviceID :: string
  pd_UserID :: string
  pd_PublicKey :: bytes
  pd_Name :: string
  pd_Presence :: string

record PairIdentity =
  pi_Pair :: Pair
  pi_Initiator :: PairDeviceIdentity
  pi_Target :: PairDeviceIdentity

definition json_PairDeviceIdentity :: "PairDeviceIdentity \<Rightarrow> jval" where
  "json_PairDeviceIdentity d = VObj [(''deviceId'', VStr (pd_DeviceID d)), (''userId'', VStr (pd_UserID d)),
     (''publicKey'', VBytes (pd_PublicKey d)), (''name'', VStr (pd_Name d)), (''presence'', VStr (pd_Presence d))]"

definition json_PairIdentity :: "PairIdentity \<Rightarrow> jval" where
  "json_PairIdentity p = VObj [(''pair'', json_Pair (pi_Pair p)), (''initiator'', json_PairDeviceIdentity (pi_Initiator p)),
     (''target'', json_PairDeviceIdentity (pi_Target p))]"

definition project :: "sessions \<Rightarrow> string \<Rightarrow> time \<Rightarrow> Device \<Rightarrow> PairDeviceIdentity" where
  "project s account now device = \<lparr>pd_DeviceID = dev_ID device, pd_UserID = account, pd_PublicKey = dev_PublicKey device,
     pd_Name = dev_Name device, pd_Presence = Presence s (dev_ID device) account now\<rparr>"

definition pairIdentity :: "string \<Rightarrow> string \<Rightarrow> time \<Rightarrow> PairIdentity sact" where
  "pairIdentity deviceID pairID now =
     guard (ValidID pairID) ''p2p.invalid_request''
     (bnd (getPair deviceID pairID)
        (\<lambda>pair. guard (live (pr_State pair)) ''p2p.pair_unauthorized''
        (guard (\<not> (pr_State pair \<noteq> Active \<and> pr_ExpiresAt pair \<le> unix now)) ''p2p.pairing_expired''
        (bnd (authorizePair pair)
        (\<lambda>_. bnd (Device_of (pr_Initiator pair))
        (\<lambda>first. bnd (Device_of (pr_Target pair))
        (\<lambda>second. bnd (Device_of deviceID)
        (\<lambda>viewer. withStore (\<lambda>s. ret \<lparr>pi_Pair = pair, pi_Initiator = project s (dev_UserID viewer) now first,
             pi_Target = project s (dev_UserID viewer) now second\<rparr>)))))))))"

end
