(* ===== verification/Handlers.thy ===== *)
theory Handlers
  imports Server
begin

text \<open>
  The endpoints (\<open>routes\<close> and \<open>deviceOperation\<close> of \<open>internal/coordinator/server.go\<close>, \<open>userRoutes\<close> of
  \<open>user_api.go\<close>, \<open>serveSignals\<close> and \<open>readSignals\<close> of \<open>signaling.go\<close>) and the handling of a request.
\<close>

section \<open>Routes\<close>

datatype public_route = GetHealth | PostIdentity | PostEnroll | PostJoin | PostEnrollmentQuery | PostRecover
  | PostRegister | PostLogin

datatype user_route = GetUser | PostLogout | GetNetworks | PostNetworks | PatchNetwork string | PatchLimit string
  | RemoveNetwork string | PostTokens string | GetDevices | GetNetworkDevices string | PostBinding string
  | RemoveBinding string string | GetNetworkPairs string | RemovePair string string

text \<open>\<open>PostOperation path\<close> is a POST to one of the nine paths of \<open>deviceOperation\<close>.\<close>

datatype device_route = GetMe | GetPairs | GetPairIdentity string | PostTurnCredentials | PostOperation string

datatype route = Public public_route | Private user_route | Enrolled device_route | GetSignals | NoRoute

section \<open>Endpoints\<close>

definition with_body :: "schema \<Rightarrow> request \<Rightarrow> ((bytes \<rightharpoonup> field) \<Rightarrow> 'a srv) \<Rightarrow> 'a srv" where
  "with_body fs rq f = bnd (of_result (readBody fs rq)) f"

definition reply :: "('a \<Rightarrow> jval) \<Rightarrow> 'a srv \<Rightarrow> jval srv" where
  "reply f m = bnd m (\<lambda>x. ret (f x))"

definition flag :: "string \<Rightarrow> unit \<Rightarrow> jval" where
  "flag name _ = VObj [(name, VBool True)]"

definition json_certificate :: "bytes \<Rightarrow> jval" where
  "json_certificate c = VObj [(''certificate'', VBytes c)]"

fun public_operation :: "lib \<Rightarrow> env \<Rightarrow> public_route \<Rightarrow> request \<Rightarrow> jval srv" where
  "public_operation lib ev GetHealth rq = withStore (\<lambda>s.
     ret (VObj [(''serviceId'', VStr (st_serviceID s)), (''version'', VInt Version)]))"
| "public_operation lib ev PostIdentity rq = with_body identity_tags rq (\<lambda>m.
     reply json_Identity (server_identity (lib_crypto lib) (str_field m ''nonce'')))"
| "public_operation lib ev PostEnroll rq = with_body enrollment_tags rq (\<lambda>m.
     reply json_Device (of_store (Enroll (lib_crypto lib) (ev_serial ev) (enrollment_of m) (ev_now ev))))"
| "public_operation lib ev PostJoin rq = with_body join_tags rq (\<lambda>m.
     reply json_Device (of_store (JoinNetwork (lib_crypto lib) (ev_serial ev) (join_of m) (ev_now ev))))"
| "public_operation lib ev PostEnrollmentQuery rq = with_body query_tags rq (\<lambda>m.
     reply json_Device (of_store (ReadEnrollment (lib_crypto lib) (query_of m) (ev_now ev))))"
| "public_operation lib ev PostRecover rq = with_body recovery_tags rq (\<lambda>m.
     reply json_certificate (of_store (RecoverCertificate (lib_crypto lib) (ev_serial ev) (recovery_of m) (ev_now ev))))"
| "public_operation lib ev PostRegister rq = with_body register_tags rq (\<lambda>m.
     reply json_User (of_store (CreateUser (lib_crypto lib) (ev_salt ev) (ev_rnd ev)
       (str_field m ''email'') (str_field m ''password''))))"
| "public_operation lib ev PostLogin rq = with_body login_tags rq (\<lambda>m.
     reply json_UserSession (of_store (Login (lib_crypto lib) (ev_secret ev)
       (str_field m ''username'') (str_field m ''password'') (ev_now ev))))"

text \<open>\<open>withPresence\<close>.\<close>

definition withPresence :: "sessions \<Rightarrow> time \<Rightarrow> string \<Rightarrow> DeviceEntry list \<Rightarrow> DeviceEntry list" where
  "withPresence s now userID entries = map (\<lambda>d. d\<lparr>de_Presence := Presence s (de_DeviceID d) userID now\<rparr>) entries"

definition list_present :: "time \<Rightarrow> string \<Rightarrow> (unit, DeviceEntry list) act \<Rightarrow> jval srv" where
  "list_present now userID m = bnd (of_store m)
     (\<lambda>entries. withStore (\<lambda>s. ret (VArr (map json_DeviceEntry (withPresence (sessions.truncate s) now userID entries)))))"

definition json_token :: "string \<Rightarrow> time \<Rightarrow> string \<Rightarrow> jval" where
  "json_token networkID now token = VObj [(''expiresAt'', VInt (unix (now + 5 * minute))), (''networkId'', VStr networkID),
     (''token'', VStr token)]"

fun user_operation :: "lib \<Rightarrow> env \<Rightarrow> User \<Rightarrow> string \<Rightarrow> user_route \<Rightarrow> request \<Rightarrow> jval srv" where
  "user_operation lib ev user token GetUser rq = ret (json_User user)"
| "user_operation lib ev user token PostLogout rq = with_body [] rq (\<lambda>_.
     reply (flag ''loggedOut'') (of_store (Logout (lib_crypto lib) token)))"
| "user_operation lib ev user token GetNetworks rq =
     reply (\<lambda>ns. VArr (map json_Network ns)) (of_store (Networks (usr_ID user)))"
| "user_operation lib ev user token PostNetworks rq = with_body name_tags rq (\<lambda>m.
     reply json_Network (of_store (CreateNetwork (ev_rnd ev) (usr_ID user) (str_field m ''name''))))"
| "user_operation lib ev user token (PatchNetwork networkID) rq = with_body name_tags rq (\<lambda>m.
     reply json_Network (of_store (RenameNetwork (usr_ID user) networkID (str_field m ''name''))))"
| "user_operation lib ev user token (PatchLimit networkID) rq = with_body limit_tags rq (\<lambda>m.
     reply json_Network (of_store (UpdateNetworkLimit (ev_now ev) (usr_ID user) networkID (int_field m ''maxDevices''))))"
| "user_operation lib ev user token (RemoveNetwork networkID) rq = with_body [] rq (\<lambda>_.
     reply (flag ''deleted'') (of_store (DeleteNetwork (usr_ID user) networkID (ev_now ev))))"
| "user_operation lib ev user token (PostTokens networkID) rq = with_body [] rq (\<lambda>_.
     reply (json_token networkID (ev_now ev))
       (of_store (IssueEnrollmentToken (lib_crypto lib) (ev_secret ev) (usr_ID user) networkID (ev_now ev))))"
| "user_operation lib ev user token GetDevices rq = list_present (ev_now ev) (usr_ID user) (UserDevices (usr_ID user))"
| "user_operation lib ev user token (GetNetworkDevices networkID) rq =
     list_present (ev_now ev) (usr_ID user) (NetworkDevices (usr_ID user) networkID)"
| "user_operation lib ev user token (PostBinding networkID) rq = with_body binding_tags rq (\<lambda>m.
     reply (flag ''bound'') (of_store (BindDevice (usr_ID user) networkID (str_field m ''deviceId''))))"
| "user_operation lib ev user token (RemoveBinding networkID deviceID) rq = with_body [] rq (\<lambda>_.
     reply (flag ''unbound'') (of_store (UnbindDevice (usr_ID user) networkID deviceID (ev_now ev))))"
| "user_operation lib ev user token (GetNetworkPairs networkID) rq =
     reply (\<lambda>ps. VArr (map (json_Pair \<circ> pair_of) ps)) (of_store (NetworkPairs (usr_ID user) networkID))"
| "user_operation lib ev user token (RemovePair networkID pairID) rq = with_body [] rq (\<lambda>_.
     reply (flag ''deleted'') (of_store (DeletePair (usr_ID user) networkID pairID (ev_now ev))))"

definition peer_certificate :: "request \<Rightarrow> certificate option" where
  "peer_certificate rq = (case rq_TLS rq of Some (c # _) \<Rightarrow> Some c | _ \<Rightarrow> None)"

text \<open>The two operations of \<open>deviceOperation\<close> that tell other devices: an action on a pair that revokes it
  tells both, and an attempt is taken back when its target cannot be told.\<close>

definition pair_action_operation :: "lib \<Rightarrow> env \<Rightarrow> Device \<Rightarrow> (bytes \<rightharpoonup> field) \<Rightarrow> Pair srv" where
  "pair_action_operation lib ev device m =
     bnd (of_store (ActOnPair (lib_crypto lib) (dev_ID device) (str_field m ''pairId'') (str_field m ''action'')
            (str_field m ''fingerprint'') (ev_now ev)))
       (\<lambda>pair. if pr_State pair = Revoked
          then bnd (on_hub (\<lambda>h. (Inr (), notifyPair h (pr_Initiator pair) (pr_Target pair) (Some (marshal (revoked_message pair))))))
                 (\<lambda>_. ret pair)
          else ret pair)"

definition attempt_operation :: "lib \<Rightarrow> env \<Rightarrow> Device \<Rightarrow> (bytes \<rightharpoonup> field) \<Rightarrow> Lease srv" where
  "attempt_operation lib ev device m =
     bnd (on_sessions (Begin (lib_crypto lib) (lib_pick lib) (ev_rnd ev) (dev_ID device) (str_field m ''pairId'')
            (nat (int_field m ''generation'')) (ev_now ev)))
       (\<lambda>lease. bnd (attempt (on_hub (\<lambda>h. hub_send h (lse_ToDeviceID lease) (Some (marshal (attempt_message lease))))))
          (\<lambda>sent. case sent of
             Inl e \<Rightarrow> bnd (attempt (on_sessions (End (dev_ID device) (lse_PairID lease) (lse_AttemptID lease)))) (\<lambda>_. throw e)
           | Inr _ \<Rightarrow> ret lease))"

definition deviceOperation :: "lib \<Rightarrow> env \<Rightarrow> Device \<Rightarrow> string \<Rightarrow> request \<Rightarrow> jval srv" where
  "deviceOperation lib ev device path rq =
     (if path = ''/v1/share'' then with_body network_tags rq (\<lambda>m.
        reply json_Share (of_store (mintShare (lib_crypto lib) (ev_rnd ev) (dev_ID device) (str_field m ''networkId'') (ev_now ev))))
      else if path = ''/v1/heartbeat'' then with_body heartbeat_tags rq (\<lambda>m.
        reply (\<lambda>_. VObj [(''at'', VInt (unix (ev_now ev))), (''deviceId'', VStr (dev_ID device))])
          (on_sessions (Heartbeat (dev_ID device) (str_field m ''userId'') (telemetry m) (ev_now ev))))
      else if path = ''/v1/invite'' then with_body invite_tags rq (\<lambda>m.
        bnd (of_result (decode_code (str_field m ''share'')))
          (\<lambda>share. reply json_Pair (of_store (Invite (lib_crypto lib) (ev_rnd ev) (dev_ID device) share (ev_now ev)))))
      else if path = ''/v1/adopt-network'' then
        reply (\<lambda>ps. VObj [(''pairs'', VArr (map json_Pair ps))]) (of_store (AdoptNetwork (ev_rnds ev) (dev_ID device) (ev_now ev)))
      else if path = ''/v1/pair-action'' then with_body action_tags rq (\<lambda>m.
        reply json_Pair (pair_action_operation lib ev device m))
      else if path = ''/v1/renew-certificate'' then with_body renewal_tags rq (\<lambda>m.
        reply json_certificate
          (of_store (Renew (lib_crypto lib) (ev_serial ev) (peer_certificate rq) (renewal_of m) (ev_now ev))))
      else if path = ''/v1/attempt'' then with_body begin_tags rq (\<lambda>m.
        reply json_Lease (attempt_operation lib ev device m))
      else if path = ''/v1/lease'' \<or> path = ''/v1/end'' then with_body lease_tags rq (\<lambda>m.
        if path = ''/v1/end''
        then reply (\<lambda>_. VObj [(''attemptId'', VStr (str_field m ''attemptId'')), (''ended'', VBool True)])
               (on_sessions (End (dev_ID device) (str_field m ''pairId'') (str_field m ''attemptId'')))
        else reply json_Lease (on_sessions (RenewLease (lib_crypto lib) (dev_ID device) (str_field m ''pairId'')
               (str_field m ''attemptId'') (ev_now ev))))
      else throw (P2p ''p2p.unknown_operation''))"

definition turn_credentials :: "lib \<Rightarrow> Device \<Rightarrow> jval srv" where
  "turn_credentials lib device = withStore (\<lambda>s.
     if Enabled (turnRelay (lib_net lib) (sv_config s)) then
       bnd (of_result (TurnCredentials (lib_turn lib) (cf_TurnSharedSecret (sv_config s)) (dev_ID device)))
         (\<lambda>(username, password). ret (VObj [(''credential'', VStr password),
            (''urls'', VArr [VStr (''turn:'' @ turnURL (sv_config s))]), (''username'', VStr username)]))
     else throw (P2p ''p2p.relay_unconfigured''))"

fun device_operation :: "lib \<Rightarrow> env \<Rightarrow> Device \<Rightarrow> device_route \<Rightarrow> request \<Rightarrow> jval srv" where
  "device_operation lib ev device GetMe rq = ret (json_Device device)"
| "device_operation lib ev device GetPairs rq =
     reply (\<lambda>ps. VArr (map json_Pair ps)) (of_store (Pairs (dev_ID device)))"
| "device_operation lib ev device (GetPairIdentity pairID) rq =
     reply json_PairIdentity (on_sessions (pairIdentity (dev_ID device) pairID (ev_now ev)))"
| "device_operation lib ev device PostTurnCredentials rq = turn_credentials lib device"
| "device_operation lib ev device (PostOperation path) rq = deviceOperation lib ev device (''/v1'' @ path) rq"

section \<open>Signal sockets\<close>

text \<open>
  The deferred clean-up of \<open>serveSignals\<close>: the connection is closed, its peer removed from the hub and the
  device's presence forgotten for every account.
\<close>

definition leave_signals :: "string \<Rightarrow> unit srv" where
  "leave_signals i =
     bnd (on_hub (\<lambda>h. (Inr (), hub_leave h i)))
       (\<lambda>_. on_sessions (Offline i []))"

text \<open>
  \<open>serveSignals\<close> up to the reading loop.  \<open>accepted\<close> says whether the library completed the handshake with the
  required subprotocol; a device that is refused, here or by the heartbeat or the first message, is
  not left in the hub.
\<close>

definition serveSignals :: "bool \<Rightarrow> env \<Rightarrow> request \<Rightarrow> Device \<Rightarrow> response srv" where
  "serveSignals accepted ev rq device =
     (if rq_Origin rq \<noteq> [] then ret (writeFailure ''p2p.invalid_signal_origin'' 403)
      else bnd (attempt (on_hub (\<lambda>h. if accepted \<or> map_of h (dev_ID device) \<noteq> None then hub_register h (dev_ID device)
                                    else (Inl Lib_error, h))))
        (\<lambda>r. case r of
           Inl (P2p e) \<Rightarrow> ret (writeFailure e 409)
         | Inl _ \<Rightarrow> ret Refused
         | Inr _ \<Rightarrow>
             bnd (attempt (bnd (on_sessions (Heartbeat (dev_ID device) [] no_telemetry (ev_now ev)))
                (\<lambda>_. on_hub (\<lambda>h. hub_send h (dev_ID device) (Some (marshal (ready_message (dev_ID device))))))))
               (\<lambda>r. case r of
                  Inl _ \<Rightarrow> bnd (leave_signals (dev_ID device)) (\<lambda>_. ret Upgraded)
                | Inr _ \<Rightarrow> ret Upgraded)))"

text \<open>
  One round of \<open>readSignals\<close>: a message that is not a text, does not decode, is not admitted or cannot be
  passed on ends the connection.
\<close>

definition relay_signal :: "lib \<Rightarrow> time \<Rightarrow> string \<Rightarrow> Signal \<Rightarrow> unit srv" where
  "relay_signal lib now i signal =
     bnd (on_sessions (Admit (lib_crypto lib) i signal now))
       (\<lambda>_. on_hub (\<lambda>h. hub_send h (sig_ToDeviceID signal) (Some (marshal (signal_message signal)))))"

definition readSignal :: "lib \<Rightarrow> time \<Rightarrow> string \<Rightarrow> bool \<Rightarrow> bytes \<Rightarrow> unit srv" where
  "readSignal lib now i is_text data =
     bnd (attempt (guard is_text ''p2p.protocol_limit''
            (bnd (of_result (Decode signal_tags data)) (\<lambda>m. relay_signal lib now i (signal_of m)))))
       (\<lambda>r. case r of Inl _ \<Rightarrow> leave_signals i | Inr _ \<Rightarrow> ret ())"

text \<open>
  One round of the goroutine that writes to a socket: it takes the next message of the queue, and a message that
  cannot be written within its time cancels the connection, which ends the reading loop and runs the clean-up.
\<close>

definition writeSignal :: "bool \<Rightarrow> string \<Rightarrow> unit srv" where
  "writeSignal written i =
     bnd (on_hub (\<lambda>h. case hub_take h i of (data, h') \<Rightarrow> (Inr data, h')))
       (\<lambda>data. if data = None \<or> written then ret () else leave_signals i)"

section \<open>Handling a request\<close>

text \<open>\<open>admission\<close>: \<open>Some\<close> response ends the request.\<close>

definition admission :: "request \<Rightarrow> time \<Rightarrow> server \<Rightarrow> response option \<times> server" where
  "admission rq now s =
     (case SplitHostPort (rq_RemoteAddr rq) of
        None \<Rightarrow> (Some (writeFailure ''p2p.rate_limited'' 429), s)
      | Some (ip, _) \<Rightarrow>
          (case allow (sv_budget s) ip now of
             (budget, ok) \<Rightarrow>
               let s1 = s\<lparr>sv_budget := budget\<rparr> in
               if \<not> ok then (Some (writeFailure ''p2p.rate_limited'' 429), s1)
               else if rq_TLS rq = None then (Some (writeFailure ''p2p.tls_required'' 403), s1)
               else if rq_RawQuery rq \<noteq> [] then (Some (writeFailure ''p2p.invalid_request'' 400), s1)
               else (None, s1)))"

text \<open>\<open>authenticate\<close>, and the bearer token of the user routes.\<close>

definition authenticate :: "lib \<Rightarrow> request \<Rightarrow> time \<Rightarrow> Device srv" where
  "authenticate lib rq now =
     (case rq_TLS rq of
        Some [cert] \<Rightarrow> of_store (Authenticate (lib_crypto lib) (Some cert) now)
      | _ \<Rightarrow> throw (P2p ''p2p.device_unauthorized''))"

definition bearer :: "request \<Rightarrow> string option" where
  "bearer rq = (case rq_Authorization rq of
     [header] \<Rightarrow> if take 7 header = ''Bearer '' then Some (drop 7 header) else None
   | _ \<Rightarrow> None)"

definition authenticate_user :: "lib \<Rightarrow> request \<Rightarrow> time \<Rightarrow> (User \<times> string) srv" where
  "authenticate_user lib rq now =
     (case bearer rq of
        None \<Rightarrow> throw (P2p ''p2p.user_unauthorized'')
      | Some token \<Rightarrow> bnd (of_store (AuthenticateUser (lib_crypto lib) token now)) (\<lambda>user. ret (user, token)))"

text \<open>The error of an action, or of the authentication before it, becomes the response.\<close>

definition answered :: "response srv \<Rightarrow> server \<Rightarrow> response \<times> server" where
  "answered m s = (case m s of (Inl e, t) \<Rightarrow> (writeError e, t) | (Inr r, t) \<Rightarrow> (r, t))"

definition dispatch :: "lib \<Rightarrow> env \<Rightarrow> bool \<Rightarrow> route \<Rightarrow> request \<Rightarrow> response srv" where
  "dispatch lib ev accepted rt rq =
     (case rt of
        NoRoute \<Rightarrow> ret (writeFailure ''p2p.unknown_operation'' 404)
      | Public r \<Rightarrow> bnd (public_operation lib ev r rq) (\<lambda>v. ret (Success v))
      | Private r \<Rightarrow> bnd (authenticate_user lib rq (ev_authenticated ev))
          (\<lambda>(user, token). bnd (user_operation lib ev user token r rq) (\<lambda>v. ret (Success v)))
      | Enrolled r \<Rightarrow> bnd (authenticate lib rq (ev_authenticated ev))
          (\<lambda>device. bnd (device_operation lib ev device r rq) (\<lambda>v. ret (Success v)))
      | GetSignals \<Rightarrow> bnd (authenticate lib rq (ev_authenticated ev))
          (\<lambda>device. serveSignals accepted ev rq device))"

definition handle :: "lib \<Rightarrow> env \<Rightarrow> bool \<Rightarrow> route \<Rightarrow> request \<Rightarrow> server \<Rightarrow> response \<times> server" where
  "handle lib ev accepted rt rq s =
     (case admission rq (ev_admitted ev) s of
        (Some r, t) \<Rightarrow> (r, t)
      | (None, t) \<Rightarrow> answered (dispatch lib ev accepted rt rq) t)"

end
