(* ===== verification/ServerRuns.thy ===== *)
theory ServerRuns
  imports Handlers
begin

text \<open>
  Runs of the whole server: requests, signal messages, deliveries and disconnections in any order.  The
  locale \<open>serving\<close> is the contract of every action of the server, to keep the invariants of all its
  parts; it composes as the actions do.
\<close>

section \<open>The contract of the server's actions\<close>

definition server_inv :: "server \<Rightarrow> bool" where
  "server_inv s \<longleftrightarrow> db_inv (st_db s) \<and> attempts_inv (ss_attempts s) \<and> hub_inv (sv_hub s) \<and> lim_inv (sv_budget s)"

definition sessions_inv :: "sessions \<Rightarrow> bool" where
  "sessions_inv s \<longleftrightarrow> db_inv (st_db s) \<and> attempts_inv (ss_attempts s)"

lemma server_parts [simp]:
  fixes s :: server
  shows "st_db (sessions.extend t (sessions.more s)) = st_db t"
    "ss_attempts (sessions.extend t (sessions.more s)) = ss_attempts t"
    "ss_presence (sessions.extend t (sessions.more s)) = ss_presence t"
    "ss_seenSaved (sessions.extend t (sessions.more s)) = ss_seenSaved t"
    "sv_hub (sessions.extend t (sessions.more s)) = sv_hub s"
    "sv_budget (sessions.extend t (sessions.more s)) = sv_budget s"
    "sv_config (sessions.extend t (sessions.more s)) = sv_config s"
  by (cases s, cases t, simp add: sessions.defs)+

lemma server_truncate [simp]:
  fixes s :: server
  shows "st_db (sessions.truncate s) = st_db s" "ss_attempts (sessions.truncate s) = ss_attempts s"
    "ss_presence (sessions.truncate s) = ss_presence s" "ss_seenSaved (sessions.truncate s) = ss_seenSaved s"
    "st_key (sessions.truncate s) = st_key s" "st_serviceID (sessions.truncate s) = st_serviceID s"
  by (cases s, simp add: sessions.defs)+

locale serving =
  fixes m :: "'a srv"
  assumes serves: "server_inv s \<Longrightarrow> server_inv (snd (m s))"
begin

lemma serves_result: "server_inv s \<Longrightarrow> m s = (r, t) \<Longrightarrow> server_inv t"
  using serves [of s] by simp

end

named_theorems serving_intros "closure of the contract of the server's actions"

lemma servingI: "(\<And>s. server_inv s \<Longrightarrow> server_inv (snd (m s))) \<Longrightarrow> serving m"
  by unfold_locales

lemma serving_ret [serving_intros]: "serving (ret x)"
  by (rule servingI) (simp add: ret_def)

lemma serving_throw [serving_intros]: "serving (throw e)"
  by (rule servingI) (simp add: throw_def)

lemma serving_bnd [serving_intros]: "serving m \<Longrightarrow> (\<And>x. serving (f x)) \<Longrightarrow> serving (bnd m f)"
  by (rule servingI) (auto simp: bnd_def split: prod.splits sum.splits dest: serving.serves_result intro: serving.serves)

lemma serving_guard [serving_intros]: "serving m \<Longrightarrow> serving (guard c e m)"
  by (simp add: guard_def serving_throw)

lemma serving_if [serving_intros]: "serving m \<Longrightarrow> serving n \<Longrightarrow> serving (if c then m else n)"
  by simp

lemma serving_attempt [serving_intros]: "serving m \<Longrightarrow> serving (attempt m)"
  by (rule servingI) (auto simp: attempt_def split: prod.splits dest: serving.serves_result)

lemma serving_withStore [serving_intros]: "(\<And>s. serving (f s)) \<Longrightarrow> serving (withStore f)"
  by (rule servingI) (auto simp: withStore_def dest: serving.serves)

lemma serving_sum [serving_intros]:
  "(\<And>e. serving (f e)) \<Longrightarrow> (\<And>x. serving (g x)) \<Longrightarrow> serving (case r of Inl e \<Rightarrow> f e | Inr x \<Rightarrow> g x)"
  by (cases r) auto

lemma serving_prod [serving_intros]: "(\<And>x y. serving (f x y)) \<Longrightarrow> serving (case p of (x, y) \<Rightarrow> f x y)"
  by (cases p) auto

lemma serving_option [serving_intros]:
  "serving m \<Longrightarrow> (\<And>x. serving (f x)) \<Longrightarrow> serving (case r of None \<Rightarrow> m | Some x \<Rightarrow> f x)"
  by (cases r) auto

lemma serving_of_result [serving_intros]: "serving (of_result r)"
  unfolding of_result_def by (intro serving_intros)

lemma serving_on_hub: "(\<And>h. hub_inv h \<Longrightarrow> hub_inv (snd (f h))) \<Longrightarrow> serving (on_hub f)"
proof (rule servingI)
  fix s :: server
  assume f: "\<And>h. hub_inv h \<Longrightarrow> hub_inv (snd (f h))" and "server_inv s"
  with f [of "sv_hub s"] show "server_inv (snd (on_hub f s))"
    by (cases "f (sv_hub s)") (simp add: server_inv_def on_hub_def)
qed

lemma serving_on_sessions: "(\<And>s. sessions_inv s \<Longrightarrow> sessions_inv (snd (m s))) \<Longrightarrow> serving (on_sessions m)"
proof (rule servingI)
  fix s :: server
  assume m: "\<And>s. sessions_inv s \<Longrightarrow> sessions_inv (snd (m s))" and "server_inv s"
  then have "sessions_inv (snd (m (sessions.truncate s)))"
    by (intro m) (simp add: sessions_inv_def server_inv_def)
  with \<open>server_inv s\<close> show "server_inv (snd (on_sessions m s))"
    by (cases "m (sessions.truncate s)") (simp add: server_inv_def sessions_inv_def on_sessions_def)
qed

lemma serving_of_store: "(\<And>s. db_inv (st_db s) \<Longrightarrow> db_inv (st_db (snd (m s)))) \<Longrightarrow> serving (of_store m)"
  unfolding of_store_def by (rule serving_on_sessions) (auto simp: sessions_inv_def on_store_simps)

lemma serving_reading: "reading m \<Longrightarrow> serving (of_store m)"
  by (rule serving_of_store) (simp add: reading.reads)

lemma serving_session_call:
  assumes "\<And>s. db_inv (st_db s) \<Longrightarrow> db_inv (st_db (snd (m s)))"
    "\<And>s. attempts_inv (ss_attempts s) \<Longrightarrow> attempts_inv (ss_attempts (snd (m s)))"
  shows "serving (on_sessions m)"
  by (rule serving_on_sessions) (use assms in \<open>simp add: sessions_inv_def\<close>)

section \<open>Every action keeps it\<close>

lemmas store_serving [serving_intros] = call_keeps [THEN serving_of_store]

lemmas reading_serving [serving_intros] = reads_networks [THEN serving_reading] ReadEnrollment_reading [THEN serving_reading]
  Authenticate_reading [THEN serving_reading] AuthenticateUser_reading [THEN serving_reading]
  Pairs_reading [THEN serving_reading]

lemma session_serving [serving_intros]:
  "serving (on_sessions (Heartbeat i userID tel now))" "serving (on_sessions (Offline i userID))"
  "serving (on_sessions (Begin C pick rnd sender target generation now))"
  "serving (on_sessions (RenewLease C sender pairID attemptID now))"
  "serving (on_sessions (End sender pairID attemptID))" "serving (on_sessions (Admit C sender signal now))"
  by (intro serving_session_call; simp add: session_keeping [THEN keeping.keeps] Heartbeat_attempts Offline_attempts
      Begin_attempts RenewLease_attempts End_attempts Admit_attempts)+

lemma pairIdentity_keeps: "sessions_inv s \<Longrightarrow> sessions_inv (snd (pairIdentity i pairID now s))"
proof -
  have "reading (pairIdentity i pairID now)"
    unfolding pairIdentity_def by (intro contract_intros)
  moreover have "ss_attempts (snd (pairIdentity i pairID now s)) = ss_attempts s"
    by (rule sess_frameI) (simp add: pairIdentity_def getPair_def Pairs_def authorizePair_def sameOwner_def bindingOwner_def
        Device_of_def wp_simps split: option.splits)
  ultimately show "sessions_inv s \<Longrightarrow> ?thesis" by (simp add: sessions_inv_def reading.reads)
qed

lemma pairIdentity_serving [serving_intros]: "serving (on_sessions (pairIdentity i pairID now))"
  by (rule serving_on_sessions) (rule pairIdentity_keeps)

lemma hub_serving [serving_intros]:
  "serving (on_hub (\<lambda>h. hub_send h i v))" "serving (on_hub (\<lambda>h. (Inr (), notifyPair h a b v)))"
  "serving (on_hub (\<lambda>h. (Inr (), hub_leave h i)))"
  "serving (on_hub (\<lambda>h. if c h then hub_register h i else (Inl e, h)))"
  by (rule serving_on_hub; simp add: hub_inv_send notifyPair_def hub_inv_notifyOne hub_inv_leave hub_inv_register)+

lemma reply_serving [serving_intros]: "serving m \<Longrightarrow> serving (reply f m)"
  unfolding reply_def by (intro serving_intros)

lemma with_body_serving [serving_intros]: "(\<And>m. serving (f m)) \<Longrightarrow> serving (with_body fs rq f)"
  unfolding with_body_def by (intro serving_intros)

lemma list_present_serving [serving_intros]: "serving (of_store m) \<Longrightarrow> serving (list_present now userID m)"
  unfolding list_present_def by (intro serving_intros)

lemma public_serving: "serving (public_operation lib ev r rq)"
  by (cases r) (auto simp: server_identity_def intro!: serving_intros)

lemma user_serving: "serving (user_operation lib ev user token r rq)"
  by (cases r) (auto intro!: serving_intros)

lemma deviceOperation_serving: "serving (deviceOperation lib ev device path rq)"
  unfolding deviceOperation_def pair_action_operation_def attempt_operation_def by (intro serving_intros)

lemma device_serving: "serving (device_operation lib ev device r rq)"
  by (cases r) (auto simp: turn_credentials_def intro!: serving_intros deviceOperation_serving)

lemma leave_serving [serving_intros]: "serving (leave_signals i)"
  unfolding leave_signals_def by (intro serving_intros)

lemma serving_err [serving_intros]:
  "(\<And>c. serving (f c)) \<Longrightarrow> serving m \<Longrightarrow> serving (case e of P2p c \<Rightarrow> f c | _ \<Rightarrow> m)"
  by (cases e) auto

lemma serveSignals_serving: "serving (serveSignals accepted ev rq device)"
  unfolding serveSignals_def by (intro serving_intros)

lemma readSignal_serving: "serving (readSignal lib now i is_text data)"
  unfolding readSignal_def relay_signal_def by (intro serving_intros)

lemma writeSignal_serving: "serving (writeSignal written i)"
proof -
  have "serving (on_hub (\<lambda>h. case hub_take h i of (data, h') \<Rightarrow> (Inr data, h')))"
    by (rule serving_on_hub) (metis hub_inv_take case_prod_beta snd_conv)
  then show ?thesis unfolding writeSignal_def by (intro serving_intros)
qed

lemma authentication_serving [serving_intros]:
  "serving (authenticate lib rq now)" "serving (authenticate_user lib rq now)"
  by (auto simp: authenticate_def authenticate_user_def split: option.splits list.splits intro!: serving_intros)

lemma dispatch_serving: "serving (dispatch lib ev accepted rt rq)"
  by (cases rt) (auto simp: dispatch_def intro!: serving_intros public_serving user_serving device_serving serveSignals_serving)

interpretation dispatch: serving "dispatch lib ev accepted rt rq" for lib ev accepted rt rq
  by (rule dispatch_serving)

interpretation readSignal: serving "readSignal lib now i is_text data" for lib now i is_text data
  by (rule readSignal_serving)

interpretation writeSignal: serving "writeSignal written i" for written i
  by (rule writeSignal_serving)

section \<open>Runs\<close>

text \<open>A request arrives; a message of an open socket is read; the writer of a socket takes a message and writes it or
  fails to; a socket closes.\<close>

datatype server_event =
    Arrives env bool route request
  | Message string bool bytes time
  | Taken bool string
  | Gone string

fun server_step :: "lib \<Rightarrow> server_event \<Rightarrow> server \<Rightarrow> server" where
  "server_step lib (Arrives ev accepted rt rq) s = snd (handle lib ev accepted rt rq s)"
| "server_step lib (Message i is_text data now) s =
     (if map_of (sv_hub s) i = None then s else snd (readSignal lib now i is_text data s))"
| "server_step lib (Taken written i) s = snd (writeSignal written i s)"
| "server_step lib (Gone i) s = (if map_of (sv_hub s) i = None then s else snd (leave_signals i s))"

definition server_run :: "lib \<Rightarrow> server_event list \<Rightarrow> server \<Rightarrow> server" where
  "server_run lib events s = fold (server_step lib) events s"

lemma admission_inv: "server_inv s \<Longrightarrow> server_inv (snd (admission rq now s))"
  using allow_inv [of "sv_budget s"]
  by (auto simp: admission_def server_inv_def Let_def split: option.splits prod.splits) (metis fst_conv)+

lemma answered_result: "snd (answered m s) = snd (m s)"
  by (auto simp: answered_def split: prod.splits sum.splits)

lemma handle_inv: "server_inv s \<Longrightarrow> server_inv (snd (handle lib ev accepted rt rq s))"
  using admission_inv [of s rq "ev_admitted ev"]
  by (auto simp: handle_def answered_result split: prod.splits option.splits intro: dispatch.serves)

lemma server_step_inv: "server_inv s \<Longrightarrow> server_inv (server_step lib e s)"
  by (cases e) (simp_all add: handle_inv readSignal.serves writeSignal.serves serving.serves [OF leave_serving])

lemma server_run_inv: "server_inv s \<Longrightarrow> server_inv (server_run lib events s)"
  unfolding server_run_def by (induction events arbitrary: s) (simp_all add: server_step_inv)

lemma NewServer_inv:
  assumes "NewServer lib config st = Inr s" "db_inv (st_db st)"
  shows "server_inv s"
proof -
  have s: "s = sessions.extend (NewSessions st) \<lparr>sv_config = config, sv_budget = newLimiter, sv_hub = newSignalHub\<rparr>"
    using assms(1) by (auto simp: NewServer_def split: sum.splits)
  have "st_db s = st_db st" "ss_attempts s = []" "sv_hub s = []" "sv_budget s = newLimiter"
    unfolding s by (simp_all add: sessions.defs NewSessions_def newSignalHub_def store.defs)
  with assms(2) show ?thesis
    by (simp add: server_inv_def attempts_inv_def one_link_def hub_inv_def newLimiter_inv)
qed

section \<open>What authentication leaves alone\<close>

text \<open>Only the request budget has changed (and the fault schedule of the model).\<close>

definition untouched :: "server \<Rightarrow> server \<Rightarrow> bool" where
  "untouched s t \<longleftrightarrow> (\<exists>fs b. t = s\<lparr>st_faults := fs, sv_budget := b\<rparr>)"

text \<open>The request carries credentials that the route asks for and that are accepted.\<close>

definition credentials :: "lib \<Rightarrow> env \<Rightarrow> route \<Rightarrow> request \<Rightarrow> server \<Rightarrow> bool" where
  "credentials lib ev rt rq s = (case rt of
     Public _ \<Rightarrow> True
   | Private _ \<Rightarrow> \<not> isl (fst (authenticate_user lib rq (ev_authenticated ev) s))
   | NoRoute \<Rightarrow> False
   | _ \<Rightarrow> \<not> isl (fst (authenticate lib rq (ev_authenticated ev) s)))"

lemma untouched_refl: "untouched s s"
  unfolding untouched_def by (rule exI [of _ "st_faults s"], rule exI [of _ "sv_budget s"]) simp

end
