(* ===== verification/Attempts.thy ===== *)
theory Attempts
  imports ServerRuns
begin

text \<open>
  An attempt over HTTP: the lease is begun, its target told through the hub, and the attempt taken back
  when that fails.
\<close>

lemma dropExpired_old: "x \<in> set (dropExpired now h) \<Longrightarrow> x \<in> set h"
  by (auto simp: dropExpired_def)

lemma delete_update_old: "x \<in> set (AList.delete k (AList.update k a h)) \<Longrightarrow> x \<in> set h"
  by (induction h) (auto simp: AList.delete_eq split: if_splits)

lemma sessions_of_server:
  fixes s :: server and t :: sessions
  shows "sessions.truncate (sessions.extend t (sessions.more s)\<lparr>sv_hub := h\<rparr>) = t"
  by (cases s, cases t) (simp add: sessions.defs)

lemma Begin_error_attempts:
  "wp (Begin C pick rnd sender target generation now) (\<lambda>_ _. True) (\<lambda>_ t. set (ss_attempts t) \<subseteq> set (ss_attempts s)) s"
  unfolding Begin_def
  by (auto simp: wp_simps Let_def tickedD intro!: sameNetwork_wp checkEnd_wp Device_of_wp sharedNetworkID_wp)
    (erule dropExpired_old)+

lemma map_of_peers: "map_of (map (\<lambda>(j, p). (j, if j = i then f p else p)) h) i = map_option f (map_of h i)"
  by (induction h) auto

lemma hub_send_told:
  assumes "hub_send h i (Some data) = (Inr (), h')"
  obtains peer where "map_of h i = Some peer"
    "map_of h' i = Some (peer\<lparr>peer_outgoing := peer_outgoing peer @ [data]\<rparr>)"
  using assms by (auto simp: hub_send_def map_of_peers split: if_splits option.splits)

lemma hub_send_Inl: "hub_send h i v = (Inl e, h') \<Longrightarrow> h' = h"
  by (auto simp: hub_send_def split: if_splits option.splits)

text \<open>What a request for an attempt has done.\<close>

definition attempt_outcome :: "err + Lease \<Rightarrow> server \<Rightarrow> server \<Rightarrow> bool" where
  "attempt_outcome r s t = (case r of
     Inl _ \<Rightarrow> set (ss_attempts t) \<subseteq> set (ss_attempts s) \<and> sv_hub t = sv_hub s
   | Inr lease \<Rightarrow> map_of (ss_attempts t) (lse_ToDeviceID lease) = Some (new_attempt lease)
       \<and> (\<exists>peer. map_of (sv_hub s) (lse_ToDeviceID lease) = Some peer
            \<and> map_of (sv_hub t) (lse_ToDeviceID lease)
                = Some (peer\<lparr>peer_outgoing := peer_outgoing peer @ [marshal (attempt_message lease)]\<rparr>)))"

lemma End_taken_back:
  assumes "map_of (ss_attempts u) (lse_PairID lease) = Some (new_attempt lease)"
  shows "ss_attempts (snd (End (lse_FromDeviceID lease) (lse_PairID lease) (lse_AttemptID lease) u))
    = AList.delete (lse_PairID lease) (ss_attempts u)"
  using assms by (simp add: End_def withStore_def guard_def modify_def new_attempt_def)

text \<open>The target is told of the new lease, or the attempt is taken back.\<close>

lemma begun_outcome:
  fixes s :: server
  defines "begin_of \<equiv> \<lambda>lib ev device m. Begin (lib_crypto lib) (lib_pick lib) (ev_rnd ev) (dev_ID device)
    (str_field m ''pairId'') (nat (int_field m ''generation'')) (ev_now ev) (sessions.truncate s)"
  assumes b: "begin_of lib ev device m = (Inr lease, u)"
    and lease: "lse_ToDeviceID lease = lse_PairID lease" "lse_FromDeviceID lease = dev_ID device"
    and at: "ss_attempts u = AList.update (lse_PairID lease) (new_attempt lease) (dropExpired (ev_now ev) (ss_attempts s))"
    and run: "attempt_operation lib ev device m s = (r, t)" "lse_PairID lease = str_field m ''pairId''"
  shows "attempt_outcome r s t"
proof -
  have here: "map_of (ss_attempts u) (lse_PairID lease) = Some (new_attempt lease)"
    unfolding at by (simp add: update_conv')
  obtain q h where sent: "hub_send (sv_hub s) (lse_ToDeviceID lease) (Some (marshal (attempt_message lease))) = (q, h)"
    by fastforce
  show ?thesis
  proof (cases q)
    case (Inl e)
    with sent have h: "h = sv_hub s" by (auto dest: hub_send_Inl)
    have old: "x \<in> set (ss_attempts s)" if "x \<in> set (AList.delete (lse_PairID lease) (ss_attempts u))" for x
      using that unfolding at by (metis delete_update_old dropExpired_old)
    with b sent Inl run old End_taken_back [of u lease] here h lease show ?thesis
      by (auto simp: begin_of_def attempt_operation_def on_sessions_def on_hub_def bnd_def attempt_def throw_def
          attempt_outcome_def sessions_of_server split: prod.splits sum.splits)
  next
    case (Inr v)
    with sent have "hub_send (sv_hub s) (lse_ToDeviceID lease) (Some (marshal (attempt_message lease))) = (Inr (), h)" by simp
    from hub_send_told [OF this] obtain peer where "map_of (sv_hub s) (lse_ToDeviceID lease) = Some peer"
      "map_of h (lse_ToDeviceID lease) = Some (peer\<lparr>peer_outgoing := peer_outgoing peer @ [marshal (attempt_message lease)]\<rparr>)" .
    with b sent Inr run here lease show ?thesis
      by (auto simp: begin_of_def attempt_operation_def on_sessions_def on_hub_def bnd_def attempt_def ret_def
          attempt_outcome_def split: prod.splits sum.splits)
  qed
qed

lemma attempt_operation_outcome:
  assumes "picks (lib_pick lib)" "zero_time + 30 * second \<le> ev_now ev" "attempt_operation lib ev device m s = (r, t)"
  shows "attempt_outcome r s t"
proof -
  let ?u = "sessions.truncate s"
  let ?begun = "Begin (lib_crypto lib) (lib_pick lib) (ev_rnd ev) (dev_ID device) (str_field m ''pairId'')
      (nat (int_field m ''generation'')) (ev_now ev) ?u"
  show ?thesis
  proof (cases "fst ?begun")
    case (Inl e)
    then have b: "?begun = (Inl e, snd ?begun)" by (simp add: prod_eq_iff)
    then have "set (ss_attempts (snd ?begun)) \<subseteq> set (ss_attempts ?u)"
      using Begin_error_attempts by (rule wpD(2) [rotated])
    with b assms(3) show ?thesis
      by (auto simp: attempt_operation_def on_sessions_def bnd_def attempt_outcome_def split: prod.splits)
  next
    case (Inr lease)
    then have b: "?begun = (Inr lease, snd ?begun)" by (simp add: prod_eq_iff)
    have "begun (lib_crypto lib) (ev_rnd ev) (dev_ID device) (str_field m ''pairId'') (nat (int_field m ''generation''))
        (ev_now ev) ?u lease (snd ?begun)"
      using b by (rule wpD(1) [rotated]) (rule Begin_wp, use assms(1,2) in \<open>auto simp: picks_def\<close>)
    then show ?thesis
      by (intro begun_outcome [OF b _ _ _ assms(3)]) (auto simp: begun_def new_lease_def signLease_def)
  qed
qed

end
