(* ===== verification/Columns.thy ===== *)
theory Columns
  imports PairBook
begin

text \<open>
  What the columns of the database can hold.  The schema gives every column one of SQLite's storage classes and no
  more; the checks of the store's methods are what makes an identifier, a name, a digest or a report of a device
  one.  A call that draws its random bytes keeps every column typed: \<open>typing C\<close> is a preorder in the
  sense of \<open>PairBook\<close>, so the contract \<open>following\<close> carries the proof from the statements to the calls.
\<close>

section \<open>The types of the columns\<close>

definition digest_text :: "string \<Rightarrow> bool" where
  "digest_text t \<longleftrightarrow> length t = 64 \<and> list_all lower_hex t"

definition build_text :: "string \<Rightarrow> bool" where
  "build_text t \<longleftrightarrow> length t \<le> 64 \<and> t = trim_space t \<and> \<not> contains_any t line_breaks"

definition audit_events :: "string list" where
  "audit_events = [''user-disabled'', ''network-limit'', ''network-deleted'', ''device-unbound'', ''pair-deleted'',
     ''enrolled'', ''network-join'', ''device-revoked'']"

definition typed_user :: "user_row \<Rightarrow> bool" where
  "typed_user r \<longleftrightarrow> ValidID (u_id r) \<and> emailPattern (u_email r) \<and> length (u_email r) \<le> 254"

definition typed_session :: "session_row \<Rightarrow> bool" where
  "typed_session r \<longleftrightarrow> digest_text (us_hash r) \<and> ValidID (us_user r)"

definition typed_network :: "network_row \<Rightarrow> bool" where
  "typed_network r \<longleftrightarrow> ValidID (n_id r) \<and> ValidID (n_user r) \<and> validName (n_name r) \<and> validNetworkLimit (n_max r)"

definition typed_token :: "token_row \<Rightarrow> bool" where
  "typed_token r \<longleftrightarrow> digest_text (t_hash r) \<and> ValidID (t_user r) \<and> ValidID (t_network r)"

text \<open>A device is named by its key.\<close>

definition typed_device :: "crypto \<Rightarrow> device_row \<Rightarrow> bool" where
  "typed_device C r \<longleftrightarrow> d_id r = KeyID C (d_key r) \<and> ValidID (d_user r) \<and> enrollName (d_name r) \<and> ValidID (d_request r)
     \<and> build_text (d_version r) \<and> build_text (d_platform r) \<and> build_text (d_arch r)"

definition typed_link :: "string \<times> string \<Rightarrow> bool" where
  "typed_link l \<longleftrightarrow> ValidID (fst l) \<and> ValidID (snd l)"

definition typed_binding :: "binding_row \<Rightarrow> bool" where
  "typed_binding r \<longleftrightarrow> ValidID (b_network r) \<and> ValidID (b_device r)"

definition typed_share :: "share_row \<Rightarrow> bool" where
  "typed_share r \<longleftrightarrow> ValidID (s_nonce r) \<and> ValidID (s_device r) \<and> ValidID (s_network r)"

definition typed_pair :: "pair_row \<Rightarrow> bool" where
  "typed_pair r \<longleftrightarrow> ValidID (p_id r) \<and> ValidID (p_network r) \<and> ValidID (p_initiator r) \<and> ValidID (p_target r)"

definition typed_renewal :: "renewal_row \<Rightarrow> bool" where
  "typed_renewal r \<longleftrightarrow> ValidID (r_device r) \<and> ValidID (r_request r)"

lemmas row_types = typed_user_def typed_session_def typed_network_def typed_token_def typed_device_def typed_link_def
  typed_binding_def typed_share_def typed_pair_def typed_renewal_def

definition typed_db :: "crypto \<Rightarrow> db \<Rightarrow> bool" where
  "typed_db C d \<longleftrightarrow> list_all typed_user (users d) \<and> list_all typed_session (user_sessions d)
     \<and> list_all typed_network (networks d) \<and> list_all typed_token (tokens d) \<and> list_all (typed_device C) (devices d)
     \<and> list_all typed_link (device_users d) \<and> list_all typed_binding (bindings d) \<and> list_all typed_share (shares d)
     \<and> list_all typed_pair (pairs d) \<and> list_all typed_renewal (renewals d)
     \<and> list_all (\<lambda>r. a_event r \<in> set audit_events) (audit d)"

lemma typed_empty: "typed_db C empty_db"
  by (simp add: typed_db_def empty_db_def)

definition typing :: "crypto \<Rightarrow> db \<Rightarrow> db \<Rightarrow> bool" where
  "typing C d d' \<longleftrightarrow> (typed_db C d \<longrightarrow> typed_db C d')"

interpretation typing: db_preorder "typing C" for C
  by unfold_locales (auto simp: typing_def)

section \<open>The statements\<close>

lemma digest_digest: "sound_crypto C \<Longrightarrow> digest_text (digest C t)"
  by (simp add: digest_text_def digest_def hex_encode_lower sound_crypto_def)

lemma typed_ids:
  assumes "sound_crypto C" "typed_db C d"
  shows "u \<in> set (users d) \<Longrightarrow> ValidID (u_id u)" "n \<in> set (networks d) \<Longrightarrow> ValidID (n_id n)"
    "r \<in> set (devices d) \<Longrightarrow> ValidID (d_id r)"
  using assms by (auto simp: typed_db_def row_types list_all_iff ValidID_KeyID)

lemma typingI: "(typed_db C d \<Longrightarrow> typed_db C d') \<Longrightarrow> typing C d d'"
  by (simp add: typing_def)

lemma typed_append:
  "typed_db C d \<Longrightarrow> typed_user ru \<Longrightarrow> typed_db C (d\<lparr>users := users d @ [ru]\<rparr>)"
  "typed_db C d \<Longrightarrow> typed_session rs \<Longrightarrow> typed_db C (d\<lparr>user_sessions := user_sessions d @ [rs]\<rparr>)"
  "typed_db C d \<Longrightarrow> typed_network rn \<Longrightarrow> typed_db C (d\<lparr>networks := networks d @ [rn]\<rparr>)"
  "typed_db C d \<Longrightarrow> typed_token rt \<Longrightarrow> typed_db C (d\<lparr>tokens := tokens d @ [rt]\<rparr>)"
  "typed_db C d \<Longrightarrow> typed_device C rd \<Longrightarrow> typed_db C (d\<lparr>devices := devices d @ [rd]\<rparr>)"
  "typed_db C d \<Longrightarrow> typed_link rl \<Longrightarrow> typed_db C (d\<lparr>device_users := device_users d @ [rl]\<rparr>)"
  "typed_db C d \<Longrightarrow> typed_binding rb \<Longrightarrow> typed_db C (d\<lparr>bindings := bindings d @ [rb]\<rparr>)"
  "typed_db C d \<Longrightarrow> typed_share rh \<Longrightarrow> typed_db C (d\<lparr>shares := shares d @ [rh]\<rparr>)"
  "typed_db C d \<Longrightarrow> typed_pair rp \<Longrightarrow> typed_db C (d\<lparr>pairs := pairs d @ [rp]\<rparr>)"
  "typed_db C d \<Longrightarrow> typed_renewal rr \<Longrightarrow> typed_db C (d\<lparr>renewals := renewals d @ [rr]\<rparr>)"
  by (simp_all add: typed_db_def)

lemma list_all_update_where: "list_all T rs \<Longrightarrow> (\<And>r. T r \<Longrightarrow> P r \<Longrightarrow> T (f r)) \<Longrightarrow> list_all T (update_where P f rs)"
  by (auto simp: list_all_iff in_update_where)

text \<open>An insertion has to type the columns of its own; those that refer to a row are typed by that row.\<close>

lemma typing_ins_accounts:
  assumes C: "sound_crypto C"
  shows "ins_user ru d = Some d' \<Longrightarrow> typed_user ru \<Longrightarrow> typing C d d'"
    "ins_session rs d = Some d' \<Longrightarrow> digest_text (us_hash rs) \<Longrightarrow> typing C d d'"
    "ins_network rn d = Some d' \<Longrightarrow> ValidID (n_id rn) \<Longrightarrow> validName (n_name rn) \<Longrightarrow> validNetworkLimit (n_max rn) \<Longrightarrow> typing C d d'"
    "ins_token rt d = Some d' \<Longrightarrow> digest_text (t_hash rt) \<Longrightarrow> typing C d d'"
    "ins_audit ev sub at d = Some d' \<Longrightarrow> ev \<in> set audit_events \<Longrightarrow> typing C d d'"
proof -
  note ids = typed_ids [OF C]
  show "ins_user ru d = Some d' \<Longrightarrow> typed_user ru \<Longrightarrow> typing C d d'"
    by (rule typingI) (auto simp: ins_user_def intro: typed_append split: if_splits)
  show "ins_session rs d = Some d' \<Longrightarrow> digest_text (us_hash rs) \<Longrightarrow> typing C d d'"
    by (rule typingI) (auto simp: ins_session_def typed_session_def intro!: typed_append intro: ids split: if_splits)
  show "ins_network rn d = Some d' \<Longrightarrow> ValidID (n_id rn) \<Longrightarrow> validName (n_name rn) \<Longrightarrow> validNetworkLimit (n_max rn) \<Longrightarrow> typing C d d'"
    by (rule typingI) (auto simp: ins_network_def typed_network_def intro!: typed_append intro: ids split: if_splits)
  show "ins_token rt d = Some d' \<Longrightarrow> digest_text (t_hash rt) \<Longrightarrow> typing C d d'"
    by (rule typingI) (auto simp: ins_token_def typed_token_def intro!: typed_append intro: ids split: if_splits)
  show "ins_audit ev sub at d = Some d' \<Longrightarrow> ev \<in> set audit_events \<Longrightarrow> typing C d d'"
    by (rule typingI) (auto simp: ins_audit_def typed_db_def)
qed

lemma typing_ins_devices:
  assumes C: "sound_crypto C"
  shows "ins_device rd d = Some d' \<Longrightarrow> d_id rd = KeyID C (d_key rd) \<Longrightarrow> enrollName (d_name rd) \<Longrightarrow> ValidID (d_request rd) \<Longrightarrow>
       build_text (d_version rd) \<Longrightarrow> build_text (d_platform rd) \<Longrightarrow> build_text (d_arch rd) \<Longrightarrow> typing C d d'"
    "link_device dev usr d = Some d' \<Longrightarrow> typing C d d'" "bind_active net dev d = Some d' \<Longrightarrow> typing C d d'"
    "ins_share rh d = Some d' \<Longrightarrow> ValidID (s_nonce rh) \<Longrightarrow> typing C d d'"
    "ins_pair rp d = Some d' \<Longrightarrow> ValidID (p_id rp) \<Longrightarrow> typing C d d'"
    "ins_renewal rr d = Some d' \<Longrightarrow> ValidID (r_request rr) \<Longrightarrow> typing C d d'"
proof -
  note ids = typed_ids [OF C]
  show "ins_device rd d = Some d' \<Longrightarrow> d_id rd = KeyID C (d_key rd) \<Longrightarrow> enrollName (d_name rd) \<Longrightarrow> ValidID (d_request rd) \<Longrightarrow>
       build_text (d_version rd) \<Longrightarrow> build_text (d_platform rd) \<Longrightarrow> build_text (d_arch rd) \<Longrightarrow> typing C d d'"
    by (rule typingI) (auto simp: ins_device_def typed_device_def intro!: typed_append intro: ids split: if_splits)
  show "link_device dev usr d = Some d' \<Longrightarrow> typing C d d'"
    by (rule typingI) (auto simp: link_device_def typed_link_def intro!: typed_append intro: ids split: if_splits)
  have kept: "typed_db C d \<Longrightarrow> typed_db C (d\<lparr>bindings := update_where P (\<lambda>b. b\<lparr>b_active := True\<rparr>) (bindings d)\<rparr>)" for P
    by (auto simp: typed_db_def typed_binding_def intro!: list_all_update_where)
  show "bind_active net dev d = Some d' \<Longrightarrow> typing C d d'"
    by (rule typingI) (auto simp: bind_active_def typed_binding_def intro!: typed_append kept intro: ids split: if_splits)
  show "ins_share rh d = Some d' \<Longrightarrow> ValidID (s_nonce rh) \<Longrightarrow> typing C d d'"
    by (rule typingI) (auto simp: ins_share_def typed_share_def intro!: typed_append intro: ids split: if_splits)
  show "ins_pair rp d = Some d' \<Longrightarrow> ValidID (p_id rp) \<Longrightarrow> typing C d d'"
    by (rule typingI) (auto simp: ins_pair_def typed_pair_def intro!: typed_append intro: ids split: if_splits)
  show "ins_renewal rr d = Some d' \<Longrightarrow> ValidID (r_request rr) \<Longrightarrow> typing C d d'"
    by (rule typingI) (auto simp: ins_renewal_def typed_renewal_def intro!: typed_append intro: ids split: if_splits)
qed

lemma typed_set_state: "typed_pair (set_state st r) = typed_pair r"
  by (simp add: typed_pair_def)

lemma typing_upd:
  "(\<And>r. typed_user r \<Longrightarrow> P1 r \<Longrightarrow> typed_user (f1 r)) \<Longrightarrow> typing C d (fst (upd_users P1 f1 d))"
  "typing C d (fst (del_sessions P2 d))"
  "(\<And>r. typed_network r \<Longrightarrow> P3 r \<Longrightarrow> typed_network (f3 r)) \<Longrightarrow> typing C d (fst (upd_networks P3 f3 d))"
  "(\<And>r. typed_token r \<Longrightarrow> P4 r \<Longrightarrow> typed_token (f4 r)) \<Longrightarrow> typing C d (fst (upd_tokens P4 f4 d))"
  "(\<And>r. typed_device C r \<Longrightarrow> P5 r \<Longrightarrow> typed_device C (f5 r)) \<Longrightarrow> typing C d (fst (upd_devices P5 f5 d))"
  "(\<And>r. typed_binding r \<Longrightarrow> P6 r \<Longrightarrow> typed_binding (f6 r)) \<Longrightarrow> typing C d (fst (upd_bindings P6 f6 d))"
  "(\<And>r. typed_share r \<Longrightarrow> P7 r \<Longrightarrow> typed_share (f7 r)) \<Longrightarrow> typing C d (fst (upd_shares P7 f7 d))"
  "typing C d (fst (upd_pairs P8 (set_state st) d))"
  by (rule typingI, simp add: typed_db_def upd_defs list_all_update_where typed_set_state, (auto simp: list_all_iff)?)+

section \<open>The calls\<close>

text \<open>The condition of a guard holds in what it guards, and a case is left with its result.\<close>

named_theorems typing_intros "closure of the typed actions"

lemma following_guarded [typing_intros]:
  "(\<And>d. R d d) \<Longrightarrow> (c \<Longrightarrow> following R m) \<Longrightarrow> following R (guard c e m)"
  by (auto simp: guard_def following_def throw_def)

lemma following_cond [typing_intros]:
  "(c \<Longrightarrow> following R m) \<Longrightarrow> (\<not> c \<Longrightarrow> following R n) \<Longrightarrow> following R (if c then m else n)"
  by simp

lemma typing_same [typing_intros]: "typing C d d"
  by (rule typing.same)

lemmas [typing_intros] = typing.following_ret typing.following_throw typing.following_bnd typing.following_sum typing.following_option
  typing.following_prod typing.following_mapErr typing.following_attempt typing.following_withStore typing.following_queries
  typing.following_execInsert typing.following_execUpdate typing.following_execSelect typing.following_transaction

lemmas typing_readers [typing_intros] = Device_of_reading [THEN typing.following_reading]
  networkOwned_reading [THEN typing.following_reading] bindingOwner_reading [THEN typing.following_reading]
  reads_networks [THEN typing.following_reading] tokenScope_reading [THEN typing.following_reading]
  Authenticate_reading [THEN typing.following_reading] pairing_readers [THEN typing.following_reading]

lemma typing_select:
  assumes "sound_crypto C"
  shows "ins_session_of h e u d = Some (d', n) \<Longrightarrow> digest_text h \<Longrightarrow> typing C d d'"
    "ins_network_of i name m userID d = Some (d', n) \<Longrightarrow> ValidID i \<Longrightarrow> validName name \<Longrightarrow> validNetworkLimit m \<Longrightarrow> typing C d d'"
    "upd_request name req i d = Some d' \<Longrightarrow> enrollName name \<Longrightarrow> ValidID req \<Longrightarrow> typing C d d'"
  using typing_ins_accounts(2,3) [OF assms] typing_same
  by (auto simp: ins_session_of_def ins_network_of_def upd_request_def typed_device_def split: if_splits intro!: typing_upd)

lemmas typing_statements = typing_ins_accounts typing_ins_devices typing_select

lemma users_typing:
  assumes "sound_crypto C"
  shows "length rnd = 6 \<Longrightarrow> following (typing C) (CreateUser C salt rnd email password)"
    "following (typing C) (Logout C token)" "following (typing C) (DisableUser i now)"
    "following (typing C) (login_body C secret username password now)"
  unfolding CreateUser_def Logout_def DisableUser_def login_body_def Let_def
  by (intro typing_intros; auto simp: typed_user_def ValidID_NewID digest_digest [OF assms] audit_events_def
      dest: typing_statements [OF assms] intro: typing_upd)+

lemma networks_typing:
  assumes "sound_crypto C"
  shows "length rnd = 6 \<Longrightarrow> following (typing C) (CreateNetwork rnd userID name)"
    "following (typing C) (RenameNetwork userID i name)" "following (typing C) (UpdateNetworkLimit now userID i maxDevices)"
    "following (typing C) (DeleteNetwork userID i now)" "following (typing C) (BindDevice userID networkID deviceID)"
    "following (typing C) (UnbindDevice userID networkID deviceID now)" "following (typing C) (DeletePair userID networkID pairID now)"
  unfolding CreateNetwork_def countNetworks_def insertNetwork_def RenameNetwork_def UpdateNetworkLimit_def DeleteNetwork_def
    BindDevice_def UnbindDevice_def DeletePair_def Let_def
  by (intro typing_intros; auto simp: row_types ValidID_NewID DefaultNetworkLimit_def validNetworkLimit_def audit_events_def
      dest: typing_statements [OF assms] intro!: typing_upd)+

lemma build_texts: "telemetry_valid t \<longleftrightarrow> build_text (tel_Version t) \<and> build_text (tel_Platform t) \<and> build_text (tel_Architecture t)"
  by (simp add: telemetry_valid_def build_text_def)

lemma build_text_empty [simp]: "build_text []"
  by (simp add: build_text_def contains_any_def trim_space_def trim_left.simps trim_right.simps)

lemma typed_set_seen:
  "typed_device C r \<Longrightarrow> telemetry_valid t \<Longrightarrow> typed_device C (set_seen seen t r)"
  "typed_device C r \<Longrightarrow> typed_device C (set_seen seen no_telemetry r)"
  by (auto simp: typed_device_def set_seen_def build_texts no_telemetry_def)

lemma knownDevice_typing:
  assumes "sound_crypto C" "dev_ID device = KeyID C (dev_PublicKey device)" "enrollName (dev_Name device)" "ValidID requestID"
  shows "following (typing C) (knownDevice device requestID)"
  unfolding knownDevice_def
  by (intro typing_intros) (auto simp: new_device_def assms dest: typing_statements [OF assms(1)])

lemma admitDevice_typing:
  assumes "sound_crypto C" "event \<in> set audit_events"
  shows "following (typing C) (admitDevice event device networkID now)"
  unfolding admitDevice_def by (intro typing_intros) (auto simp: assms dest: typing_statements [OF assms(1)])

lemma consumeToken_typing: "following (typing C) (consumeToken C token now)"
  unfolding consumeToken_def by (intro typing_intros) (auto simp: typed_token_def intro!: typing_upd)

lemma enrolment_typing:
  assumes "sound_crypto C"
  shows "following (typing C) (RecordDeviceSeen i tel now)" "following (typing C) (IssueEnrollmentToken C secret userID networkID now)"
    "following (typing C) (Enroll C serial request now)" "following (typing C) (JoinNetwork C serial request' now)"
  unfolding RecordDeviceSeen_def IssueEnrollmentToken_def Enroll_def JoinNetwork_def Let_def
  by (intro typing_intros knownDevice_typing admitDevice_typing consumeToken_typing;
      auto simp: assms digest_digest typed_set_seen audit_events_def dest: typing_statements [OF assms] intro!: typing_upd)+

lemma replaceCertificate_typing:
  assumes "sound_crypto C" "ValidID requestID"
  shows "following (typing C) (replaceCertificate C serial device requestID token now)"
  unfolding replaceCertificate_def spendToken_def
  by (intro typing_intros consumeToken_typing; auto simp: assms typed_device_def dest: typing_statements [OF assms(1)] intro!: typing_upd)

lemma certificates_typing:
  assumes "sound_crypto C"
  shows "following (typing C) (Renew C serial cert request now)" "following (typing C) (RecoverCertificate C serial request' now)"
    "following (typing C) (RevokeDevice i now)"
  unfolding Renew_def RecoverCertificate_def RevokeDevice_def
  by (intro typing_intros replaceCertificate_typing; auto simp: assms typed_device_def audit_events_def
      dest: typing_statements [OF assms] intro!: typing_upd)+

lemma pairing_typing:
  assumes "sound_crypto C" "length rnd = 6"
  shows "following (typing C) (mintShare C rnd i networkID now)" "following (typing C) (Invite C rnd sender share now)"
    "following (typing C) (adopt rnd initiator target networkID now)"
  unfolding mintShare_def Invite_def adopt_def Let_def
  by (intro typing_intros; auto simp: row_of_def new_share_def typed_share_def ValidID_NewID assms
      dest: typing_statements [OF assms(1)] intro!: typing_upd)+

lemma adoptAll_typing:
  assumes "sound_crypto C"
  shows "\<forall>n. length (rnds n) = 6 \<Longrightarrow> following (typing C) (adoptAll rnds deviceID now peers adopted)"
  by (induction rnds deviceID now peers adopted rule: adoptAll.induct)
    (simp_all, (intro typing_intros pairing_typing [OF assms]; simp)+)

lemma AdoptNetwork_typing:
  "sound_crypto C \<Longrightarrow> \<forall>n. length (rnds n) = 6 \<Longrightarrow> following (typing C) (AdoptNetwork rnds deviceID now)"
  unfolding AdoptNetwork_def by (intro typing_intros adoptAll_typing)

lemma ActOnPair_typing: "following (typing C) (ActOnPair C deviceID pairID action fingerprint now)"
  unfolding ActOnPair_def by (intro typing_intros typing_upd)

lemma Login_typing: "sound_crypto C \<Longrightarrow> following (typing C) (Login C secret username password now)"
proof (rule followingI)
  fix s :: "'z store_scheme" and r t
  assume "sound_crypto C" "Login C secret username password now s = (r, t)"
  then show "typing C (st_db s) (st_db t)"
    using followingD [OF users_typing(4) [of C secret username password now], of "s\<lparr>st_logins := st_logins s + 1\<rparr>"] typing.same
    by (fastforce simp: Login_def split: if_splits prod.splits)
qed

lemmas calls_typing = users_typing(1-3) Login_typing networks_typing enrolment_typing certificates_typing pairing_typing(1,2)
  AdoptNetwork_typing ActOnPair_typing

text \<open>The random bytes a call draws for identifiers.\<close>

fun drawn :: "call \<Rightarrow> bool" where
  "drawn (CallCreateUser salt rnd email password) \<longleftrightarrow> length rnd = 6"
| "drawn (CallCreateNetwork rnd userID name) \<longleftrightarrow> length rnd = 6"
| "drawn (CallShare rnd i networkID now) \<longleftrightarrow> length rnd = 6"
| "drawn (CallInvite rnd sender share now) \<longleftrightarrow> length rnd = 6"
| "drawn (CallAdoptNetwork rnds deviceID now) \<longleftrightarrow> (\<forall>n. length (rnds n) = 6)"
| "drawn _ \<longleftrightarrow> True"

lemma perform_typing:
  "sound_crypto C \<Longrightarrow> drawn c \<Longrightarrow> typing C (st_db s) (st_db (snd (perform C c s)))"
  by (cases c) (simp_all add: only_error_result calls_typing [unfolded following_def, rule_format], simp add: modify_def typing.same)

lemma run_typing: "sound_crypto C \<Longrightarrow> list_all drawn cs \<Longrightarrow> typing C (st_db s) (st_db (run C cs s))"
  by (induction cs arbitrary: s) (auto intro: typing.same typing.chain perform_typing)

end
