(* ===== verification/TypedServer.thy ===== *)
theory TypedServer
  imports Columns ServerRuns
begin

text \<open>
  The columns stay typed whatever the server does: the contract of \<open>Columns\<close> carried from the methods of the store
  to the session calls, the endpoints and the runs of the server.
\<close>

section \<open>From the store to the server\<close>

lemma following_on_store [typing_intros]: "following R m \<Longrightarrow> following R (on_store m)"
  unfolding following_def by (simp add: on_store_simps(1), metis on_store_simps(3))

lemma following_on_sessions [typing_intros]: "following R m \<Longrightarrow> following R (on_sessions m)"
proof (rule followingI)
  fix s :: server and r t
  assume m: "following R m" and "on_sessions m s = (r, t)"
  then have "st_db t = st_db (snd (m (sessions.truncate s)))" by (auto simp: on_sessions_def split: prod.splits)
  with m show "R (st_db s) (st_db t)" by (metis following_def server_truncate(1))
qed

lemma following_on_hub [typing_intros]: "(\<And>d. R d d) \<Longrightarrow> following R (on_hub f)"
  by (rule followingI) (auto simp: on_hub_def split: prod.splits)

lemma following_modify: "(\<And>d. R d d) \<Longrightarrow> (\<And>s. st_db (f s) = st_db s) \<Longrightarrow> following R (modify f)"
  by (simp add: following_def modify_def)

lemma following_err [typing_intros]:
  "(\<And>c. following R (f c)) \<Longrightarrow> following R m \<Longrightarrow> following R (case e of P2p c \<Rightarrow> f c | _ \<Rightarrow> m)"
  by (cases e) auto

lemmas session_defs = Heartbeat_def Offline_def Begin_def RenewLease_def End_def Admit_def markPresence_def checkEnd_def
  authorize_def lift_def pairIdentity_def

lemma sessions_typing [typing_intros]:
  assumes "sound_crypto C"
  shows "following (typing C) (Heartbeat i userID tel now)" "following (typing C) (Offline i userID)"
    "following (typing C) (Begin C pick rnd sender target generation now)" "following (typing C) (RenewLease C sender pairID attemptID now)"
    "following (typing C) (End sender pairID attemptID)" "following (typing C) (Admit C sender signal now)"
    "following (typing C) (pairIdentity i pairID now)"
  unfolding session_defs Let_def
  by (intro typing_intros following_modify calls_typing assms; simp)+

lemma answers_typing [typing_intros]:
  "following (typing C) (of_result r)" "following (typing C) m \<Longrightarrow> following (typing C) (reply f m)"
  "(\<And>x. following (typing C) (g x)) \<Longrightarrow> following (typing C) (with_body fs rq g)"
  "following (typing C) (of_store n) \<Longrightarrow> following (typing C) (list_present now userID n)"
  unfolding with_body_def of_result_def reply_def list_present_def by (intro typing_intros; assumption)+

section \<open>The endpoints\<close>

text \<open>The random bytes of a request: six for each identifier.\<close>

definition drawn_env :: "env \<Rightarrow> bool" where
  "drawn_env ev \<longleftrightarrow> length (ev_rnd ev) = 6 \<and> (\<forall>n. length (ev_rnds ev n) = 6)"

lemma reading_typing: "reading m \<Longrightarrow> following (typing C) (of_store m)"
  unfolding of_store_def by (intro typing_intros typing.following_reading)

lemma sockets_typing [typing_intros]:
  assumes "sound_crypto (lib_crypto lib)"
  shows "following (typing (lib_crypto lib)) (leave_signals i)"
    "following (typing (lib_crypto lib)) (serveSignals accepted ev rq device)"
    "following (typing (lib_crypto lib)) (readSignal lib now i is_text data)"
    "following (typing (lib_crypto lib)) (writeSignal written i)"
  unfolding serveSignals_def readSignal_def writeSignal_def relay_signal_def leave_signals_def by (intro typing_intros assms)+

lemma authentication_typing [typing_intros]:
  "following (typing (lib_crypto lib)) (authenticate lib rq now)"
  "following (typing (lib_crypto lib)) (authenticate_user lib rq now)"
  unfolding authenticate_def authenticate_user_def
  by (auto split: list.splits option.splits intro!: typing_intros reading_typing Authenticate_reading AuthenticateUser_reading)

lemma public_typing:
  assumes "sound_crypto (lib_crypto lib)" "length (ev_rnd ev) = 6"
  shows "following (typing (lib_crypto lib)) (public_operation lib ev r rq)"
  by (cases r; simp add: server_identity_def of_store_def; intro typing_intros calls_typing assms
      typing.following_reading ReadEnrollment_reading)

lemma user_typing:
  assumes "sound_crypto (lib_crypto lib)" "length (ev_rnd ev) = 6"
  shows "following (typing (lib_crypto lib)) (user_operation lib ev user token r rq)"
  by (cases r; simp add: of_store_def; intro typing_intros calls_typing assms reading_typing reads_networks)

lemma deviceOperation_typing:
  assumes "sound_crypto (lib_crypto lib)" "length (ev_rnd ev) = 6" "\<forall>n. length (ev_rnds ev n) = 6"
  shows "following (typing (lib_crypto lib)) (deviceOperation lib ev device path rq)"
  unfolding deviceOperation_def pair_action_operation_def attempt_operation_def of_store_def
  by (intro typing_intros calls_typing assms)

lemma device_typing:
  assumes "sound_crypto (lib_crypto lib)" "length (ev_rnd ev) = 6" "\<forall>n. length (ev_rnds ev n) = 6"
  shows "following (typing (lib_crypto lib)) (device_operation lib ev device r rq)"
  by (cases r; simp add: turn_credentials_def; intro typing_intros deviceOperation_typing assms reading_typing Pairs_reading)

section \<open>Runs\<close>

definition drawn_event :: "server_event \<Rightarrow> bool" where
  "drawn_event e = (case e of Arrives ev accepted rt rq \<Rightarrow> drawn_env ev | _ \<Rightarrow> True)"

lemma dispatch_typing:
  "sound_crypto (lib_crypto lib) \<Longrightarrow> drawn_env ev \<Longrightarrow> following (typing (lib_crypto lib)) (dispatch lib ev accepted rt rq)"
  unfolding dispatch_def by (cases rt) (auto simp: drawn_env_def intro!: typing_intros public_typing user_typing device_typing)

lemma admission_tables: "st_db (snd (admission rq now s)) = st_db s"
  by (simp add: admission_def Let_def split: option.splits prod.splits)

lemma handle_typing:
  assumes "sound_crypto (lib_crypto lib)" "drawn_env ev"
  shows "typing (lib_crypto lib) (st_db s) (st_db (snd (handle lib ev accepted rt rq s)))"
proof -
  obtain r t where t: "admission rq (ev_admitted ev) s = (r, t)" by fastforce
  then have "st_db t = st_db s" using admission_tables [of rq "ev_admitted ev" s] by simp
  moreover have "typing (lib_crypto lib) (st_db t) (st_db (snd (answered (dispatch lib ev accepted rt rq) t)))"
    using dispatch_typing [OF assms] by (simp add: answered_result following_def)
  ultimately show ?thesis by (cases r) (simp_all add: handle_def t typing.same)
qed

lemma server_step_typing:
  assumes "sound_crypto (lib_crypto lib)" "drawn_event e"
  shows "typing (lib_crypto lib) (st_db s) (st_db (server_step lib e s))"
proof (cases e)
  case (Arrives ev accepted rt rq)
  with assms show ?thesis by (simp add: drawn_event_def handle_typing)
qed (use sockets_typing [OF assms(1)] in \<open>simp_all add: following_def typing.same\<close>)

lemma server_run_typing:
  "sound_crypto (lib_crypto lib) \<Longrightarrow> list_all drawn_event es \<Longrightarrow>
   typing (lib_crypto lib) (st_db s) (st_db (server_run lib es s))"
  unfolding server_run_def
  by (induction es arbitrary: s) (auto intro: typing.same typing.chain server_step_typing)

end
