(* ===== verification/Router.thy ===== *)
theory Router
  imports TypedServer
begin

text \<open>
  From a method and a path to an endpoint (\<open>routes\<close> of \<open>internal/coordinator/server.go\<close> and \<open>userRoutes\<close> of
  \<open>user_api.go\<close>): the table of the routes as it is registered, and \<open>ServeHTTP\<close>.  The engine that finds the route of
  a request is the gin library, a parameter; \<open>routing\<close> is what its documentation promises.
\<close>

section \<open>The table\<close>

text \<open>A registered route: the method, the pattern of the path, and the handler applied to the values of the parameters.\<close>

type_synonym entry = "string \<times> string \<times> (string list \<Rightarrow> route)"

definition routeGroup :: "string \<Rightarrow> entry list \<Rightarrow> entry list" where
  "routeGroup prefix = map (\<lambda>(verb, pattern, handler). (verb, prefix @ pattern, handler))"

definition param1 :: "(string \<Rightarrow> route) \<Rightarrow> string list \<Rightarrow> route" where
  "param1 f vs = f (vs ! 0)"

definition param2 :: "(string \<Rightarrow> string \<Rightarrow> route) \<Rightarrow> string list \<Rightarrow> route" where
  "param2 f vs = f (vs ! 0) (vs ! 1)"

definition public_routes :: "entry list" where
  "public_routes =
     [(''GET'', ''/health/https'', \<lambda>_. Public GetHealth),
      (''POST'', ''/v1/identity'', \<lambda>_. Public PostIdentity),
      (''POST'', ''/v1/enroll'', \<lambda>_. Public PostEnroll),
      (''POST'', ''/v1/network/join'', \<lambda>_. Public PostJoin),
      (''POST'', ''/v1/enrollment-query'', \<lambda>_. Public PostEnrollmentQuery),
      (''POST'', ''/v1/recover-certificate'', \<lambda>_. Public PostRecover)]"

definition userRoutes :: "entry list" where
  "userRoutes =
     [(''POST'', ''/v1/register'', \<lambda>_. Public PostRegister), (''POST'', ''/v1/login'', \<lambda>_. Public PostLogin)]
     @ routeGroup ''/v1''
     [(''GET'', ''/user'', \<lambda>_. Private GetUser),
      (''POST'', ''/logout'', \<lambda>_. Private PostLogout),
      (''GET'', ''/networks'', \<lambda>_. Private GetNetworks),
      (''POST'', ''/networks'', \<lambda>_. Private PostNetworks),
      (''PATCH'', ''/networks/:networkId'', param1 (\<lambda>i. Private (PatchNetwork i))),
      (''PATCH'', ''/networks/:networkId/limit'', param1 (\<lambda>i. Private (PatchLimit i))),
      (''DELETE'', ''/networks/:networkId'', param1 (\<lambda>i. Private (RemoveNetwork i))),
      (''POST'', ''/networks/:networkId/enrollment-tokens'', param1 (\<lambda>i. Private (PostTokens i))),
      (''GET'', ''/devices'', \<lambda>_. Private GetDevices),
      (''GET'', ''/networks/:networkId/devices'', param1 (\<lambda>i. Private (GetNetworkDevices i))),
      (''POST'', ''/networks/:networkId/devices'', param1 (\<lambda>i. Private (PostBinding i))),
      (''DELETE'', ''/networks/:networkId/devices/:deviceId'', param2 (\<lambda>i x. Private (RemoveBinding i x))),
      (''GET'', ''/networks/:networkId/pairs'', param1 (\<lambda>i. Private (GetNetworkPairs i))),
      (''DELETE'', ''/networks/:networkId/pairs/:pairId'', param2 (\<lambda>i x. Private (RemovePair i x)))]"

definition operation_paths :: "string list" where
  "operation_paths = [''/share'', ''/heartbeat'', ''/invite'', ''/adopt-network'', ''/pair-action'', ''/renew-certificate'',
     ''/attempt'', ''/lease'', ''/end'']"

definition deviceRoutes :: "entry list" where
  "deviceRoutes = routeGroup ''/v1''
     ([(''GET'', ''/me'', \<lambda>_. Enrolled GetMe),
       (''GET'', ''/pairs'', \<lambda>_. Enrolled GetPairs),
       (''GET'', ''/pairs/:pairId/identity'', param1 (\<lambda>i. Enrolled (GetPairIdentity i))),
       (''POST'', ''/turn-credentials'', \<lambda>_. Enrolled PostTurnCredentials),
       (''GET'', ''/signals'', \<lambda>_. GetSignals)]
      @ map (\<lambda>path. (''POST'', path, \<lambda>_. Enrolled (PostOperation path))) operation_paths)"

definition routes :: "entry list" where
  "routes = public_routes @ userRoutes @ deviceRoutes"

section \<open>Patterns\<close>

text \<open>A pattern is matched segment by segment; one that begins with a colon takes what it meets.\<close>

fun segments :: "string \<Rightarrow> string list" where
  "segments [] = [[]]"
| "segments (c # cs) = (case segments cs of
     [] \<Rightarrow> []
   | s # ss \<Rightarrow> if c = CHR ''/'' then [] # s # ss else (c # s) # ss)"

definition is_param :: "string \<Rightarrow> bool" where
  "is_param p \<longleftrightarrow> take 1 p = '':''"

fun fit_segments :: "string list \<Rightarrow> string list \<Rightarrow> string list option" where
  "fit_segments [] [] = Some []"
| "fit_segments (p # ps) (x # xs) =
     (if is_param p then map_option (Cons x) (fit_segments ps xs) else if p = x then fit_segments ps xs else None)"
| "fit_segments _ _ = None"

definition fits_path :: "string \<Rightarrow> string \<Rightarrow> string list option" where
  "fits_path pattern path = fit_segments (segments pattern) (segments path)"

section \<open>Serving a request\<close>

text \<open>What the engine answers: the entry of the table it found, by its position, and the values of its parameters.\<close>

type_synonym engine = "(string \<times> string) list \<Rightarrow> string \<Rightarrow> string \<Rightarrow> (nat \<times> string list) option"

definition route_keys :: "entry list \<Rightarrow> (string \<times> string) list" where
  "route_keys = map (\<lambda>(verb, pattern, _). (verb, pattern))"

definition find_route :: "engine \<Rightarrow> string \<Rightarrow> string \<Rightarrow> route" where
  "find_route gin verb path = (case gin (route_keys routes) verb path of
     None \<Rightarrow> NoRoute
   | Some (k, vs) \<Rightarrow> snd (snd (routes ! k)) vs)"

definition ServeHTTP :: "engine \<Rightarrow> lib \<Rightarrow> env \<Rightarrow> bool \<Rightarrow> string \<Rightarrow> string \<Rightarrow> request \<Rightarrow> server \<Rightarrow> response \<times> server" where
  "ServeHTTP gin lib ev accepted verb path rq s = handle lib ev accepted (find_route gin verb path) rq s"

text \<open>
  The engine's promise: the entry it finds is of the method of the request and fits the path, with the values it
  gives; it finds one when some entry fits with no value empty.  (Whether an empty segment is taken for a value is
  left open.)
\<close>

definition routing :: "engine \<Rightarrow> bool" where
  "routing gin \<longleftrightarrow> (\<forall>table verb path. case gin table verb path of
     None \<Rightarrow> \<forall>(v, pattern) \<in> set table. v = verb \<longrightarrow> (case fits_path pattern path of None \<Rightarrow> True | Some vs \<Rightarrow> [] \<in> set vs)
   | Some (k, vs) \<Rightarrow> k < length table \<and> fst (table ! k) = verb \<and> fits_path (snd (table ! k)) path = Some vs)"

text \<open>The first entry that fits.\<close>

fun first_fit :: "entry list \<Rightarrow> string \<Rightarrow> string \<Rightarrow> route" where
  "first_fit [] verb path = NoRoute"
| "first_fit ((v, pattern, handler) # table) verb path =
     (case (if v = verb then fits_path pattern path else None) of
        None \<Rightarrow> first_fit table verb path
      | Some vs \<Rightarrow> handler vs)"

definition route_of :: "string \<Rightarrow> string \<Rightarrow> route" where
  "route_of = first_fit routes"

section \<open>The table is unambiguous\<close>

text \<open>Two patterns that some path fits both.\<close>

fun overlap :: "string list \<Rightarrow> string list \<Rightarrow> bool" where
  "overlap [] [] = True"
| "overlap (p # ps) (q # qs) = ((is_param p \<or> is_param q \<or> p = q) \<and> overlap ps qs)"
| "overlap _ _ = False"

lemma fit_overlap: "fit_segments ps xs = Some vs \<Longrightarrow> fit_segments qs xs = Some us \<Longrightarrow> overlap ps qs"
  by (induction ps xs arbitrary: qs vs us rule: fit_segments.induct; case_tac qs) (auto split: if_splits)

fun apart :: "(string \<times> string list) list \<Rightarrow> bool" where
  "apart [] = True"
| "apart ((v, ps) # rest) = (list_all (\<lambda>(w, qs). \<not> (v = w \<and> overlap ps qs)) rest \<and> apart rest)"

lemma routes_apart: "apart (map (\<lambda>(v, pattern). (v, segments pattern)) (route_keys routes))"
  by code_simp

lemma apart_not_later:
  "apart ((v, ps) # rest) \<Longrightarrow> (w, qs) \<in> set rest \<Longrightarrow> v = w \<Longrightarrow> fit_segments ps xs = Some vs \<Longrightarrow> fit_segments qs xs = Some us \<Longrightarrow> False"
  by (auto simp: list_all_iff dest: fit_overlap)

lemma first_fit_at:
  assumes "apart (map (\<lambda>(v, pattern). (v, segments pattern)) (route_keys table))" "k < length table"
    and "fst (route_keys table ! k) = verb" "fits_path (snd (route_keys table ! k)) path = Some vs"
  shows "first_fit table verb path = snd (snd (table ! k)) vs"
  using assms
proof (induction table arbitrary: k)
  case (Cons e table)
  obtain v pattern handler where e: "e = (v, pattern, handler)" by (cases e)
  show ?case
  proof (cases k)
    case 0
    with Cons.prems e show ?thesis by (simp add: route_keys_def)
  next
    case (Suc j)
    with Cons.prems(2-4) have j: "j < length table" "fst (route_keys table ! j) = verb" "fits_path (snd (route_keys table ! j)) path = Some vs"
      by (simp_all add: route_keys_def)
    have "(verb, segments (snd (route_keys table ! j))) \<in> set (map (\<lambda>(v, pattern). (v, segments pattern)) (route_keys table))"
      using j(1,2) by (force simp: route_keys_def in_set_conv_nth split: prod.splits)
    moreover have "apart ((v, segments pattern) # map (\<lambda>(v, pattern). (v, segments pattern)) (route_keys table))"
      using Cons.prems(1) e by (simp add: route_keys_def)
    ultimately have "fits_path pattern path = None" if "v = verb"
      using apart_not_later [of v "segments pattern" _ verb _ "segments path"] that j(3)
      unfolding fits_path_def by (metis not_None_eq)
    then have "(if v = verb then fits_path pattern path else None) = None" by simp
    moreover have "apart (map (\<lambda>(v, pattern). (v, segments pattern)) (route_keys table))"
      using Cons.prems(1) e by (simp add: route_keys_def)
    ultimately show ?thesis using Cons.IH [OF _ j] e Suc by simp
  qed
qed simp

lemma first_fit_cases:
  obtains "first_fit table verb path = NoRoute"
  | pattern vs where "(verb, pattern) \<in> set (route_keys table)" "fits_path pattern path = Some vs"
proof (induction table)
  case (Cons e table)
  obtain v pattern handler where "e = (v, pattern, handler)" by (cases e)
  with Cons show ?case by (cases "if v = verb then fits_path pattern path else None") (auto simp: route_keys_def split: if_splits)
qed simp

section \<open>Paths\<close>

text \<open>A path none of whose segments is empty, and the path of a pattern with given values.\<close>

definition clean :: "string \<Rightarrow> bool" where
  "clean path \<longleftrightarrow> [] \<notin> set (tl (segments path))"

fun fill :: "string list \<Rightarrow> string list \<Rightarrow> string list" where
  "fill [] vs = []"
| "fill (p # ps) vs = (if is_param p then (case vs of [] \<Rightarrow> [] | v # vs \<Rightarrow> v # fill ps vs) else p # fill ps vs)"

fun joined :: "string list \<Rightarrow> string" where
  "joined [] = []"
| "joined [s] = s"
| "joined (s # ss) = s @ CHR ''/'' # joined ss"

definition path_of :: "string \<Rightarrow> string list \<Rightarrow> string" where
  "path_of pattern vs = joined (fill (segments pattern) vs)"

text \<open>Values for the parameters of a pattern: one for each, none empty or with a slash.\<close>

definition proper :: "string \<Rightarrow> string list \<Rightarrow> bool" where
  "proper pattern vs \<longleftrightarrow> length vs = length (filter is_param (segments pattern))
     \<and> list_all (\<lambda>v. v \<noteq> [] \<and> CHR ''/'' \<notin> set v) vs"

lemma segments_nonempty [simp]: "segments s \<noteq> []"
  by (induction s) (auto split: list.splits)

lemma segments_slash_free: "x \<in> set (segments s) \<Longrightarrow> CHR ''/'' \<notin> set x"
proof (induction s arbitrary: x)
  case (Cons c s)
  obtain a ss where "segments s = a # ss" using segments_nonempty by (cases "segments s") blast+
  with Cons show ?case by (auto split: if_splits)
qed simp

lemma segments_append: "CHR ''/'' \<notin> set s \<Longrightarrow> segments (s @ CHR ''/'' # t) = s # segments t"
proof (induction s)
  case Nil
  show ?case by (cases "segments t") simp_all
qed auto

lemma segments_plain: "CHR ''/'' \<notin> set s \<Longrightarrow> segments s = [s]"
  by (induction s) auto

lemma segments_join: "ss \<noteq> [] \<Longrightarrow> \<forall>s \<in> set ss. CHR ''/'' \<notin> set s \<Longrightarrow> segments (joined ss) = ss"
  by (induction ss rule: joined.induct) (auto simp: segments_plain segments_append)

lemma fill_fits: "length vs = length (filter is_param ps) \<Longrightarrow> fit_segments ps (fill ps vs) = Some vs"
  by (induction ps vs rule: fill.induct) (auto split: list.splits)

lemma fill_slash_free:
  "\<forall>p \<in> set ps. CHR ''/'' \<notin> set p \<Longrightarrow> \<forall>v \<in> set vs. CHR ''/'' \<notin> set v \<Longrightarrow> s \<in> set (fill ps vs) \<Longrightarrow> CHR ''/'' \<notin> set s"
  by (induction ps vs rule: fill.induct) (auto split: list.splits if_splits)

lemma fit_values: "fit_segments ps xs = Some vs \<Longrightarrow> v \<in> set vs \<Longrightarrow> v \<in> set xs"
  by (induction ps xs arbitrary: vs rule: fit_segments.induct) (auto split: if_splits)

lemma fit_rooted: "fit_segments ([] # ps) xs = Some vs \<Longrightarrow> fit_segments ps (tl xs) = Some vs"
  by (cases xs) (auto simp: is_param_def split: if_splits)

text \<open>Every pattern of the table begins with a slash, so no parameter is the first segment.\<close>

lemma routes_rooted: "list_all (\<lambda>(v, pattern). take 1 pattern = ''/'') (route_keys routes)"
  by code_simp

lemma segments_rooted: "take 1 s = ''/'' \<Longrightarrow> \<exists>ps. segments s = [] # ps"
  by (cases s) (auto split: list.splits)

lemma fits_path_of:
  assumes "take 1 pattern = ''/''" "proper pattern vs"
  shows "fits_path pattern (path_of pattern vs) = Some vs"
proof -
  obtain ps where ps: "segments pattern = [] # ps" using segments_rooted [OF assms(1)] by blast
  have "segments (path_of pattern vs) = fill (segments pattern) vs"
    unfolding path_of_def
  proof (rule segments_join)
    show "fill (segments pattern) vs \<noteq> []" by (simp add: ps is_param_def)
    show "\<forall>s \<in> set (fill (segments pattern) vs). CHR ''/'' \<notin> set s"
      using fill_slash_free [of "segments pattern" vs] segments_slash_free [of _ pattern] assms(2)
      by (auto simp: proper_def list_all_iff)
  qed
  then show ?thesis using fill_fits assms(2) by (simp add: fits_path_def proper_def)
qed

lemma fits_clean: "(verb, pattern) \<in> set (route_keys routes) \<Longrightarrow> fits_path pattern path = Some vs \<Longrightarrow> clean path \<Longrightarrow> [] \<notin> set vs"
  using routes_rooted segments_rooted [of pattern] fit_rooted fit_values
  by (fastforce simp: list_all_iff fits_path_def clean_def)

section \<open>What the engine finds\<close>

lemma routing_found:
  "routing gin \<Longrightarrow> gin table verb path = Some (k, vs) \<Longrightarrow>
     k < length table \<and> fst (table ! k) = verb \<and> fits_path (snd (table ! k)) path = Some vs"
  by (simp add: routing_def split: option.splits)

lemma routing_none:
  "routing gin \<Longrightarrow> gin table verb path = None \<Longrightarrow> (verb, pattern) \<in> set table \<Longrightarrow> fits_path pattern path = Some vs \<Longrightarrow> [] \<in> set vs"
  unfolding routing_def by (drule spec [of _ table], drule spec [of _ verb], drule spec [of _ path]) fastforce

lemma find_route_found:
  assumes "routing gin" "gin (route_keys routes) verb path = Some (k, vs)"
  shows "find_route gin verb path = route_of verb path"
proof -
  have "k < length routes" "fst (route_keys routes ! k) = verb" "fits_path (snd (route_keys routes ! k)) path = Some vs"
    using routing_found [OF assms] by (auto simp: route_keys_def)
  from first_fit_at [OF routes_apart this] show ?thesis by (simp add: find_route_def assms(2) route_of_def)
qed

lemma find_route_none:
  assumes "routing gin" "gin (route_keys routes) verb path = None"
  shows "route_of verb path = NoRoute \<or> \<not> clean path"
proof (rule first_fit_cases [of routes verb path])
  fix pattern vs assume fit_segments: "(verb, pattern) \<in> set (route_keys routes)" "fits_path pattern path = Some vs"
  show ?thesis using routing_none [OF assms fit_segments] fits_clean [OF fit_segments] by blast
qed (simp add: route_of_def)

lemma find_route_cases:
  assumes "routing gin"
  shows "find_route gin verb path = route_of verb path \<or> find_route gin verb path = NoRoute \<and> \<not> clean path"
proof (cases "gin (route_keys routes) verb path")
  case None
  with find_route_none [OF assms None] show ?thesis by (auto simp: find_route_def)
qed (use find_route_found [OF assms] in auto)

text \<open>Every entry is found under the paths of its pattern.\<close>

lemma find_route_path_of:
  assumes "routing gin" "k < length routes" "proper (snd (route_keys routes ! k)) vs"
  shows "find_route gin (fst (route_keys routes ! k)) (path_of (snd (route_keys routes ! k)) vs) = snd (snd (routes ! k)) vs"
    (is "find_route gin ?verb ?path = _")
proof -
  have entry: "(?verb, snd (route_keys routes ! k)) \<in> set (route_keys routes)"
    using assms(2) by (metis route_keys_def length_map nth_mem prod.collapse)
  then have "take 1 (snd (route_keys routes ! k)) = ''/''" using routes_rooted by (auto simp: list_all_iff)
  from fits_path_of [OF this assms(3)] have fits_path: "fits_path (snd (route_keys routes ! k)) ?path = Some vs" .
  have "[] \<notin> set vs" using assms(3) by (auto simp: proper_def list_all_iff)
  with routing_none [OF assms(1) _ entry fits_path] obtain r where "gin (route_keys routes) ?verb ?path = Some r" by fastforce
  then have "find_route gin ?verb ?path = route_of ?verb ?path"
    using find_route_found [OF assms(1)] by (cases r) blast
  also have "\<dots> = snd (snd (routes ! k)) vs"
    unfolding route_of_def using routes_apart assms(2) refl fits_path by (rule first_fit_at)
  finally show ?thesis .
qed

section \<open>What the handlers rely on\<close>

lemmas table_defs = routes_def public_routes_def userRoutes_def deviceRoutes_def routeGroup_def operation_paths_def param1_def param2_def

lemma fit_static: "fit_segments ps xs = Some vs \<Longrightarrow> filter is_param ps = [] \<Longrightarrow> xs = ps"
  by (induction ps xs arbitrary: vs rule: fit_segments.induct) (auto split: if_splits)

lemma join_segments: "joined (segments s) = s"
proof (induction s)
  case (Cons c s)
  obtain a ss where "segments s = a # ss" using segments_nonempty by (cases "segments s") blast+
  with Cons show ?case by (cases ss) auto
qed simp

lemma first_fit_entry:
  assumes "first_fit table verb path = rt" "rt \<noteq> NoRoute"
  obtains pattern handler vs where "(verb, pattern, handler) \<in> set table" "fits_path pattern path = Some vs" "rt = handler vs"
  using assms by (induction table verb path rule: first_fit.induct) (auto split: option.splits if_splits)

text \<open>\<open>deviceOperation\<close> goes by the path of the request, which is the one its route was registered with: its last
  return is never reached.  \<open>serveSignals\<close> asks for a GET, and its route gives it nothing else.\<close>

lemma operations_static: "list_all (\<lambda>p. filter is_param (segments (''/v1'' @ p)) = []) operation_paths"
  by code_simp

lemma operation_route:
  assumes "route_of verb path = Enrolled (PostOperation p)"
  shows "verb = ''POST'' \<and> path = ''/v1'' @ p \<and> p \<in> set operation_paths"
proof -
  obtain pattern handler vs where e: "(verb, pattern, handler) \<in> set routes" "fits_path pattern path = Some vs"
    "handler vs = Enrolled (PostOperation p)"
    using first_fit_entry [OF assms [unfolded route_of_def]] by (metis route.distinct(15) route.distinct)
  then have p: "verb = ''POST''" "pattern = ''/v1'' @ p" "p \<in> set operation_paths"
    by (auto simp: table_defs)
  then have "segments path = segments pattern"
    using operations_static e(2) fit_static unfolding fits_path_def list_all_iff by blast
  with p show ?thesis by (metis join_segments)
qed

lemma signals_route: "route_of verb path = GetSignals \<Longrightarrow> verb = ''GET''"
  unfolding route_of_def by (erule first_fit_entry, simp) (auto simp: table_defs)

text \<open>An engine that takes the first entry that fits keeps the promise.\<close>

definition plain_gin :: engine where
  "plain_gin table verb path = map_option (\<lambda>k. (k, the (fits_path (snd (table ! k)) path)))
     (find (\<lambda>k. fst (table ! k) = verb \<and> fits_path (snd (table ! k)) path \<noteq> None) [0..<length table])"

lemma plain_gin_routing: "routing plain_gin"
  unfolding routing_def
proof (intro allI)
  fix table and verb path :: string
  show "case plain_gin table verb path of
     None \<Rightarrow> \<forall>(v, pattern) \<in> set table. v = verb \<longrightarrow> (case fits_path pattern path of None \<Rightarrow> True | Some vs \<Rightarrow> [] \<in> set vs)
   | Some (k, vs) \<Rightarrow> k < length table \<and> fst (table ! k) = verb \<and> fits_path (snd (table ! k)) path = Some vs"
  proof (cases "find (\<lambda>k. fst (table ! k) = verb \<and> fits_path (snd (table ! k)) path \<noteq> None) [0..<length table]")
    case None
    then have "\<forall>k < length table. fst (table ! k) = verb \<longrightarrow> fits_path (snd (table ! k)) path = None"
      by (auto simp: find_None_iff)
    then have "\<forall>(v, pattern) \<in> set table. v = verb \<longrightarrow> fits_path pattern path = None"
      by (auto simp: in_set_conv_nth) (metis fst_conv snd_conv)
    with None show ?thesis by (auto simp: plain_gin_def)
  next
    case (Some k)
    then have "k < length table" "fst (table ! k) = verb" "fits_path (snd (table ! k)) path \<noteq> None"
      by (auto dest!: find_SomeD)
    with Some show ?thesis by (auto simp: plain_gin_def)
  qed
qed

end
