(* ===== verification/ServerProperties.thy ===== *)
theory ServerProperties
  imports Attempts Samples Router
begin

text \<open>
  The properties of the server: what every run keeps, what a request without credentials can do, what an
  error response says and how an attempt whose target cannot be told is taken back.
\<close>

section \<open>Lemmas\<close>

lemma tickedI: "wp m (\<lambda>_ t. ticked s t) (\<lambda>_ t. ticked s t) s \<Longrightarrow> ticked s (snd (m s))"
  by (auto simp: wp_def split: prod.splits sum.splits)

lemma Authenticate_ticks: "ticked s (snd (Authenticate C c now s))"
  by (rule tickedI) (simp add: Authenticate_def Device_of_def wp_simps split: option.splits)

lemma AuthenticateUser_ticks: "ticked s (snd (AuthenticateUser C token now s))"
  by (rule tickedI) (simp add: AuthenticateUser_def wp_simps)

lemma of_store_ticks:
  fixes s :: server
  assumes "ticked (store.truncate (sessions.truncate s)) (snd (m (store.truncate (sessions.truncate s))))"
  shows "\<exists>fs. snd (of_store m s) = s\<lparr>st_faults := fs\<rparr>"
proof -
  obtain fs where "snd (m (store.truncate (sessions.truncate s))) = store.truncate (sessions.truncate s)\<lparr>st_faults := fs\<rparr>"
    using assms by (auto simp: ticked_def)
  then show ?thesis
    by (cases s, cases "m (store.truncate (sessions.truncate s))")
      (auto simp: of_store_def on_sessions_def on_store_def store.defs sessions.defs)
qed

lemma of_store_budget: "fst (of_store m (s\<lparr>sv_budget := b\<rparr>)) = fst (of_store m s)"
  by (cases s) (simp add: of_store_def on_sessions_def on_store_def store.defs sessions.defs split: prod.splits)

lemma fst_bnd_ret: "fst (bnd m (\<lambda>x. ret (f x)) s) = map_sum id f (fst (m s))"
  by (auto simp: bnd_def ret_def split: prod.splits sum.splits)

lemma snd_bnd_ret: "snd (bnd m (\<lambda>x. ret (f x)) s) = snd (m s)"
  by (auto simp: bnd_def ret_def split: prod.splits sum.splits)

lemma same_faults: "\<exists>fs. s = s\<lparr>st_faults := fs\<rparr>"
  by (rule exI [of _ "st_faults s"]) simp

lemma authenticate_ticks: "\<exists>fs. snd (authenticate lib rq now s) = s\<lparr>st_faults := fs\<rparr>"
proof -
  have "\<exists>fs. snd (of_store (Authenticate C c now) s) = s\<lparr>st_faults := fs\<rparr>" for C c
    by (rule of_store_ticks) (rule Authenticate_ticks)
  then show ?thesis
    using same_faults by (auto simp: authenticate_def throw_def split: option.splits list.splits)
qed

lemma authenticate_user_ticks: "\<exists>fs. snd (authenticate_user lib rq now s) = s\<lparr>st_faults := fs\<rparr>"
proof -
  have "\<exists>fs. snd (of_store (AuthenticateUser C token now) s) = s\<lparr>st_faults := fs\<rparr>" for C token
    by (rule of_store_ticks) (rule AuthenticateUser_ticks)
  then show ?thesis
    using same_faults by (auto simp: authenticate_user_def throw_def snd_bnd_ret split: option.splits)
qed

lemma authentication_budget:
  "fst (authenticate lib rq now (s\<lparr>sv_budget := b\<rparr>)) = fst (authenticate lib rq now s)"
  "fst (authenticate_user lib rq now (s\<lparr>sv_budget := b\<rparr>)) = fst (authenticate_user lib rq now s)"
  by (auto simp: authenticate_def authenticate_user_def of_store_budget throw_def fst_bnd_ret split: option.splits list.splits)

definition turned_away :: "response option \<Rightarrow> bool" where
  "turned_away r \<longleftrightarrow> r \<in> {Some (Failure ''p2p.rate_limited'' 429), Some (Failure ''p2p.tls_required'' 403),
     Some (Failure ''p2p.invalid_request'' 400)}"

lemma admission_cases:
  obtains b where "snd (admission rq now s) = s\<lparr>sv_budget := b\<rparr>"
    "fst (admission rq now s) = None \<or> turned_away (fst (admission rq now s))"
proof (cases "SplitHostPort (rq_RemoteAddr rq)")
  case None
  then show ?thesis
    by (intro that [of "sv_budget s"]) (simp_all add: admission_def writeFailure_def turned_away_def)
next
  case (Some hp)
  obtain ip port budget ok where "hp = (ip, port)" "allow (sv_budget s) ip now = (budget, ok)"
    by (metis surj_pair)
  with Some show ?thesis
    by (intro that [of budget]) (simp_all add: admission_def writeFailure_def turned_away_def Let_def)
qed

lemma answered_Inl: "fst (m s) = Inl e \<Longrightarrow> answered m s = (writeError e, snd (m s))"
  by (cases "m s") (simp add: answered_def)

lemma bnd_Inl: "fst (m s) = Inl e \<Longrightarrow> bnd m f s = (Inl e, snd (m s))"
  by (cases "m s") (simp add: bnd_def)

lemma dispatch_unauthenticated:
  assumes "\<not> credentials lib ev rt rq s" "rt \<noteq> NoRoute"
  shows "\<exists>e fs. dispatch lib ev accepted rt rq s = (Inl e, s\<lparr>st_faults := fs\<rparr>)"
proof -
  have user: ?thesis if "rt = Private r" for r
  proof -
    from assms that obtain e where "fst (authenticate_user lib rq (ev_authenticated ev) s) = Inl e"
      by (auto simp: credentials_def isl_def)
    moreover obtain fs where "snd (authenticate_user lib rq (ev_authenticated ev) s) = s\<lparr>st_faults := fs\<rparr>"
      using authenticate_user_ticks by blast
    ultimately have "dispatch lib ev accepted rt rq s = (Inl e, s\<lparr>st_faults := fs\<rparr>)"
      by (simp add: that dispatch_def bnd_Inl)
    then show ?thesis by blast
  qed
  have device: ?thesis if "rt = Enrolled r \<or> rt = GetSignals" for r
  proof -
    from assms that obtain e where "fst (authenticate lib rq (ev_authenticated ev) s) = Inl e"
      by (auto simp: credentials_def isl_def)
    moreover obtain fs where "snd (authenticate lib rq (ev_authenticated ev) s) = s\<lparr>st_faults := fs\<rparr>"
      using authenticate_ticks by blast
    ultimately have "dispatch lib ev accepted rt rq s = (Inl e, s\<lparr>st_faults := fs\<rparr>)"
      using that by (auto simp: dispatch_def bnd_Inl)
    then show ?thesis by blast
  qed
  show ?thesis
    using assms user device by (cases rt) (auto simp: credentials_def)
qed

lemma credentials_budget: "credentials lib ev rt rq (s\<lparr>sv_budget := b\<rparr>) = credentials lib ev rt rq s"
  by (simp add: credentials_def authentication_budget split: route.splits)

lemma untouchedI: "untouched s (s\<lparr>sv_budget := b, st_faults := fs\<rparr>)" "untouched s (s\<lparr>sv_budget := b\<rparr>)"
proof -
  show "untouched s (s\<lparr>sv_budget := b, st_faults := fs\<rparr>)"
    unfolding untouched_def by (rule exI [of _ fs], rule exI [of _ b]) simp
  show "untouched s (s\<lparr>sv_budget := b\<rparr>)"
    unfolding untouched_def by (rule exI [of _ "st_faults s"], rule exI [of _ b]) simp
qed


lemma writeError_Failure: "\<exists>code status. writeError e = Failure code status"
  by (simp add: writeError_def writeFailure_def split: err.splits)



section \<open>Who is let in\<close>

text \<open>The tables and the trust a route asks of a request, written over the tables.\<close>

definition entitled :: "lib \<Rightarrow> env \<Rightarrow> route \<Rightarrow> request \<Rightarrow> server \<Rightarrow> bool" where
  "entitled lib ev rt rq s = (case rt of
     Public _ \<Rightarrow> True
   | NoRoute \<Rightarrow> False
   | Private _ \<Rightarrow> (\<exists>token. bearer rq = Some token \<and> length token = 64
       \<and> (\<exists>r \<in> set (user_sessions (st_db s)). us_hash r = digest (lib_crypto lib) token
            \<and> unix (ev_authenticated ev) < us_expires r \<and> enabled (st_db s) (us_user r)))
   | _ \<Rightarrow> (\<exists>cert. rq_TLS rq = Some [cert] \<and> verify_cert (lib_crypto lib) (st_CA s) cert (ev_authenticated ev)
       \<and> (\<exists>d \<in> set (devices (st_db s)). d_id d = cert_CN cert \<and> cert_public cert = Some (d_key d)
            \<and> \<not> d_revoked d \<and> enabled (st_db s) (d_user d))))"

lemma of_store_fst: "fst (of_store m s) = fst (m (store.truncate (sessions.truncate s)))"
  by (simp add: of_store_def on_sessions_def on_store_def split: prod.splits)

lemma store_of_server [simp]:
  fixes s :: server
  shows "st_db (store.truncate (sessions.truncate s)) = st_db s" "st_CA (store.truncate (sessions.truncate s)) = st_CA s"
  by (cases s, simp add: sessions.defs store.defs)+

lemma Authenticate_rows:
  assumes "fst (Authenticate C (Some cert) now s) = Inr device"
  shows "verify_cert C (st_CA s) cert now \<and> (\<exists>d \<in> set (devices (st_db s)). d_id d = cert_CN cert
    \<and> cert_public cert = Some (d_key d) \<and> \<not> d_revoked d \<and> enabled (st_db s) (d_user d))"
proof -
  let ?Q = "\<lambda>device _. verify_cert C (st_CA s) cert now \<and> (\<exists>d \<in> set (devices (st_db s)). d_id d = cert_CN cert
    \<and> cert_public cert = Some (d_key d) \<and> \<not> d_revoked d \<and> enabled (st_db s) (d_user d))"
  have row: "?Q device t" if "device_rows (cert_CN cert) (st_db s) = x # xs" "verify_cert C (st_CA s) cert now"
    "cert_public cert = Some (dev_PublicKey x)" for x xs device t
    using that set_device_rows [of x "cert_CN cert" "st_db s"] by (auto simp: device_of_def)
  have "wp (Authenticate C (Some cert) now) ?Q (\<lambda>_ _. True) s"
    unfolding Authenticate_def using row by (auto simp: wp_simps split: sum.splits)
  with assms show ?thesis by (auto simp: wp_def split: prod.splits sum.splits)
qed

lemma queryRow_first: "fst (queryRow q s) = Inr x \<Longrightarrow> q (st_db s) = x # tl (q (st_db s))"
  by (auto simp: queryRow_def split: list.splits if_splits)

lemma not_isl: "\<not> isl r \<longleftrightarrow> (\<exists>x. r = Inr x)"
  by (cases r) auto

lemma AuthenticateUser_rows:
  assumes "fst (AuthenticateUser C token now s) = Inr user"
  shows "length token = 64 \<and> (\<exists>r \<in> set (user_sessions (st_db s)). us_hash r = digest C token
    \<and> unix now < us_expires r \<and> enabled (st_db s) (us_user r))"
proof -
  let ?rows = "[\<lparr>usr_ID = u_id u, usr_Username = u_email u\<rparr>. u \<leftarrow> users (st_db s), r \<leftarrow> user_sessions (st_db s),
     us_user r = u_id u \<and> us_hash r = digest C token \<and> unix now < us_expires r \<and> \<not> u_disabled u]"
  have "length token = 64" and
    "fst (mapErr (\<lambda>_. P2p ''p2p.user_unauthorized'') (queryRow (\<lambda>d. [\<lparr>usr_ID = u_id u, usr_Username = u_email u\<rparr>.
      u \<leftarrow> users d, r \<leftarrow> user_sessions d,
      us_user r = u_id u \<and> us_hash r = digest C token \<and> unix now < us_expires r \<and> \<not> u_disabled u])) s) = Inr user"
    using assms by (auto simp: AuthenticateUser_def guard_def throw_def split: if_splits)
  then have "user \<in> set ?rows" unfolding mapErr_Inr by (auto dest!: queryRow_first [THEN hd_in])
  then obtain u r where "u \<in> set (users (st_db s))" "r \<in> set (user_sessions (st_db s))" "us_user r = u_id u"
    "us_hash r = digest C token" "unix now < us_expires r" "\<not> u_disabled u" by (auto split: if_splits)
  then show ?thesis using \<open>length token = 64\<close> by (auto simp: enabled_def intro!: bexI [of _ r] bexI [of _ u])
qed

lemma credentials_entitled: "credentials lib ev rt rq s \<Longrightarrow> entitled lib ev rt rq s"
proof -
  have user: "\<exists>token. bearer rq = Some token \<and> length token = 64
      \<and> (\<exists>r \<in> set (user_sessions (st_db s)). us_hash r = digest (lib_crypto lib) token
            \<and> unix now < us_expires r \<and> enabled (st_db s) (us_user r))"
    if ok: "fst (authenticate_user lib rq now s) = Inr x" for x now
  proof -
    from ok obtain token user where "bearer rq = Some token" "fst (of_store (AuthenticateUser (lib_crypto lib) token now) s) = Inr user"
      by (cases "fst (of_store (AuthenticateUser (lib_crypto lib) (the (bearer rq)) now) s)")
        (auto simp: authenticate_user_def throw_def fst_bnd_ret split: option.splits)
    with AuthenticateUser_rows [of "lib_crypto lib" token now "store.truncate (sessions.truncate s)" user]
    show ?thesis by (simp add: of_store_fst)
  qed
  have device: "\<exists>cert. rq_TLS rq = Some [cert] \<and> verify_cert (lib_crypto lib) (st_CA s) cert now
       \<and> (\<exists>d \<in> set (devices (st_db s)). d_id d = cert_CN cert \<and> cert_public cert = Some (d_key d)
            \<and> \<not> d_revoked d \<and> enabled (st_db s) (d_user d))"
    if ok: "fst (authenticate lib rq now s) = Inr x" for x now
  proof -
    from ok obtain cert where "rq_TLS rq = Some [cert]" "fst (of_store (Authenticate (lib_crypto lib) (Some cert) now) s) = Inr x"
      by (auto simp: authenticate_def throw_def split: option.splits list.splits)
    with Authenticate_rows [of "lib_crypto lib" cert now "store.truncate (sessions.truncate s)" x]
    show ?thesis by (simp add: of_store_fst)
  qed
  show "credentials lib ev rt rq s \<Longrightarrow> ?thesis"
    by (cases rt) (auto simp: credentials_def entitled_def not_isl intro: user device)
qed


section \<open>A sample server\<close>

definition plain_net :: net_lib where
  "plain_net = \<lparr>parse_url = (\<lambda>s.
       if s = ''https://h'' then Some \<lparr>url_Scheme = ''https'', url_Host = ''h'', url_User = False, url_Path = [],
         url_RawQuery = [], url_Fragment = []\<rparr>
       else if s = ''wss://h/v1/signals'' then Some \<lparr>url_Scheme = ''wss'', url_Host = ''h'', url_User = False,
         url_Path = ''/v1/signals'', url_RawQuery = [], url_Fragment = []\<rparr>
       else None), parse_ip = Some\<rparr>"

definition plain_lib :: lib where
  "plain_lib = \<lparr>lib_crypto = plain_crypto, lib_net = plain_net, lib_pick = id, lib_turn = (\<lambda>secret name _. Inr (name, secret))\<rparr>"

definition config0 :: Config where
  "config0 = \<lparr>cf_HTTPSOrigin = ''https://h'', cf_WSSURL = ''wss://h/v1/signals'', cf_STUNAddress = ''h:7'',
     cf_HTTPSListen = ''h:8'', cf_STUNListen = ''h:9'', cf_TLSCertPath = ''/c'', cf_TLSKeyPath = ''/k'', cf_DatabasePath = ''/d'',
     cf_IdentityKeyPath = ''/i'', cf_TurnSharedSecret = ''0123456789abcdef0123456789abcdef'', cf_TurnListen = [],
     cf_RelayPublicIP = ''1.2.3.4'', cf_RelayPortMin = 0, cf_RelayPortMax = 0\<rparr>"

definition server0 :: server where
  "server0 = sessions.extend (NewSessions service5) \<lparr>sv_config = config0, sv_budget = newLimiter, sv_hub = newSignalHub\<rparr>"

definition env0 :: env where
  "env0 = \<lparr>ev_admitted = clock0, ev_authenticated = clock0, ev_now = clock0, ev_rnd = ''AAAAAA'', ev_rnds = (\<lambda>_. ''AAAAAA''),
     ev_secret = None, ev_serial = None, ev_salt = []\<rparr>"

definition request0 :: request where
  "request0 = \<lparr>rq_RemoteAddr = ''1.2.3.4:5'', rq_TLS = Some [], rq_RawQuery = [], rq_ContentType = [],
     rq_Authorization = [], rq_Origin = [], rq_Body = [], rq_Broken = False\<rparr>"

lemma config0_valid: "Validate plain_net config0 = Inr ()"
  by code_simp

lemma server0_new: "NewServer plain_lib config0 service5 = Inr server0"
  by (simp add: NewServer_def plain_lib_def config0_valid server0_def)

text \<open>Both devices have reported in, the second holds a socket, and the first asks for an attempt.\<close>

definition server1 :: server where
  "server1 = sessions.extend online0 \<lparr>sv_config = config0, sv_budget = newLimiter,
     sv_hub = snd (hub_register newSignalHub dev2)\<rparr>"

definition device1 :: Device where
  "device1 = projr (fst (Device_of dev1 service5))"

definition sample_attempt :: "(err + Lease) \<times> server" where
  "sample_attempt = attempt_operation plain_lib env0 device1 [''pairId'' \<mapsto> FString dev2, ''generation'' \<mapsto> FInt 1] server1"

lemma sample_attempt_succeeds: "\<not> isl (fst sample_attempt)"
  by code_simp

section \<open>The server\<close>

text \<open>C4: whatever requests arrive, messages are read or taken and sockets close, in any order and
  with any outcome, a server started on a store that satisfies the invariant of the tables keeps every
  invariant: of the tables, of the attempts (a device is called by one peer at most and two
  devices are joined by one attempt at most), of the hub and of the request budget.\<close>

theorem server_runs_keep_every_invariant:
  assumes "NewServer lib config st = Inr s" "db_inv (st_db st)"
  shows "server_inv (server_run lib events s)"
  using assms by (rule NewServer_inv [THEN server_run_inv])

theorem server_runs_keep_every_invariant_witness:
  "server_inv (server_run plain_lib [Arrives env0 True (Enrolled GetMe) request0, Message dev1 True ''{}'' clock0, Taken True dev1,
     Gone dev1] server0)"
  by (rule server_runs_keep_every_invariant [OF server0_new service5_inv])

text \<open>C8: a request that is not entitled to its route - no bearer token of an unexpired session of an
  enabled account on the account routes, no certificate that the authority vouches for and that
  carries the key of a live device of an enabled account on the device routes, or no route at all - is answered
  with an error and changes nothing but the request budget.\<close>

theorem requests_not_entitled_change_nothing:
  assumes "\<not> entitled lib ev rt rq s"
  shows "untouched s (snd (handle lib ev accepted rt rq s))
    \<and> (\<exists>code status. fst (handle lib ev accepted rt rq s) = Failure code status)"
proof -
  obtain b where b: "snd (admission rq (ev_admitted ev) s) = s\<lparr>sv_budget := b\<rparr>"
    and out: "fst (admission rq (ev_admitted ev) s) = None \<or> turned_away (fst (admission rq (ev_admitted ev) s))"
    using admission_cases .
  show ?thesis
  proof (cases "fst (admission rq (ev_admitted ev) s)")
    case (Some r)
    with b out show ?thesis
      by (cases "admission rq (ev_admitted ev) s") (auto simp: handle_def turned_away_def untouchedI)
  next
    case None
    with b have h: "handle lib ev accepted rt rq s = answered (dispatch lib ev accepted rt rq) (s\<lparr>sv_budget := b\<rparr>)"
      by (cases "admission rq (ev_admitted ev) s") (simp add: handle_def)
    show ?thesis
    proof (cases "rt = NoRoute")
      case False
      have "\<not> credentials lib ev rt rq (s\<lparr>sv_budget := b\<rparr>)"
        using assms credentials_entitled by (auto simp: credentials_budget)
      then obtain e fs where "dispatch lib ev accepted rt rq (s\<lparr>sv_budget := b\<rparr>) = (Inl e, s\<lparr>sv_budget := b, st_faults := fs\<rparr>)"
        using False dispatch_unauthenticated by blast
      then show ?thesis using writeError_Failure [of e] by (simp add: h answered_def untouchedI)
    qed (use h untouchedI in \<open>simp add: answered_def dispatch_def ret_def writeFailure_def\<close>)
  qed
qed

theorem requests_not_entitled_change_nothing_witness:
  "untouched server0 (snd (handle plain_lib env0 True (Enrolled (PostOperation ''/attempt'')) request0 server0))"
  by (rule requests_not_entitled_change_nothing [THEN conjunct1]) (simp add: entitled_def request0_def)


text \<open>C10: a request for an attempt either fails, and then no attempt has been added and no socket
  told anything, or answers with a lease that is on record as the target's attempt and whose message is
  the last in the queue of the target's socket.  (The clock is past the first half minute of the year 1.)\<close>

theorem attempt_tells_its_target:
  assumes "picks (lib_pick lib)" "zero_time + 30 * second \<le> ev_now ev" "attempt_operation lib ev device m s = (r, t)"
  shows "attempt_outcome r s t"
  using assms by (rule attempt_operation_outcome)

theorem attempt_tells_its_target_witness:
  "attempt_outcome (Inr (projr (fst sample_attempt))) server1 (snd sample_attempt)"
proof -
  have "sample_attempt = (Inr (projr (fst sample_attempt)), snd sample_attempt)"
    using sample_attempt_succeeds by (cases "fst sample_attempt") (simp_all add: prod_eq_iff)
  then show ?thesis
    by (intro attempt_tells_its_target [where lib = plain_lib and ev = env0])
      (simp_all add: picks_def plain_lib_def env0_def clock0_def time_defs sample_attempt_def)
qed

text \<open>A configuration that is accepted can be served: the paths of the four files are absolute
  and the identity key and the database have files of their own; the three addresses have a host and a port;
  and with a shared secret for relays it has at least 32 bytes, the relay gets an address
  generator that its own check accepts, and the address told to clients is not empty.\<close>

theorem valid_configuration_serves:
  assumes "Config.Validate L c = Inr ()"
  shows "list_all IsAbs (state_paths c) \<and> distinct (state_paths c)
    \<and> list_all valid_endpoint [cf_STUNAddress c, cf_HTTPSListen c, cf_STUNListen c]
    \<and> (cf_TurnSharedSecret c = [] \<or> 32 \<le> length (cf_TurnSharedSecret c) \<and> turnURL c \<noteq> []
       \<and> (\<exists>g. ServeTURN_generator (turnRelay L c) = Inr g \<and> usable_generator g))"
proof -
  have paths: "list_all IsAbs (state_paths c)" "distinct (state_paths c)"
    and addresses: "list_all valid_endpoint [cf_STUNAddress c, cf_HTTPSListen c, cf_STUNListen c]"
    and relay: "cf_TurnSharedSecret c = [] \<or> Validate_relay L c = Inr ()"
    using assms by (auto simp: Validate_def state_paths_def split: if_splits)
  have "32 \<le> length (cf_TurnSharedSecret c)" "valid_endpoint (turnListen c)" if "Validate_relay L c = Inr ()"
    using that by (auto simp: Validate_relay_def split: if_splits)
  with paths addresses relay show ?thesis
    using turnURL_nonempty [of c] valid_relay_generator [of L c] by auto
qed

theorem valid_configuration_serves_witness:
  "32 \<le> length (cf_TurnSharedSecret config0) \<and> turnURL config0 \<noteq> []
    \<and> (\<exists>g. ServeTURN_generator (turnRelay plain_net config0) = Inr g \<and> usable_generator g)"
  using valid_configuration_serves [OF config0_valid] by (simp add: config0_def)



text \<open>C5: every column of every table has its type whatever the server is sent: identifiers are twelve hexadecimal
  digits and those of devices are digests of their keys, tokens and sessions are kept as digests of 64 digits, accounts have e-mail
  addresses, the names of networks and devices and the reported builds pass their checks, networks have one of the three limits, and
  references are identifiers.  Random bytes come six for each identifier.\<close>

theorem server_columns_are_typed:
  assumes "sound_crypto (lib_crypto lib)" "NewServer lib config st = Inr s" "typed_db (lib_crypto lib) (st_db st)"
    and "list_all drawn_event es"
  shows "typed_db (lib_crypto lib) (st_db (server_run lib es s))"
proof -
  have "st_db s = st_db st"
    using assms(2) by (auto simp: NewServer_def NewSessions_def store.defs sessions.defs split: sum.splits)
  then show ?thesis using server_run_typing [OF assms(1,4), of s] assms(3) by (simp add: typing_def)
qed

theorem server_columns_are_typed_witness:
  "typed_db plain_crypto (st_db (server_run plain_lib
     [Arrives env0 True (Enrolled (PostOperation ''/adopt-network'')) request0, Gone dev1] server0))"
proof -
  have "typed_db plain_crypto (st_db service5)" by code_simp
  moreover have "list_all drawn_event [Arrives env0 True (Enrolled (PostOperation ''/adopt-network'')) request0, Gone dev1]"
    by (simp add: drawn_event_def drawn_env_def env0_def)
  ultimately show ?thesis
    using server_columns_are_typed [OF _ server0_new] plain_crypto_sound by (simp add: plain_lib_def)
qed

end
