(* ===== verification/StateFiles.thy ===== *)
theory StateFiles
  imports Certificates "HOL-Library.Word"
begin

text \<open>
  The files of the service (\<open>Initialize\<close>, \<open>OpenStore\<close>, \<open>validate\<close>, \<open>openDB\<close> and \<open>exclusiveFile\<close> of
  \<open>internal/coordinator/store.go\<close>, \<open>Recover\<close> of \<open>certificates.go\<close>) over a model of the file system and of what
  SQLite makes of a file.  As in the configuration, the host is a POSIX one, and its clock is on UTC.
\<close>

unbundle bit_operations_syntax

section \<open>Calendar\<close>

text \<open>The proleptic Gregorian calendar, in days since the Unix epoch.  A date may have a day after the
  end of its month: \<open>time.Date\<close> goes on into the next one.\<close>

definition days_of_date :: "int \<Rightarrow> int \<Rightarrow> int \<Rightarrow> int" where
  "days_of_date y m d =
     (let y1 = (if m \<le> 2 then y - 1 else y); era = y1 div 400; yoe = y1 mod 400;
          doy = (153 * (if 2 < m then m - 3 else m + 9) + 2) div 5 + d - 1;
          doe = yoe * 365 + yoe div 4 - yoe div 100 + doy
      in era * 146097 + doe - 719468)"

definition date_of_days :: "int \<Rightarrow> int \<times> int \<times> int" where
  "date_of_days n =
     (let z = n + 719468; era = z div 146097; doe = z mod 146097;
          yoe = (doe - doe div 1460 + doe div 36524 - doe div 146096) div 365;
          doy = doe - (365 * yoe + yoe div 4 - yoe div 100); mp = (5 * doy + 2) div 153;
          d = doy - (153 * mp + 2) div 5 + 1; m = (if mp < 10 then mp + 3 else mp - 9)
      in (yoe + era * 400 + (if m \<le> 2 then 1 else 0), m, d))"

text \<open>\<open>t.AddDate(years, 0, 0)\<close>.\<close>

definition AddYears :: "time \<Rightarrow> int \<Rightarrow> time" where
  "AddYears t years = (case date_of_days (t div day) of
     (y, m, d) \<Rightarrow> days_of_date (y + years) m d * day + t mod day)"

section \<open>Files\<close>

text \<open>
  A file holds bytes, or is a database SQLite has written: whether it passes \<open>PRAGMA quick_check\<close>, the rows
  of \<open>metadata\<close> and the other tables (\<open>None\<close> while there is no schema).
\<close>

record dbfile =
  df_intact :: bool
  df_meta :: "(int \<times> string \<times> bytes) list"
  df_tables :: "db option"

datatype content = Plain bytes | Sqlite dbfile

record state_file =
  f_regular :: bool
  f_perm :: "32 word"
  f_content :: content

text \<open>The host: its files by path, and which of the coming calls fail.  A failing write has written the given
  number of bytes.\<close>

record machine =
  m_files :: "(string \<times> state_file) list"
  m_faults :: "nat option list"

type_synonym 'a os = "(machine, 'a) action"

definition broken :: "machine \<Rightarrow> nat option" where
  "broken m = (case m_faults m of [] \<Rightarrow> None | f # _ \<Rightarrow> f)"

definition proceed :: "machine \<Rightarrow> machine" where
  "proceed m = m\<lparr>m_faults := tl (m_faults m)\<rparr>"

text \<open>A call that may fail for a reason of the host, without effect.\<close>

definition os_call :: "'a os \<Rightarrow> 'a os" where
  "os_call f m = (if broken m = None then f (proceed m) else (Inl Lib_error, proceed m))"

text \<open>What the libraries of keys and certificates add to \<open>crypto\<close>, and the bytes of a database file.
  \<open>parse_key\<close> gives \<open>Some None\<close> for a key that is not an Ed25519 one.\<close>

record key_lib =
  marshal_key :: "bytes \<Rightarrow> bytes option"
  parse_key :: "bytes \<Rightarrow> bytes option option"
  pem_encode :: "string \<Rightarrow> bytes \<Rightarrow> bytes"
  create_ca :: "bytes \<Rightarrow> string \<Rightarrow> time \<Rightarrow> time \<Rightarrow> bytes option"
  self_signed :: "bytes \<Rightarrow> bool"
  db_image :: "dbfile \<Rightarrow> bytes"

text \<open>\<open>os.Lstat\<close>: \<open>None\<close> when there is no such file; an error is any other one.\<close>

definition Lstat :: "string \<Rightarrow> state_file option os" where
  "Lstat path = os_call (\<lambda>m. (Inr (map_of (m_files m) path), m))"

definition restrictedStateFile :: "state_file \<Rightarrow> bool" where
  "restrictedStateFile info \<longleftrightarrow> f_perm info AND 0x3F \<noteq> 0"

text \<open>\<open>exclusiveFile\<close>: the file is created only if there is none, written and flushed.\<close>

definition create_exclusive :: "string \<Rightarrow> unit os" where
  "create_exclusive path = os_call (\<lambda>m.
     if map_of (m_files m) path \<noteq> None then (Inl Lib_error, m)
     else (Inr (), m\<lparr>m_files := (path, \<lparr>f_regular = True, f_perm = 0x180, f_content = Plain []\<rparr>) # m_files m\<rparr>))"

definition set_content :: "string \<Rightarrow> content \<Rightarrow> machine \<Rightarrow> machine" where
  "set_content path c m = m\<lparr>m_files := map (\<lambda>(p, f). (p, if p = path then f\<lparr>f_content := c\<rparr> else f)) (m_files m)\<rparr>"

definition write_new :: "string \<Rightarrow> bytes \<Rightarrow> unit os" where
  "write_new path data m = (case broken m of
     None \<Rightarrow> (Inr (), set_content path (Plain data) (proceed m))
   | Some n \<Rightarrow> (Inl Lib_error, set_content path (Plain (take n data)) (proceed m)))"

definition exclusiveFile :: "string \<Rightarrow> bytes \<Rightarrow> unit os" where
  "exclusiveFile path data =
     bnd (create_exclusive path) (\<lambda>_. bnd (write_new path data) (\<lambda>_. os_call (ret ())))"

definition ReadFile :: "key_lib \<Rightarrow> string \<Rightarrow> bytes os" where
  "ReadFile K path = os_call (\<lambda>m. case map_of (m_files m) path of
     None \<Rightarrow> (Inl Lib_error, m)
   | Some f \<Rightarrow> (Inr (case f_content f of Plain b \<Rightarrow> b | Sqlite d \<Rightarrow> db_image K d), m))"

section \<open>The database file\<close>

text \<open>\<open>openDB\<close>: the address is built from the path with every backslash turned into a slash; \<open>mode=rw\<close> does not
  create a file.  The value is the path SQLite works on.\<close>

definition sqlite_path :: "string \<Rightarrow> string" where
  "sqlite_path path = map (\<lambda>c. if c = CHR 0x5C then CHR ''/'' else c) path"

definition openDB :: "string \<Rightarrow> string os" where
  "openDB path = os_call (\<lambda>m.
     if map_of (m_files m) (sqlite_path path) = None then (Inl Lib_error, m) else (Inr (sqlite_path path), m))"

text \<open>An empty file is an empty database; other bytes are none.\<close>

definition database_in :: "content \<Rightarrow> dbfile option" where
  "database_in c = (case c of
     Plain b \<Rightarrow> if b = [] then Some \<lparr>df_intact = True, df_meta = [], df_tables = None\<rparr> else None
   | Sqlite d \<Rightarrow> Some d)"

definition sql :: "string \<Rightarrow> (dbfile \<Rightarrow> 'a option) \<Rightarrow> 'a os" where
  "sql handle f = os_call (\<lambda>m. case map_of (m_files m) handle of
     None \<Rightarrow> (Inl Db_error, m)
   | Some file \<Rightarrow> (case database_in (f_content file) of
        None \<Rightarrow> (Inl Db_error, m)
      | Some d \<Rightarrow> (case f d of None \<Rightarrow> (Inl Db_error, m) | Some x \<Rightarrow> (Inr x, m))))"

text \<open>The working copy of a transaction: beginning gives it, statements change it, committing writes it.\<close>

definition tx_begin :: "string \<Rightarrow> dbfile os" where
  "tx_begin handle = sql handle Some"

definition tx_exec :: "(dbfile \<Rightarrow> dbfile option) \<Rightarrow> dbfile \<Rightarrow> dbfile os" where
  "tx_exec g d = os_call (\<lambda>m. case g d of None \<Rightarrow> (Inl Db_error, m) | Some d' \<Rightarrow> (Inr d', m))"

definition tx_commit :: "string \<Rightarrow> dbfile \<Rightarrow> unit os" where
  "tx_commit handle d = os_call (\<lambda>m. (Inr (), set_content handle (Sqlite d) m))"

definition create_schema :: "dbfile \<Rightarrow> dbfile option" where
  "create_schema d = (if df_tables d = None then Some (d\<lparr>df_tables := Some empty_db, df_meta := []\<rparr>) else None)"

definition insert_meta :: "int \<times> string \<times> bytes \<Rightarrow> dbfile \<Rightarrow> dbfile option" where
  "insert_meta row d = (if df_tables d = None then None else Some (d\<lparr>df_meta := df_meta d @ [row]\<rparr>))"

text \<open>The tables a store that is open on a file works on, and what it leaves there.\<close>

definition tables_at :: "string \<Rightarrow> machine \<Rightarrow> db option" where
  "tables_at handle m = Option.bind (Option.bind (map_of (m_files m) handle) (database_in \<circ> f_content)) df_tables"

definition save_tables :: "string \<Rightarrow> db \<Rightarrow> machine \<Rightarrow> machine" where
  "save_tables handle d m = (case Option.bind (map_of (m_files m) handle) (database_in \<circ> f_content) of
     None \<Rightarrow> m
   | Some file \<Rightarrow> set_content handle (Sqlite (file\<lparr>df_tables := Some d\<rparr>)) m)"

text \<open>A call of a store that is open on a file.\<close>

definition on_file :: "string \<Rightarrow> store \<Rightarrow> (unit, 'a) act \<Rightarrow> 'a os" where
  "on_file handle s f m = (case f s of (r, t) \<Rightarrow> (r, save_tables handle (st_db t) m))"

section \<open>Operations\<close>

definition SchemaVersion :: int where
  "SchemaVersion = 6"

definition of_option :: "'a option \<Rightarrow> ('s, 'a) action" where
  "of_option r = (case r of None \<Rightarrow> throw Lib_error | Some x \<Rightarrow> ret x)"

definition absent :: "string \<Rightarrow> 'a os \<Rightarrow> 'a os" where
  "absent path k = bnd (attempt (Lstat path)) (\<lambda>r. guard (r = Inr None) ''p2p.state_already_exists'' k)"

text \<open>\<open>fresh\<close> is the private key that was drawn, if random bytes could be read.\<close>

definition Initialize :: "crypto \<Rightarrow> key_lib \<Rightarrow> bytes option \<Rightarrow> string \<Rightarrow> string \<Rightarrow> time \<Rightarrow> unit os" where
  "Initialize C K fresh databasePath keyPath now =
     absent databasePath (absent keyPath
     (bnd (of_option fresh)
        (\<lambda>key. bnd (of_option (marshal_key K key))
        (\<lambda>keyDER. bnd (exclusiveFile keyPath (pem_encode K ''PRIVATE KEY'' keyDER))
        (\<lambda>_. bnd (exclusiveFile databasePath [])
        (\<lambda>_. bnd (openDB databasePath)
        (\<lambda>handle. bnd (of_option (create_ca K key (KeyID C (ed_public C key)) (now - minute) (AddYears now 10)))
        (\<lambda>der. bnd (tx_begin handle)
        (\<lambda>d. bnd (tx_exec create_schema d)
        (\<lambda>d. bnd (tx_exec (insert_meta (SchemaVersion, KeyID C (ed_public C key), der)) d)
        (\<lambda>d. tx_commit handle d)))))))))))"

definition first_row :: "'a list \<Rightarrow> 'a option" where
  "first_row rows = (case rows of [] \<Rightarrow> None | row # _ \<Rightarrow> Some row)"

lemma first_row_Some [simp]: "first_row rows = Some row \<longleftrightarrow> (\<exists>rest. rows = row # rest)"
  by (cases rows) (auto simp: first_row_def)

text \<open>\<open>validate\<close>: the identifier of the service and the certificate of its authority.\<close>

definition checks_self :: "crypto \<Rightarrow> key_lib \<Rightarrow> bytes \<Rightarrow> string \<Rightarrow> bytes \<Rightarrow> certificate \<Rightarrow> bool" where
  "checks_self C K key serviceID ca cert \<longleftrightarrow>
     cert_public cert = Some (ed_public C key) \<and> serviceID = KeyID C (ed_public C key) \<and> self_signed K ca"

definition store_validate :: "crypto \<Rightarrow> key_lib \<Rightarrow> string \<Rightarrow> bytes \<Rightarrow> (string \<times> bytes) os" where
  "store_validate C K handle key =
     bnd (mapErr (\<lambda>_. P2p ''p2p.invalid_database'') (sql handle (\<lambda>d. Some (df_intact d))))
       (\<lambda>integrity. guard integrity ''p2p.invalid_database''
       (bnd (mapErr (\<lambda>_. P2p ''p2p.invalid_database'') (sql handle (\<lambda>d. map_option (\<lambda>_. length (df_meta d)) (df_tables d))))
       (\<lambda>count. guard (count = 1) ''p2p.invalid_database''
       (bnd (mapErr (\<lambda>_. P2p ''p2p.unsupported_schema'') (sql handle (\<lambda>d. first_row (df_meta d))))
       (\<lambda>(version, serviceID, ca). guard (version = SchemaVersion) ''p2p.unsupported_schema''
       (case parse_cert C ca of
          None \<Rightarrow> throw (P2p ''p2p.invalid_identity'')
        | Some cert \<Rightarrow> guard (checks_self C K key serviceID ca cert) ''p2p.identity_mismatch'' (ret (serviceID, ca))))))))"

definition private_file :: "string \<Rightarrow> 'a os \<Rightarrow> 'a os" where
  "private_file path k = bnd (attempt (Lstat path))
     (\<lambda>r. guard (case r of Inr (Some info) \<Rightarrow> f_regular info \<and> \<not> restrictedStateFile info | _ \<Rightarrow> False)
        ''p2p.state_unavailable_or_insecure'' k)"

text \<open>The key in a PEM file: one block, of the right type, with an Ed25519 key.\<close>

definition read_key :: "crypto \<Rightarrow> key_lib \<Rightarrow> bytes \<Rightarrow> bytes option" where
  "read_key C K encoded = (case pem_decode C encoded of
     Some (type, der, rest) \<Rightarrow>
       if type \<noteq> ''PRIVATE KEY'' \<or> rest \<noteq> [] then None
       else (case parse_key K der of Some (Some key) \<Rightarrow> Some key | _ \<Rightarrow> None)
   | None \<Rightarrow> None)"

text \<open>\<open>salt\<close> and \<open>rnd\<close> are drawn for the password that stands for those of unknown accounts; \<open>faults\<close> is the
  schedule of the store that is opened.\<close>

definition OpenStore :: "crypto \<Rightarrow> key_lib \<Rightarrow> bytes \<Rightarrow> bytes \<Rightarrow> bool list \<Rightarrow> string \<Rightarrow> string \<Rightarrow> store os" where
  "OpenStore C K salt rnd faults databasePath keyPath =
     private_file databasePath (private_file keyPath
     (bnd (ReadFile K keyPath)
        (\<lambda>encoded. case read_key C K encoded of
           None \<Rightarrow> throw (P2p ''p2p.invalid_identity'')
         | Some key \<Rightarrow>
             bnd (openDB databasePath)
        (\<lambda>handle. bnd (store_validate C K handle key)
        (\<lambda>(serviceID, ca). bnd (of_option (bcrypt_hash C salt (NewID rnd)))
        (\<lambda>unknown. bnd (withStore (\<lambda>m. of_option (tables_at handle m)))
        (\<lambda>tables. ret \<lparr>st_db = tables, st_faults = faults, st_key = key, st_CA = ca, st_serviceID = serviceID,
             st_logins = 0, st_unknownPassword = unknown\<rparr>)))))))"

text \<open>\<open>Recover\<close>: a new service in new files, with a note of the identifier of the old one.\<close>

definition Recover :: "crypto \<Rightarrow> key_lib \<Rightarrow> string \<Rightarrow> bytes option \<Rightarrow> bytes \<Rightarrow> bytes \<Rightarrow> bool list \<Rightarrow>
    string \<Rightarrow> string \<Rightarrow> time \<Rightarrow> unit os" where
  "Recover C K serviceID fresh salt rnd faults databasePath keyPath now =
     bnd (Initialize C K fresh databasePath keyPath now)
       (\<lambda>_. bnd (OpenStore C K salt rnd faults databasePath keyPath)
       (\<lambda>recovered. on_file (sqlite_path databasePath) recovered
          (execInsert (ins_audit ''recovered-without-authorizations'' serviceID (unix now)))))"

section \<open>What the calls do\<close>

lemma proceed_simps [simp]: "m_files (proceed m) = m_files m" "m_faults (proceed m) = tl (m_faults m)"
  by (simp_all add: proceed_def)

lemma map_of_set_content [simp]:
  "map_of (m_files (set_content path c m)) p
    = map_option (\<lambda>f. if p = path then f\<lparr>f_content := c\<rparr> else f) (map_of (m_files m) p)"
proof -
  have "map_of (map (\<lambda>(p, f). (p, if p = path then g f else f)) xs) p = map_option (\<lambda>f. if p = path then g f else f) (map_of xs p)"
    for g :: "state_file \<Rightarrow> state_file" and xs by (induction xs) auto
  then show ?thesis by (simp add: set_content_def)
qed

lemma wp_os_call [wp_simps]:
  "wp (os_call f) Q E m \<longleftrightarrow> (broken m \<noteq> None \<longrightarrow> E Lib_error (proceed m)) \<and> (broken m = None \<longrightarrow> wp f Q E (proceed m))"
  by (auto simp: wp_def os_call_def)

lemma wp_Lstat [wp_simps]:
  "wp (Lstat path) Q E m \<longleftrightarrow> (broken m \<noteq> None \<longrightarrow> E Lib_error (proceed m))
     \<and> (broken m = None \<longrightarrow> Q (map_of (m_files m) path) (proceed m))"
  unfolding Lstat_def wp_os_call by (simp add: wp_def)

definition new_file :: "string \<Rightarrow> machine \<Rightarrow> machine" where
  "new_file path m = m\<lparr>m_files := (path, \<lparr>f_regular = True, f_perm = 0x180, f_content = Plain []\<rparr>) # m_files m\<rparr>"

lemma map_of_new_file [simp]:
  "map_of (m_files (new_file path m)) p
    = (if p = path then Some \<lparr>f_regular = True, f_perm = 0x180, f_content = Plain []\<rparr> else map_of (m_files m) p)"
  by (simp add: new_file_def)

lemma wp_create_exclusive [wp_simps]:
  "wp (create_exclusive path) Q E m \<longleftrightarrow> (broken m \<noteq> None \<or> map_of (m_files m) path \<noteq> None \<longrightarrow> E Lib_error (proceed m))
     \<and> (broken m = None \<and> map_of (m_files m) path = None \<longrightarrow> Q () (new_file path (proceed m)))"
  unfolding create_exclusive_def wp_os_call by (auto simp: wp_def new_file_def)

lemma wp_write_new [wp_simps]:
  "wp (write_new path data) Q E m \<longleftrightarrow> (broken m = None \<longrightarrow> Q () (set_content path (Plain data) (proceed m)))
     \<and> (\<forall>n. broken m = Some n \<longrightarrow> E Lib_error (set_content path (Plain (take n data)) (proceed m)))"
  by (simp add: write_new_def wp_def split: option.splits)

lemma wp_ReadFile [wp_simps]:
  "wp (ReadFile K path) Q E m \<longleftrightarrow> (broken m \<noteq> None \<or> map_of (m_files m) path = None \<longrightarrow> E Lib_error (proceed m))
     \<and> (broken m = None \<longrightarrow> (\<forall>f. map_of (m_files m) path = Some f \<longrightarrow>
          Q (case f_content f of Plain b \<Rightarrow> b | Sqlite d \<Rightarrow> db_image K d) (proceed m)))"
  unfolding ReadFile_def wp_os_call by (auto simp: wp_def split: option.splits)

lemma wp_openDB [wp_simps]:
  "wp (openDB path) Q E m \<longleftrightarrow>
     (broken m \<noteq> None \<or> map_of (m_files m) (sqlite_path path) = None \<longrightarrow> E Lib_error (proceed m))
     \<and> (broken m = None \<and> map_of (m_files m) (sqlite_path path) \<noteq> None \<longrightarrow> Q (sqlite_path path) (proceed m))"
  unfolding openDB_def wp_os_call by (auto simp: wp_def)

definition database_at :: "string \<Rightarrow> machine \<Rightarrow> dbfile option" where
  "database_at handle m = Option.bind (map_of (m_files m) handle) (database_in \<circ> f_content)"

lemma database_at_proceed [simp]: "database_at handle (proceed m) = database_at handle m"
  by (simp add: database_at_def)

lemma wp_sql [wp_simps]:
  "wp (sql handle f) Q E m \<longleftrightarrow> (broken m \<noteq> None \<longrightarrow> E Lib_error (proceed m))
     \<and> (broken m = None \<longrightarrow> (case Option.bind (database_at handle m) f of
          None \<Rightarrow> E Db_error (proceed m) | Some x \<Rightarrow> Q x (proceed m)))"
  unfolding sql_def wp_os_call by (auto simp: wp_def database_at_def split: option.splits)

lemma wp_tx_exec [wp_simps]:
  "wp (tx_exec g d) Q E m \<longleftrightarrow> (broken m \<noteq> None \<longrightarrow> E Lib_error (proceed m))
     \<and> (broken m = None \<longrightarrow> (case g d of None \<Rightarrow> E Db_error (proceed m) | Some d' \<Rightarrow> Q d' (proceed m)))"
  unfolding tx_exec_def wp_os_call by (auto simp: wp_def split: option.splits)

lemma wp_tx_commit [wp_simps]:
  "wp (tx_commit handle d) Q E m \<longleftrightarrow> (broken m \<noteq> None \<longrightarrow> E Lib_error (proceed m))
     \<and> (broken m = None \<longrightarrow> Q () (set_content handle (Sqlite d) (proceed m)))"
  unfolding tx_commit_def wp_os_call by (auto simp: wp_def)

lemma wp_of_option [wp_simps]: "wp (of_option r) Q E s \<longleftrightarrow> (case r of None \<Rightarrow> E Lib_error s | Some x \<Rightarrow> Q x s)"
  by (simp add: of_option_def wp_simps split: option.splits)

lemma wp_exclusiveFile [wp_simps]:
  "wp (exclusiveFile path data) Q E m \<longleftrightarrow> wp (create_exclusive path)
     (\<lambda>_. wp (write_new path data) (\<lambda>_. wp (os_call (ret ())) Q E) E) E m"
  by (simp add: exclusiveFile_def wp_simps)

section \<open>Files that are left alone\<close>

text \<open>The contract of the calls that change at most the files under the paths \<open>X\<close>.\<close>

locale touching =
  fixes X :: "string set" and m :: "'a os"
  assumes touches: "p \<notin> X \<Longrightarrow> map_of (m_files (snd (m s))) p = map_of (m_files s) p"
begin

lemma touches_result: "m s = (r, t) \<Longrightarrow> p \<notin> X \<Longrightarrow> map_of (m_files t) p = map_of (m_files s) p"
  using touches [of p s] by simp

end

named_theorems touching_intros "closure of the contract of the calls that touch few files"

lemma touchingI:
  "(\<And>s p. p \<notin> X \<Longrightarrow> wp m (\<lambda>_ t. map_of (m_files t) p = map_of (m_files s) p) (\<lambda>_ t. map_of (m_files t) p = map_of (m_files s) p) s)
    \<Longrightarrow> touching X m"
proof unfold_locales
  fix p s assume "\<And>s p. p \<notin> X \<Longrightarrow> wp m (\<lambda>_ t. map_of (m_files t) p = map_of (m_files s) p) (\<lambda>_ t. map_of (m_files t) p = map_of (m_files s) p) s" "p \<notin> X"
  then have "wp m (\<lambda>_ t. map_of (m_files t) p = map_of (m_files s) p) (\<lambda>_ t. map_of (m_files t) p = map_of (m_files s) p) s" by blast
  then show "map_of (m_files (snd (m s))) p = map_of (m_files s) p" by (auto simp: wp_def split: prod.splits sum.splits)
qed

lemma touching_ret [touching_intros]: "touching X (ret x)"
  by (rule touchingI) (simp add: wp_simps)

lemma touching_throw [touching_intros]: "touching X (throw e)"
  by (rule touchingI) (simp add: wp_simps)

lemma touching_bnd [touching_intros]: "touching X m \<Longrightarrow> (\<And>x. touching X (f x)) \<Longrightarrow> touching X (bnd m f)"
proof unfold_locales
  fix p s assume m: "touching X m" and f: "\<And>x. touching X (f x)" and p: "p \<notin> X"
  show "map_of (m_files (snd (bnd m f s))) p = map_of (m_files s) p"
    using touching.touches [OF m p] touching.touches [OF f p]
    by (auto simp: bnd_def split: prod.splits sum.splits) (metis snd_conv)+
qed

lemma touching_guard [touching_intros]: "touching X m \<Longrightarrow> touching X (guard c e m)"
  by (simp add: guard_def touching_throw)

lemma touching_attempt [touching_intros]: "touching X m \<Longrightarrow> touching X (attempt m)"
  by unfold_locales (auto simp: attempt_def split: prod.splits dest: touching.touches_result)

lemma touching_of_option [touching_intros]: "touching X (of_option r)"
  by (rule touchingI) (simp add: wp_simps split: option.splits)

lemma touching_calls [touching_intros]:
  "touching X (Lstat path)" "touching X (tx_begin path)" "touching X (tx_exec g d)"
  by (rule touchingI; auto simp: tx_begin_def wp_simps split: option.splits)+

lemma touching_reads [touching_intros]: "touching X (ReadFile K path)" "touching X (sql path f)"
  by (rule touchingI; auto simp: wp_simps split: option.splits)+

lemma touching_mapErr [touching_intros]: "touching X m \<Longrightarrow> touching X (mapErr g m)"
  by unfold_locales (auto simp: mapErr_def split: prod.splits sum.splits dest: touching.touches_result)

lemma touching_withStore [touching_intros]: "(\<And>s. touching X (f s)) \<Longrightarrow> touching X (withStore f)"
  by unfold_locales (auto simp: withStore_def dest: touching.touches)

lemma touching_option [touching_intros]:
  "touching X m \<Longrightarrow> (\<And>x. touching X (f x)) \<Longrightarrow> touching X (case r of None \<Rightarrow> m | Some x \<Rightarrow> f x)"
  by (cases r) auto

lemma touching_prod [touching_intros]: "(\<And>x y. touching X (f x y)) \<Longrightarrow> touching X (case p of (x, y) \<Rightarrow> f x y)"
  by (cases p) auto

lemma touching_writes [touching_intros]:
  "path \<in> X \<Longrightarrow> touching X (exclusiveFile path data)" "path \<in> X \<Longrightarrow> touching X (tx_commit path d)"
  by (rule touchingI; auto simp: wp_simps map_option_case split: option.splits)+

section \<open>Initializing\<close>

lemma touching_openDB:
  assumes "touching X (f (sqlite_path path))"
  shows "touching X (bnd (openDB path) f)"
proof (rule touchingI)
  fix s p assume "p \<notin> X"
  with touching.touches [OF assms this, of "proceed s"]
  show "wp (bnd (openDB path) f) (\<lambda>_ t. map_of (m_files t) p = map_of (m_files s) p)
      (\<lambda>_ t. map_of (m_files t) p = map_of (m_files s) p) s"
    by (auto simp: wp_simps) (auto simp: wp_def split: prod.splits sum.splits)
qed

lemma Initialize_touching:
  "touching {databasePath, keyPath, sqlite_path databasePath} (Initialize C K fresh databasePath keyPath now)"
  unfolding Initialize_def absent_def
  by (intro touching_intros touching_openDB) auto

interpretation Initialize: touching "{databasePath, keyPath, sqlite_path databasePath}"
    "Initialize C K fresh databasePath keyPath now" for databasePath keyPath C K fresh now
  by (rule Initialize_touching)

text \<open>Where one of the paths is taken, nothing is touched at all.\<close>

lemma Initialize_taken:
  assumes "map_of (m_files s) databasePath \<noteq> None \<or> map_of (m_files s) keyPath \<noteq> None"
  shows "m_files (snd (Initialize C K fresh databasePath keyPath now s)) = m_files s
    \<and> fst (Initialize C K fresh databasePath keyPath now s) = Inl (P2p ''p2p.state_already_exists'')"
proof -
  have "wp (Initialize C K fresh databasePath keyPath now) (\<lambda>_ _. False)
      (\<lambda>e t. m_files t = m_files s \<and> e = P2p ''p2p.state_already_exists'') s"
    using assms unfolding Initialize_def absent_def by (simp only: wp_simps) auto
  then show ?thesis by (auto simp: wp_def split: prod.splits sum.splits)
qed

lemma Initialize_keeps_files:
  assumes "sqlite_path databasePath = databasePath" "map_of (m_files s) p = Some f"
  shows "map_of (m_files (snd (Initialize C K fresh databasePath keyPath now s))) p = Some f"
proof (cases "p = databasePath \<or> p = keyPath")
  case True
  with assms(2) Initialize_taken [of s databasePath keyPath] show ?thesis by auto
next
  case False
  with assms Initialize.touches [of p databasePath keyPath] show ?thesis by simp
qed

text \<open>What a successful initialization leaves.\<close>

definition initialized :: "crypto \<Rightarrow> key_lib \<Rightarrow> bytes \<Rightarrow> string \<Rightarrow> string \<Rightarrow> machine \<Rightarrow> bool" where
  "initialized C K key databasePath keyPath t \<longleftrightarrow> (\<exists>keyDER a b der.
     marshal_key K key = Some keyDER \<and> create_ca K key (KeyID C (ed_public C key)) a b = Some der
     \<and> map_of (m_files t) keyPath = Some \<lparr>f_regular = True, f_perm = 0x180,
         f_content = Plain (pem_encode K ''PRIVATE KEY'' keyDER)\<rparr>
     \<and> map_of (m_files t) databasePath = Some \<lparr>f_regular = True, f_perm = 0x180,
         f_content = Sqlite \<lparr>df_intact = True, df_meta = [(SchemaVersion, KeyID C (ed_public C key), der)],
           df_tables = Some empty_db\<rparr>\<rparr>)"

lemma Initialize_initialized:
  assumes "Initialize C K fresh databasePath keyPath now s = (Inr (), t)" "sqlite_path databasePath = databasePath"
  shows "\<exists>key. fresh = Some key \<and> initialized C K key databasePath keyPath t"
proof -
  have "wp (Initialize C K fresh databasePath keyPath now)
      (\<lambda>_ t. \<exists>key. fresh = Some key \<and> initialized C K key databasePath keyPath t) (\<lambda>_ _. True) s"
    unfolding Initialize_def absent_def initialized_def
    by (auto simp: wp_simps assms(2) tx_begin_def database_at_def database_in_def create_schema_def insert_meta_def
        split: option.splits)
  with assms(1) show ?thesis by (simp add: wp_def)
qed

section \<open>Opening\<close>

definition file_bytes :: "key_lib \<Rightarrow> content \<Rightarrow> bytes" where
  "file_bytes K c = (case c of Plain b \<Rightarrow> b | Sqlite d \<Rightarrow> db_image K d)"

definition owner_only :: "machine \<Rightarrow> string \<Rightarrow> bool" where
  "owner_only m path \<longleftrightarrow> (\<exists>f. map_of (m_files m) path = Some f \<and> f_regular f \<and> \<not> restrictedStateFile f)"

text \<open>The state of the files under which a store opens, and the store.\<close>

definition opens :: "crypto \<Rightarrow> key_lib \<Rightarrow> bytes \<Rightarrow> bytes \<Rightarrow> bool list \<Rightarrow> string \<Rightarrow> string \<Rightarrow> machine \<Rightarrow> store \<Rightarrow> bool" where
  "opens C K salt rnd faults databasePath keyPath m s \<longleftrightarrow>
     owner_only m databasePath \<and> owner_only m keyPath
     \<and> (\<exists>g. map_of (m_files m) keyPath = Some g \<and> read_key C K (file_bytes K (f_content g)) = Some (st_key s))
     \<and> (\<exists>d cert. database_at (sqlite_path databasePath) m = Some d \<and> df_intact d
          \<and> df_meta d = [(SchemaVersion, st_serviceID s, st_CA s)] \<and> df_tables d = Some (st_db s)
          \<and> parse_cert C (st_CA s) = Some cert \<and> checks_self C K (st_key s) (st_serviceID s) (st_CA s) cert)
     \<and> bcrypt_hash C salt (NewID rnd) = Some (st_unknownPassword s)
     \<and> st_faults s = faults \<and> st_logins s = 0"

lemma tables_at_database: "tables_at handle m = Option.bind (database_at handle m) df_tables"
  by (simp add: tables_at_def database_at_def)

lemma map_option_const_Some: "map_option (\<lambda>_. c) x = Some y \<longleftrightarrow> x \<noteq> None \<and> y = c"
  by (cases x) auto

lemma one_row: "length xs = Suc 0 \<longleftrightarrow> (\<exists>x. xs = [x])"
  by (auto simp: length_Suc_conv)

lemma tables_at_proceed [simp]: "tables_at handle (proceed m) = tables_at handle m"
  by (simp add: tables_at_def)

lemma wp_private_file [wp_simps]:
  "wp (private_file path k) Q E m \<longleftrightarrow>
     (broken m = None \<and> owner_only m path \<longrightarrow> wp k Q E (proceed m))
     \<and> (\<not> (broken m = None \<and> owner_only m path) \<longrightarrow> E (P2p ''p2p.state_unavailable_or_insecure'') (proceed m))"
  by (auto simp: private_file_def wp_simps owner_only_def split: option.splits)

lemma owner_only_proceed [simp]: "owner_only (proceed m) path = owner_only m path"
  by (simp add: owner_only_def)

lemma wp_prod: "wp (case p of (x, y) \<Rightarrow> f x y) Q E s \<longleftrightarrow> (\<forall>x y. p = (x, y) \<longrightarrow> wp (f x y) Q E s)"
  by (cases p) auto

lemma wp_option: "wp (case r of None \<Rightarrow> m | Some x \<Rightarrow> f x) Q E s \<longleftrightarrow>
    (r = None \<longrightarrow> wp m Q E s) \<and> (\<forall>x. r = Some x \<longrightarrow> wp (f x) Q E s)"
  by (cases r) auto

text \<open>What \<open>validate\<close> has found out when it accepts.\<close>

lemma wp_store_validate:
  assumes "\<And>d serviceID ca cert t. \<lbrakk>database_at handle m = Some d; df_intact d; df_tables d \<noteq> None;
      df_meta d = [(SchemaVersion, serviceID, ca)]; parse_cert C ca = Some cert; checks_self C K key serviceID ca cert;
      m_files t = m_files m; m_faults m = [] \<longrightarrow> m_faults t = []\<rbrakk> \<Longrightarrow> Q (serviceID, ca) t"
    and "\<And>e t. E e t"
  shows "wp (store_validate C K handle key) Q E m"
  unfolding store_validate_def
  by (auto simp: wp_simps wp_prod wp_option assms(2) one_row bind_eq_Some_conv map_option_const_Some
      split: option.splits list.splits intro!: assms(1))

lemma OpenStore_opens: "wp (OpenStore C K salt rnd faults databasePath keyPath)
    (\<lambda>s t. opens C K salt rnd faults databasePath keyPath m s \<and> m_files t = m_files m) (\<lambda>_ _. True) m"
  unfolding OpenStore_def opens_def
  by (auto simp: wp_simps wp_prod wp_option tables_at_database owner_only_def file_bytes_def database_at_def bind_eq_Some_conv
      split: option.splits content.splits intro!: wp_store_validate)

lemma broken_none: "m_faults m = [] \<Longrightarrow> broken m = None"
  by (simp add: broken_def)

lemma opens_OpenStore:
  assumes "opens C K salt rnd faults databasePath keyPath m s" "m_faults m = []"
  shows "wp (OpenStore C K salt rnd faults databasePath keyPath) (\<lambda>s' t. s' = s \<and> m_files t = m_files m \<and> m_faults t = [])
    (\<lambda>_ _. False) m"
proof -
  from assms(1) obtain g d cert where
    "owner_only m databasePath" "owner_only m keyPath" "map_of (m_files m) keyPath = Some g"
    "read_key C K (file_bytes K (f_content g)) = Some (st_key s)"
    "database_at (sqlite_path databasePath) m = Some d" "df_intact d"
    "df_meta d = [(SchemaVersion, st_serviceID s, st_CA s)]" "df_tables d = Some (st_db s)"
    "parse_cert C (st_CA s) = Some cert" "checks_self C K (st_key s) (st_serviceID s) (st_CA s) cert"
    "bcrypt_hash C salt (NewID rnd) = Some (st_unknownPassword s)" "st_faults s = faults" "st_logins s = 0"
    unfolding opens_def by blast
  moreover have "map_of (m_files m) (sqlite_path databasePath) \<noteq> None"
    using calculation by (auto simp: database_at_def bind_eq_Some_conv)
  ultimately show ?thesis
    using assms(2)
    by (simp add: OpenStore_def store_validate_def wp_simps broken_none tables_at_database file_bytes_def first_row_def)
qed

text \<open>So opening is exact; a database that was saved by an open store opens again, and gives back what was saved.\<close>

lemma OpenStore_iff:
  assumes "m_faults m = []"
  shows "fst (OpenStore C K salt rnd faults databasePath keyPath m) = Inr s \<longleftrightarrow> opens C K salt rnd faults databasePath keyPath m s"
  using OpenStore_opens [of C K salt rnd faults databasePath keyPath m]
    opens_OpenStore [OF _ assms, of C K salt rnd faults databasePath keyPath s]
  by (auto simp: wp_def split: prod.splits sum.splits)

lemma OpenStore_result:
  assumes "opens C K salt rnd faults databasePath keyPath m s" "m_faults m = []"
  obtains t where "OpenStore C K salt rnd faults databasePath keyPath m = (Inr s, t)" "m_files t = m_files m" "m_faults t = []"
  using opens_OpenStore [OF assms] by (auto simp: wp_def split: prod.splits sum.splits)

lemma opens_files: "m_files t = m_files m \<Longrightarrow> opens C K salt rnd faults db key t s = opens C K salt rnd faults db key m s"
  by (simp add: opens_def owner_only_def database_at_def)

lemma save_tables_at: "database_at handle m = Some d \<Longrightarrow>
    save_tables handle tables m = set_content handle (Sqlite (d\<lparr>df_tables := Some tables\<rparr>)) m"
  by (simp add: save_tables_def database_at_def)

lemma owner_only_save [simp]: "owner_only (save_tables handle tables m) path = owner_only m path"
  by (cases "map_of (m_files m) path") (auto simp: save_tables_def owner_only_def restrictedStateFile_def split: option.splits)

lemma m_faults_save [simp]: "m_faults (save_tables handle tables m) = m_faults m"
  by (simp add: save_tables_def set_content_def split: option.splits)

lemma opens_saved:
  assumes "opens C K salt rnd faults databasePath keyPath m s" "keyPath \<noteq> sqlite_path databasePath"
    "bcrypt_hash C salt' (NewID rnd') = Some unknown"
  shows "opens C K salt' rnd' faults' databasePath keyPath (save_tables (sqlite_path databasePath) tables m)
    (s\<lparr>st_db := tables, st_faults := faults', st_unknownPassword := unknown\<rparr>)"
proof -
  from assms(1) obtain d where d: "database_at (sqlite_path databasePath) m = Some d" unfolding opens_def by blast
  then obtain f where f: "map_of (m_files m) (sqlite_path databasePath) = Some f"
    by (auto simp: database_at_def bind_eq_Some_conv)
  have "database_at (sqlite_path databasePath) (save_tables (sqlite_path databasePath) tables m) = Some (d\<lparr>df_tables := Some tables\<rparr>)"
    unfolding save_tables_at [OF d] using f by (simp add: database_at_def database_in_def)
  moreover have "map_of (m_files (save_tables (sqlite_path databasePath) tables m)) keyPath = map_of (m_files m) keyPath"
    unfolding save_tables_at [OF d] using assms(2) by (simp add: map_option.identity)
  ultimately show ?thesis using assms(1,3) d by (auto simp: opens_def)
qed

text \<open>Opening changes no file, whether it succeeds or not.\<close>

lemma OpenStore_touching: "touching {} (OpenStore C K salt rnd faults databasePath keyPath)"
proof -
  have "touching {} (store_validate C K path key)" for path key
    unfolding store_validate_def by (intro touching_intros)
  then show ?thesis
    unfolding OpenStore_def private_file_def by (intro touching_intros touching_openDB)
qed

interpretation OpenStore: touching "{}" "OpenStore C K salt rnd faults databasePath keyPath"
    for C K salt rnd faults databasePath keyPath
  by (rule OpenStore_touching)

section \<open>From initializing to opening\<close>

text \<open>What the code relies on: a key is read back as it was written, a PEM block is found as it was
  encoded, and a certificate made for an authority is its own issuer and carries its key.\<close>

definition sound_keys :: "crypto \<Rightarrow> key_lib \<Rightarrow> bool" where
  "sound_keys C K \<longleftrightarrow>
     (\<forall>key der. marshal_key K key = Some der \<longrightarrow> parse_key K der = Some (Some key))
     \<and> (\<forall>der. pem_decode C (pem_encode K ''PRIVATE KEY'' der) = Some (''PRIVATE KEY'', der, []))
     \<and> (\<forall>key cn a b der. create_ca K key cn a b = Some der \<longrightarrow> self_signed K der
          \<and> (\<exists>cert. parse_cert C der = Some cert \<and> cert_public cert = Some (ed_public C key)))"

lemma initialized_opens:
  assumes "sound_keys C K" "initialized C K key databasePath keyPath m" "sqlite_path databasePath = databasePath"
    "bcrypt_hash C salt (NewID rnd) = Some unknown"
  shows "\<exists>ca. opens C K salt rnd faults databasePath keyPath m
    \<lparr>st_db = empty_db, st_faults = faults, st_key = key, st_CA = ca, st_serviceID = KeyID C (ed_public C key),
     st_logins = 0, st_unknownPassword = unknown\<rparr>"
proof -
  from assms(2) obtain keyDER a b der where keyDER: "marshal_key K key = Some keyDER"
    and der: "create_ca K key (KeyID C (ed_public C key)) a b = Some der"
    and files: "map_of (m_files m) keyPath = Some \<lparr>f_regular = True, f_perm = 0x180,
         f_content = Plain (pem_encode K ''PRIVATE KEY'' keyDER)\<rparr>"
      "map_of (m_files m) databasePath = Some \<lparr>f_regular = True, f_perm = 0x180,
         f_content = Sqlite \<lparr>df_intact = True, df_meta = [(SchemaVersion, KeyID C (ed_public C key), der)],
           df_tables = Some empty_db\<rparr>\<rparr>"
    unfolding initialized_def by blast
  moreover obtain cert where "parse_cert C der = Some cert" "cert_public cert = Some (ed_public C key)" "self_signed K der"
    using assms(1) der unfolding sound_keys_def by blast
  moreover have "read_key C K (pem_encode K ''PRIVATE KEY'' keyDER) = Some key"
    using assms(1) keyDER by (simp add: sound_keys_def read_key_def)
  ultimately show ?thesis
    using assms(3,4) by (intro exI [of _ der]) (simp add: opens_def owner_only_def restrictedStateFile_def file_bytes_def
        database_at_def database_in_def checks_self_def)
qed

end
