(* ===== verification/Command.thy ===== *)
theory Command
  imports StateFiles ServerRuns
begin

text \<open>
  The command line (\<open>cmd/dshker-server/main.go\<close>) and the lifetime of the server it starts (\<open>Run\<close> of
  \<open>internal/coordinator/server.go\<close>): arguments, the password on the standard input, the configuration, the
  files of the service and the report of an error.
\<close>

section \<open>Arguments\<close>

record options =
  op_config :: string
  op_username :: string
  op_userID :: string

definition no_options :: options where
  "no_options = \<lparr>op_config = [], op_username = [], op_userID = []\<rparr>"

definition set_option :: "string \<Rightarrow> string \<Rightarrow> options \<Rightarrow> options option" where
  "set_option name v opts =
     (if name = ''config'' then Some (opts\<lparr>op_config := v\<rparr>)
      else if name = ''username'' then Some (opts\<lparr>op_username := v\<rparr>)
      else if name = ''user-id'' then Some (opts\<lparr>op_userID := v\<rparr>)
      else None)"

text \<open>
  \<open>FlagSet.Parse\<close> for flags that take a text: an argument that is not a flag ends the parsing, as does
  \<open>--\<close>; a flag has one dash or two, and its value after an equals sign or in the next argument; a later
  flag overwrites an earlier one.  \<open>None\<close> is any error.  The value has the options and the arguments left.
\<close>

datatype arg = Operand | Terminator | Malformed | Flag string "string option"

definition arg_of :: "string \<Rightarrow> arg" where
  "arg_of s =
     (if length s < 2 \<or> take 1 s \<noteq> ''-'' then Operand
      else if s = ''--'' then Terminator
      else let name = (if take 2 s = ''--'' then drop 2 s else drop 1 s) in
        if name = [] \<or> take 1 name = ''-'' \<or> take 1 name = ''='' then Malformed
        else (case dropWhile (\<lambda>c. c \<noteq> CHR ''='') name of
                [] \<Rightarrow> Flag name None
              | _ # v \<Rightarrow> Flag (takeWhile (\<lambda>c. c \<noteq> CHR ''='') name) (Some v)))"

fun parse_flags :: "string list \<Rightarrow> options \<Rightarrow> (options \<times> string list) option" where
  "parse_flags [] opts = Some (opts, [])"
| "parse_flags (s # args) opts =
     (case arg_of s of
        Operand \<Rightarrow> Some (opts, s # args)
      | Terminator \<Rightarrow> Some (opts, args)
      | Malformed \<Rightarrow> None
      | Flag name (Some v) \<Rightarrow> (case set_option name v opts of None \<Rightarrow> None | Some opts' \<Rightarrow> parse_flags args opts')
      | Flag name None \<Rightarrow>
          (case args of
             [] \<Rightarrow> None
           | v # rest \<Rightarrow> (case set_option name v opts of None \<Rightarrow> None | Some opts' \<Rightarrow> parse_flags rest opts')))"

text \<open>The checks before the configuration is read.\<close>

definition actions :: "string list" where
  "actions = [''serve'', ''init'', ''user-add'', ''user-disable'']"

definition arguments :: "string list \<Rightarrow> err + string \<times> options" where
  "arguments args = (case args of
     [] \<Rightarrow> Inl (P2p ''p2p.command_required'')
   | action # rest \<Rightarrow>
       if \<not> List.member actions action then Inl (P2p ''p2p.unknown_command'')
       else (case parse_flags rest no_options of
          Some (opts, []) \<Rightarrow>
            if op_config opts = [] then Inl (P2p ''p2p.config_required'')
            else if action \<noteq> ''user-add'' \<and> op_username opts \<noteq> [] \<or> action \<noteq> ''user-disable'' \<and> op_userID opts \<noteq> []
              then Inl (P2p ''p2p.invalid_arguments'')
            else Inr (action, opts)
        | _ \<Rightarrow> Inl (P2p ''p2p.invalid_arguments'')))"

section \<open>The standard input\<close>

text \<open>The bytes that arrive before the input ends or, when \<open>in_broken\<close>, before reading it fails.\<close>

record input =
  in_bytes :: bytes
  in_broken :: bool

definition TrimSuffix :: "bytes \<Rightarrow> char \<Rightarrow> bytes" where
  "TrimSuffix s c = (if s \<noteq> [] \<and> last s = c then butlast s else s)"

definition read_password :: "input \<Rightarrow> err + string" where
  "read_password i =
     (if in_broken i \<and> length (in_bytes i) < 75 then Inl Lib_error
      else let password = TrimSuffix (TrimSuffix (take 75 (in_bytes i)) (CHR 0x0A)) (CHR 0x0D) in
        if contains_any password [CHR 0x0D, CHR 0x0A] \<or> 72 < length password then Inl (P2p ''p2p.invalid_user_credentials'')
        else Inr password)"

section \<open>The running server\<close>

text \<open>
  What the host does to a server that is started: whether the TLS key pair loads, which addresses can be
  listened on, what happens until it stops, the first result of its two services if one ends before the
  context does, and the result of the shutdown.
\<close>

record host =
  h_tls :: bool
  h_listen :: "string \<Rightarrow> string \<Rightarrow> bool"
  h_events :: "server_event list"
  h_first :: "(err + unit) option"
  h_shutdown :: "err + unit"

text \<open>\<open>TLSConfig\<close>: the service asks for TLS 1.3, and verifies a client's certificate, if it has one, against its own
  authority.\<close>

record tls_config =
  tls_MinVersion :: string
  tls_ClientCAs :: "bytes list"
  tls_ClientAuth :: string

definition TLSConfig :: "bool \<Rightarrow> server \<Rightarrow> err + tls_config" where
  "TLSConfig loaded s =
     (if \<not> loaded then Inl (P2p ''p2p.tls_unavailable'')
      else Inr \<lparr>tls_MinVersion = ''TLS13'', tls_ClientCAs = [st_CA s], tls_ClientAuth = ''VerifyClientCertIfGiven''\<rparr>)"

definition udpListen :: "lib \<Rightarrow> server \<Rightarrow> string" where
  "udpListen lib s =
     (if Enabled (turnRelay (lib_net lib) (sv_config s)) then turnListen (sv_config s) else cf_STUNListen (sv_config s))"

text \<open>\<open>Run\<close>: \<open>http.ErrServerClosed\<close> is the result of the HTTPS service after \<open>Shutdown\<close> only, so it is no first
  result here.\<close>

definition Run :: "lib \<Rightarrow> host \<Rightarrow> server \<Rightarrow> (err + unit) \<times> server" where
  "Run lib h s =
     (case TLSConfig (h_tls h) s of
        Inl e \<Rightarrow> (Inl e, s)
      | Inr _ \<Rightarrow>
      if \<not> h_listen h ''tcp'' (cf_HTTPSListen (sv_config s)) then (Inl Lib_error, s)
      else if \<not> h_listen h ''udp'' (udpListen lib s) then (Inl Lib_error, s)
      else let t = server_run lib (h_events h) s in
        (case h_first h of Some (Inl e) \<Rightarrow> Inl e | _ \<Rightarrow> h_shutdown h, t\<lparr>sv_hub := hub_close (sv_hub t)\<rparr>))"

section \<open>Commands\<close>

text \<open>The random bytes and the clock of a command, and the faults of the store it opens.\<close>

record command_env =
  ce_now :: time
  ce_fresh :: "bytes option"
  ce_salt :: bytes
  ce_rnd :: bytes
  ce_userSalt :: bytes
  ce_userRnd :: bytes
  ce_faults :: "bool list"

text \<open>\<open>ReadConfig\<close> of a file of the host; opening it and asking for its status are one call here, which finds the same
  file as \<open>Lstat\<close> (there are no symbolic links in the model).\<close>

definition config_at :: "key_lib \<Rightarrow> state_file \<Rightarrow> config_file" where
  "config_at K f = (let data = file_bytes K (f_content f) in
     \<lparr>file_regular = f_regular f, file_size = int (length data), file_content = Some data\<rparr>)"

definition read_config :: "lib \<Rightarrow> key_lib \<Rightarrow> string \<Rightarrow> Config os" where
  "read_config lib K path =
     bnd (attempt (Lstat path))
       (\<lambda>r. case ReadConfig (lib_net lib) (case r of Inr (Some f) \<Rightarrow> Some (config_at K f) | _ \<Rightarrow> None) of
          Inl e \<Rightarrow> throw e
        | Inr config \<Rightarrow> ret config)"

text \<open>What each action does with the store.  The value is what is printed.\<close>

definition serve :: "lib \<Rightarrow> host \<Rightarrow> Config \<Rightarrow> string \<Rightarrow> store \<Rightarrow> jval option os" where
  "serve lib h config file s m =
     (case NewServer lib config s of
        Inl e \<Rightarrow> (Inl e, m)
      | Inr server \<Rightarrow> (case Run lib h server of
           (Inl e, t) \<Rightarrow> (Inl e, save_tables file (st_db t) m)
         | (Inr _, t) \<Rightarrow> (Inr None, save_tables file (st_db t) m)))"

definition user_add :: "lib \<Rightarrow> command_env \<Rightarrow> input \<Rightarrow> options \<Rightarrow> string \<Rightarrow> store \<Rightarrow> jval option os" where
  "user_add lib ce i opts file s =
     guard (op_username opts \<noteq> []) ''p2p.username_required''
     (case read_password i of
        Inl e \<Rightarrow> throw e
      | Inr password \<Rightarrow>
          bnd (on_file file s (CreateUser (lib_crypto lib) (ce_userSalt ce) (ce_userRnd ce) (op_username opts) password))
            (\<lambda>user. ret (Some (json_User user))))"

definition user_disable :: "command_env \<Rightarrow> options \<Rightarrow> string \<Rightarrow> store \<Rightarrow> jval option os" where
  "user_disable ce opts file s =
     guard (op_userID opts \<noteq> []) ''p2p.user_id_required''
     (bnd (on_file file s (DisableUser (op_userID opts) (ce_now ce)))
        (\<lambda>_. ret (Some (VObj [(''disabled'', VBool True)]))))"

definition run :: "lib \<Rightarrow> key_lib \<Rightarrow> host \<Rightarrow> command_env \<Rightarrow> string list \<Rightarrow> input \<Rightarrow> jval option os" where
  "run lib K h ce args i =
     (case arguments args of
        Inl e \<Rightarrow> throw e
      | Inr (action, opts) \<Rightarrow>
          bnd (read_config lib K (op_config opts))
            (\<lambda>config.
               if action = ''init'' then
                 bnd (Initialize (lib_crypto lib) K (ce_fresh ce) (cf_DatabasePath config) (cf_IdentityKeyPath config) (ce_now ce))
                   (\<lambda>_. ret (Some (VObj [(''initialized'', VBool True)])))
               else
                 bnd (OpenStore (lib_crypto lib) K (ce_salt ce) (ce_rnd ce) (ce_faults ce)
                        (cf_DatabasePath config) (cf_IdentityKeyPath config))
                   (\<lambda>s. let file = sqlite_path (cf_DatabasePath config) in
                     if action = ''serve'' then serve lib h config file s
                     else if action = ''user-add'' then user_add lib ce i opts file s
                     else user_disable ce opts file s)))"

text \<open>\<open>main\<close>: the exit status and what is printed on the standard output and the standard error.\<close>

definition reported :: "err \<Rightarrow> string" where
  "reported e = (case e of P2p code \<Rightarrow> if shown_code code then code else ''p2p.operation_failed'' | _ \<Rightarrow> ''p2p.operation_failed'')"

definition exits :: "err + jval option \<Rightarrow> int \<times> bytes \<times> bytes" where
  "exits r = (case r of
     Inl e \<Rightarrow> (1, [], reported e @ newline)
   | Inr None \<Rightarrow> (0, [], [])
   | Inr (Some v) \<Rightarrow> (0, marshal v @ newline, []))"

end
