(* ===== verification/ClientJson.thy ===== *)
theory ClientJson
  imports Messages
begin

text \<open>
  JSON as a client reads it: \<open>json.Decoder\<close> and the filling of Go values without the strictness of the
  service's own decoder.  Members that name no field are passed over, a null leaves a value as it is (a
  slice becomes nil), and a value of the wrong type is an error.  The smoke test tool
  (\<open>tools/smoke/main.go\<close>) reads the answers of the service this way.
\<close>

section \<open>Values\<close>

definition scan_atom :: "bytes \<Rightarrow> (json \<times> bytes) option" where
  "scan_atom s = (case s of
     [] \<Rightarrow> None
   | c # t \<Rightarrow>
       if c = quote then map_option (\<lambda>(raw, r). (JStr (unquote raw), r)) (scan_string t)
       else if c = CHR ''t'' then literal ''true'' (JBool True) s
       else if c = CHR ''f'' then literal ''false'' (JBool False) s
       else if c = CHR ''n'' then literal ''null'' JNull s
       else map_option (\<lambda>((sign, whole, frac, ex), r). (JNum sign whole frac ex, r)) (scan_number s))"

text \<open>The elements of an array and the members of an object, after the opening bracket; \<open>value\<close> reads one
  value.  Every turn takes a byte, so the bytes that are left are fuel enough.\<close>

primrec read_items :: "(bytes \<Rightarrow> (json \<times> bytes) option) \<Rightarrow> nat \<Rightarrow> bytes \<Rightarrow> json list \<Rightarrow> (json list \<times> bytes) option" where
  "read_items value 0 s vs = None"
| "read_items value (Suc n) s vs = (case value s of
     None \<Rightarrow> None
   | Some (v, r) \<Rightarrow> (case skip_space r of
       [] \<Rightarrow> None
     | c # t \<Rightarrow> if c = CHR '','' then read_items value n t (vs @ [v])
                else if c = CHR '']'' then Some (vs @ [v], t) else None))"

definition read_name :: "bytes \<Rightarrow> (bytes \<times> bytes) option" where
  "read_name s = (case skip_space s of
     [] \<Rightarrow> None
   | q # t \<Rightarrow>
       if q \<noteq> quote then None
       else (case scan_string t of
         None \<Rightarrow> None
       | Some (raw, r) \<Rightarrow> (case skip_space r of
           [] \<Rightarrow> None
         | colon # u \<Rightarrow> if colon = CHR '':'' then Some (unquote raw, u) else None)))"

primrec read_fields ::
  "(bytes \<Rightarrow> (json \<times> bytes) option) \<Rightarrow> nat \<Rightarrow> bytes \<Rightarrow> (bytes \<times> json) list \<Rightarrow> ((bytes \<times> json) list \<times> bytes) option"
where
  "read_fields value 0 s ms = None"
| "read_fields value (Suc n) s ms = (case read_name s of
     None \<Rightarrow> None
   | Some (name, u) \<Rightarrow> (case value u of
       None \<Rightarrow> None
     | Some (v, r) \<Rightarrow> (case skip_space r of
         [] \<Rightarrow> None
       | c # t \<Rightarrow> if c = CHR '','' then read_fields value n t (ms @ [(name, v)])
                  else if c = CHR ''}'' then Some (ms @ [(name, v)], t) else None)))"

text \<open>One value; \<open>inner\<close> reads those inside it, if they may be nested one level deeper.\<close>

definition read_with :: "(bytes \<Rightarrow> (json \<times> bytes) option) option \<Rightarrow> bytes \<Rightarrow> (json \<times> bytes) option" where
  "read_with inner s = (case skip_space s of
     [] \<Rightarrow> None
   | c # t \<Rightarrow>
       if c = CHR ''{'' then
         (case inner of None \<Rightarrow> None | Some value \<Rightarrow>
            if take 1 (skip_space t) = ''}'' then Some (JObj [], drop 1 (skip_space t))
            else map_option (\<lambda>(ms, r). (JObj ms, r)) (read_fields value (length t) t []))
       else if c = CHR ''['' then
         (case inner of None \<Rightarrow> None | Some value \<Rightarrow>
            if take 1 (skip_space t) = '']'' then Some (JArr [], drop 1 (skip_space t))
            else map_option (\<lambda>(vs, r). (JArr vs, r)) (read_items value (length t) t []))
       else scan_atom (c # t))"

primrec read_value :: "nat \<Rightarrow> bytes \<Rightarrow> (json \<times> bytes) option" where
  "read_value 0 = read_with None"
| "read_value (Suc levels) = read_with (Some (read_value levels))"

text \<open>Values may be nested 10000 deep.\<close>

definition read_json :: "bytes \<Rightarrow> json option" where
  "read_json s = map_option fst (read_value 10000 s)"

section \<open>Filling a Go value\<close>

datatype shape = Leaf kind | Fields "(bytes \<times> shape) list" | Items shape

datatype target = Text bytes | Whole int | Octets bytes | Struct "(bytes \<times> target) list" | Slice "target list"

fun zero_value :: "shape \<Rightarrow> target" where
  "zero_value (Leaf KString) = Text []"
| "zero_value (Leaf KBytes) = Octets []"
| "zero_value (Leaf _) = Whole 0"
| "zero_value (Fields fs) = Struct (map (\<lambda>(tag, sh). (tag, zero_value sh)) fs)"
| "zero_value (Items sh) = Slice []"

definition field_target :: "field \<Rightarrow> target" where
  "field_target f = (case f of FString s \<Rightarrow> Text s | FInt i \<Rightarrow> Whole i | FBytes b \<Rightarrow> Octets b)"

definition find_shape :: "(bytes \<times> shape) list \<Rightarrow> bytes \<Rightarrow> (bytes \<times> shape) option" where
  "find_shape fs name =
     (case find (\<lambda>f. fst f = name) fs of
        Some f \<Rightarrow> Some f
      | None \<Rightarrow> find (\<lambda>f. foldName (fst f) = foldName name) fs)"

text \<open>A field of a struct; and the struct with a field set.\<close>

definition get :: "bytes \<Rightarrow> target \<Rightarrow> target" where
  "get tag t = (case t of
     Struct fs \<Rightarrow> (case map_of fs tag of Some x \<Rightarrow> x | None \<Rightarrow> Text [])
   | _ \<Rightarrow> Text [])"

definition put :: "bytes \<Rightarrow> target \<Rightarrow> target \<Rightarrow> target" where
  "put tag x t = (case t of Struct fs \<Rightarrow> Struct (map (\<lambda>(k, y). (k, if k = tag then x else y)) fs) | _ \<Rightarrow> t)"

fun fill :: "shape \<Rightarrow> json \<Rightarrow> target \<Rightarrow> target option"
  and fill_members :: "(bytes \<times> shape) list \<Rightarrow> (bytes \<times> json) list \<Rightarrow> target \<Rightarrow> target option"
  and fill_items :: "shape \<Rightarrow> json list \<Rightarrow> target list option"
where
  "fill (Leaf k) v t =
     (if v = JNull then Some (if k = KBytes then Octets [] else t) else map_option field_target (decode_field k v))"
| "fill (Fields fs) JNull t = Some t"
| "fill (Fields fs) (JObj ms) t = fill_members fs ms t"
| "fill (Fields fs) v t = None"
| "fill (Items sh) JNull t = Some (Slice [])"
| "fill (Items sh) (JArr vs) t = map_option Slice (fill_items sh vs)"
| "fill (Items sh) v t = None"
| "fill_members fs [] t = Some t"
| "fill_members fs ((name, v) # ms) t =
     (case find_shape fs name of
        None \<Rightarrow> fill_members fs ms t
      | Some (tag, sh) \<Rightarrow> (case fill sh v (get tag t) of None \<Rightarrow> None | Some x \<Rightarrow> fill_members fs ms (put tag x t)))"
| "fill_items sh [] = Some []"
| "fill_items sh (v # vs) =
     (case (fill sh v (zero_value sh), fill_items sh vs) of (Some x, Some xs) \<Rightarrow> Some (x # xs) | _ \<Rightarrow> None)"

text \<open>\<open>json.NewDecoder(body).Decode(target)\<close> into a value that has been declared only.\<close>

definition decode_into :: "shape \<Rightarrow> bytes \<Rightarrow> target option" where
  "decode_into sh body = Option.bind (read_json body) (\<lambda>v. fill sh v (zero_value sh))"

text \<open>Into a \<open>map[string]any\<close>, which keeps what it had: a number has to fit a float64.\<close>

fun any_value :: "json \<Rightarrow> bool" where
  "any_value (JNum sign whole frac ex) \<longleftrightarrow> \<not> float_overflow whole frac ex"
| "any_value (JArr vs) \<longleftrightarrow> list_all any_value vs"
| "any_value (JObj ms) \<longleftrightarrow> list_all (\<lambda>(_, v). any_value v) ms"
| "any_value _ \<longleftrightarrow> True"

definition decode_map :: "(bytes \<rightharpoonup> json) \<Rightarrow> bytes \<Rightarrow> (bytes \<rightharpoonup> json) option" where
  "decode_map m body = (case read_json body of
     Some JNull \<Rightarrow> Some Map.empty
   | Some (JObj ms) \<Rightarrow> if any_value (JObj ms) then Some (fold (\<lambda>(name, v) m. m(name \<mapsto> v)) ms m) else None
   | _ \<Rightarrow> None)"

section \<open>Accessors\<close>

definition text_of :: "target \<Rightarrow> bytes" where
  "text_of t = (case t of Text s \<Rightarrow> s | _ \<Rightarrow> [])"

definition octets_of :: "target \<Rightarrow> bytes" where
  "octets_of t = (case t of Octets b \<Rightarrow> b | _ \<Rightarrow> [])"

definition items_of :: "target \<Rightarrow> target list" where
  "items_of t = (case t of Slice ts \<Rightarrow> ts | _ \<Rightarrow> [])"

section \<open>What the server writes is what a client reads\<close>

text \<open>The value a marshalled one stands for, and how deep it is.\<close>

fun to_json :: "jval \<Rightarrow> json" where
  "to_json (VStr s) = JStr (on_wire s)"
| "to_json (VInt i) = json_of_int i"
| "to_json (VBool b) = JBool b"
| "to_json (VBytes b) = JStr (std_encode b)"
| "to_json (VArr vs) = JArr (map to_json vs)"
| "to_json (VObj ms) = JObj (map (\<lambda>(k, v). (on_wire k, to_json v)) ms)"

fun nesting :: "jval \<Rightarrow> nat" where
  "nesting (VArr vs) = Suc (foldr (\<lambda>v. max (nesting v)) vs 0)"
| "nesting (VObj ms) = Suc (foldr (\<lambda>(k, v). max (nesting v)) ms 0)"
| "nesting _ = 0"

lemma nesting_le:
  "foldr (\<lambda>v. max (nesting v)) vs 0 \<le> n \<longleftrightarrow> (\<forall>v \<in> set vs. nesting v \<le> n)"
  "foldr (\<lambda>(k, v). max (nesting v)) ms 0 \<le> n \<longleftrightarrow> (\<forall>m \<in> set ms. nesting (snd m) \<le> n)"
proof -
  show "foldr (\<lambda>v. max (nesting v)) vs 0 \<le> n \<longleftrightarrow> (\<forall>v \<in> set vs. nesting v \<le> n)" by (induction vs) auto
  show "foldr (\<lambda>(k, v). max (nesting v)) ms 0 \<le> n \<longleftrightarrow> (\<forall>m \<in> set ms. nesting (snd m) \<le> n)"
    by (induction ms) (simp_all add: split_beta)
qed

lemma marshal_starts:
  obtains c t where "marshal v = c # t" "\<not> json_space c" "c \<noteq> CHR '']''" "c \<noteq> CHR ''}''"
proof (cases v)
  case (VInt i)
  obtain c t where it: "itoa i = c # t" using itoa_nonempty [of i] by (cases "itoa i") auto
  then have "number_char c" using itoa_chars [of i] by simp
  then have "\<not> json_space c \<and> c \<noteq> CHR '']'' \<and> c \<noteq> CHR ''}''" by (auto simp: number_char_def is_digit_def json_space_def)
  with that it VInt show ?thesis by auto
next
  case (VBool b)
  then show ?thesis using that by (cases b) (auto simp: json_space_def)
qed (use that in \<open>auto simp: quoted_def quote_def json_space_def\<close>)

lemma skip_marshal [simp]: "skip_space (marshal v @ x) = marshal v @ x"
  using marshal_starts [of v] by (metis append_Cons dropWhile.simps(2) skip_space_def)

lemma skip_stop [simp]: "\<not> json_space c \<Longrightarrow> skip_space (c # x) = c # x"
  by (simp add: skip_space_def)

lemma stop_chars [simp]: "\<not> json_space (CHR '','')" "\<not> json_space (CHR '']'')" "\<not> json_space (CHR ''}'')"
    "\<not> json_space (CHR ''['')" "\<not> json_space (CHR ''{'')" "\<not> json_space (CHR '':'')" "\<not> json_space quote"
  by (simp_all add: json_space_def quote_def)

lemma scan_leaf_atom:
  assumes "leaf v = Some j" "ends_value x"
  shows "scan_atom (marshal v @ x) = Some (j, x)"
proof -
  obtain r where "scan_scalar (marshal v @ x) = Some (j, x)" using scan_leaf [OF assms] by blast
  then show ?thesis
    by (auto simp: scan_scalar_def scan_atom_def split: list.splits if_splits option.splits prod.splits)
qed

lemma scan_int_atom:
  assumes "ends_value x"
  shows "scan_atom (itoa i @ x) = Some (json_of_int i, x)"
proof -
  obtain c t where it: "itoa i = c # t" using itoa_nonempty [of i] by (cases "itoa i") auto
  then have "number_char c" using itoa_chars [of i] by simp
  then have "c \<noteq> quote" "c \<noteq> CHR ''t''" "c \<noteq> CHR ''f''" "c \<noteq> CHR ''n''"
    by (auto simp: number_char_def is_digit_def quote_def)
  then have "scan_atom (itoa i @ x) = map_option (\<lambda>((sign, whole, frac, ex), r). (JNum sign whole frac ex, r)) (scan_number (itoa i @ x))"
    by (simp add: scan_atom_def it)
  then show ?thesis using scan_number_itoa [OF assms, of i] by (simp add: json_of_int_def)
qed

lemma scan_flat_atom:
  assumes "nesting v = 0" "ends_value x"
  shows "scan_atom (marshal v @ x) = Some (to_json v, x)"
proof (cases v)
  case (VInt i)
  with scan_int_atom [OF assms(2)] show ?thesis by simp
qed (use assms scan_leaf_atom [of v "to_json v" x] in auto)

lemma read_value_flat:
  assumes "nesting v = 0" "ends_value x"
  shows "read_value levels (marshal v @ x) = Some (to_json v, x)"
proof -
  obtain c t where m: "marshal v = c # t" "\<not> json_space c" "c \<noteq> CHR ''['' \<and> c \<noteq> CHR ''{''"
  proof (cases "\<exists>j. leaf v = Some j")
    case True
    then show thesis using leaf_starts [of v] that by (metis insertCI)
  next
    case False
    then obtain i where "v = VInt i" using assms(1) by (cases v) auto
    moreover obtain c t where it: "itoa i = c # t" using itoa_nonempty [of i] by (cases "itoa i") auto
    moreover have "number_char c" using itoa_chars [of i] it by simp
    then have "\<not> json_space c" "c \<noteq> CHR ''['' \<and> c \<noteq> CHR ''{''"
      by (auto simp: number_char_def is_digit_def json_space_def)
    ultimately show thesis using that by simp
  qed
  have "scan_atom (c # t @ x) = Some (to_json v, x)" using scan_flat_atom [OF assms] m(1) by simp
  then have "read_with inner (marshal v @ x) = Some (to_json v, x)" for inner
    using m by (simp add: read_with_def)
  then show ?thesis by (cases levels) simp_all
qed

lemma read_name_quoted [simp]: "read_name (quoted (escape k) @ CHR '':'' # x) = Some (on_wire k, x)"
  by (simp add: read_name_def quoted_def scan_escape on_wire_def)

lemma ends_more [simp]: "ends_value (CHR '','' # x)" "ends_value (CHR '']'' # x)" "ends_value (CHR ''}'' # x)"
    "ends_value newline"
  by (simp_all add: ends_value_def newline_def)

text \<open>Lists of values, and of members, after the opening bracket.\<close>

definition reads_back :: "nat \<Rightarrow> jval \<Rightarrow> bool" where
  "reads_back levels v \<longleftrightarrow> (\<forall>x. ends_value x \<longrightarrow> read_value levels (marshal v @ x) = Some (to_json v, x))"

lemma reads_back_flat: "nesting v = 0 \<Longrightarrow> reads_back levels v"
  by (simp add: reads_back_def read_value_flat)

lemma read_items_back:
  assumes "\<forall>v \<in> set (v # vs). reads_back levels v" "length vs < n"
  shows "read_items (read_value levels) n (marshal_items (v # vs) @ CHR '']'' # x) acc = Some (acc @ map to_json (v # vs), x)"
  using assms
proof (induction vs arbitrary: v n acc)
  case Nil
  then obtain m where "n = Suc m" by (cases n) auto
  with Nil show ?case by (simp add: reads_back_def)
next
  case (Cons w vs)
  then obtain m where n: "n = Suc m" "length vs < m" by (cases n) auto
  have "read_value levels (marshal v @ CHR '','' # marshal_items (w # vs) @ CHR '']'' # x)
      = Some (to_json v, CHR '','' # marshal_items (w # vs) @ CHR '']'' # x)"
    using Cons.prems(1) by (simp add: reads_back_def)
  with Cons.IH [OF _ n(2), of w "acc @ [to_json v]"] Cons.prems(1) show ?case by (simp add: n(1))
qed

lemma read_fields_back:
  assumes "\<forall>m \<in> set (m # ms). reads_back levels (snd m)" "length ms < n"
  shows "read_fields (read_value levels) n (marshal_members (m # ms) @ CHR ''}'' # x) acc
    = Some (acc @ map (\<lambda>(k, v). (on_wire k, to_json v)) (m # ms), x)"
  using assms
proof (induction ms arbitrary: m n acc)
  case Nil
  then obtain l where "n = Suc l" by (cases n) auto
  with Nil show ?case by (cases m) (simp add: reads_back_def)
next
  case (Cons m' ms)
  then obtain l where n: "n = Suc l" "length ms < l" by (cases n) auto
  obtain k v where m: "m = (k, v)" by fastforce
  have "read_value levels (marshal v @ CHR '','' # marshal_members (m' # ms) @ CHR ''}'' # x)
      = Some (to_json v, CHR '','' # marshal_members (m' # ms) @ CHR ''}'' # x)"
    using Cons.prems(1) by (simp add: reads_back_def m)
  with Cons.IH [OF _ n(2), of m' "acc @ [(on_wire k, to_json v)]"] Cons.prems(1) show ?case by (simp add: n(1) m)
qed

lemma marshal_items_length: "length vs \<le> length (marshal_items vs)"
proof (induction vs rule: induct_list012)
  case (2 v)
  show ?case using marshal_starts [of v] by (metis length_Cons length_greater_0_conv list.distinct(1) list.size(3) marshal_items.simps(2) One_nat_def Suc_leI)
next
  case (3 v w vs)
  then show ?case by simp
qed simp

lemma marshal_members_length: "length ms \<le> length (marshal_members ms)"
  by (induction ms rule: induct_list012) (auto simp: quoted_def split: prod.splits)

lemma reads_back: "nesting v \<le> levels \<Longrightarrow> reads_back levels v"
proof (induction v arbitrary: levels)
  case (VArr vs)
  then obtain l where l: "levels = Suc l" "\<forall>v \<in> set vs. nesting v \<le> l"
    by (cases levels) (auto simp: nesting_le)
  show ?case
  proof (cases vs)
    case Nil
    then show ?thesis by (simp add: reads_back_def l(1) read_with_def)
  next
    case (Cons w ws)
    have "\<forall>v \<in> set (w # ws). reads_back l v" using VArr.IH l(2) Cons by blast
    moreover have "length ws < length (marshal_items (w # ws) @ CHR '']'' # x)" for x
      using marshal_items_length [of "w # ws"] by simp
    ultimately have "read_items (read_value l) (length (marshal_items (w # ws) @ CHR '']'' # x)) (marshal_items (w # ws) @ CHR '']'' # x) []
        = Some (map to_json (w # ws), x)" for x
      using read_items_back [where v = w and vs = ws and levels = l and x = x and acc = "[]"]
      by (simp del: read_items.simps read_fields.simps)
    moreover obtain c t where "marshal_items (w # ws) = c # t" "\<not> json_space c" "c \<noteq> CHR '']''"
    proof -
      obtain c t where "marshal w = c # t" "\<not> json_space c" "c \<noteq> CHR '']''" by (rule marshal_starts [of w])
      then show thesis by (cases ws) (simp_all add: that)
    qed
    ultimately show ?thesis
      by (simp add: reads_back_def l(1) read_with_def Cons del: marshal_items.simps read_items.simps)
  qed
next
  case (VObj ms)
  then obtain l where l: "levels = Suc l" "\<forall>m \<in> set ms. nesting (snd m) \<le> l"
    by (cases levels) (auto simp: nesting_le)
  show ?case
  proof (cases ms)
    case Nil
    then show ?thesis by (simp add: reads_back_def l(1) read_with_def)
  next
    case (Cons w ws)
    have "\<forall>m \<in> set (w # ws). reads_back l (snd m)" using VObj.IH l(2) Cons by (metis prod.collapse snds.intros)
    moreover have "length ws < length (marshal_members (w # ws) @ CHR ''}'' # x)" for x
      using marshal_members_length [of "w # ws"] by simp
    ultimately have "read_fields (read_value l) (length (marshal_members (w # ws) @ CHR ''}'' # x)) (marshal_members (w # ws) @ CHR ''}'' # x) []
        = Some (map (\<lambda>(k, v). (on_wire k, to_json v)) (w # ws), x)" for x
      using read_fields_back [where m = w and ms = ws and levels = l and x = x and acc = "[]"]
      by (simp del: read_items.simps read_fields.simps)
    moreover obtain t where "marshal_members (w # ws) = quote # t"
      by (cases w; cases ws) (auto simp: quoted_def)
    ultimately show ?thesis
      by (simp add: reads_back_def l(1) read_with_def Cons quote_def json_space_def del: marshal_members.simps read_fields.simps)
  qed
qed (simp_all only: reads_back_flat nesting.simps)

theorem marshal_read: "nesting v \<le> 10000 \<Longrightarrow> read_json (marshal v @ newline) = Some (to_json v)"
  using reads_back [of v 10000] by (simp add: read_json_def reads_back_def)

end
