(* ===== verification/Smoke.thy ===== *)
theory Smoke
  imports Command ClientJson
begin

text \<open>
  The smoke test tool (\<open>tools/smoke/main.go\<close>): it makes a configuration, runs the commands of the program on
  it, and drives the server that is started over HTTPS.  The commands are those of the command line and
  the server is that of the handlers; the tool is modelled as their client.
\<close>

section \<open>The tool's side of a request\<close>

text \<open>What happens at one request: what the server deals with before it, the moment, the address it comes from,
  and whether it or its answer is lost.  The tool runs on \<open>cl_turns\<close>.\<close>

datatype fate = Answered | Never_sent | Answer_lost

record turn =
  tn_before :: "server_event list"
  tn_env :: env
  tn_address :: string
  tn_fate :: fate

text \<open>\<open>event\<close>: a step that went well.\<close>

record event =
  ev_step :: string
  ev_status :: nat
  ev_resource :: string

record client =
  cl_server :: server
  cl_turns :: "turn list"
  cl_events :: "event list"

type_synonym 'a cl = "(client, 'a) action"

text \<open>The errors of the tool are texts; those it passes on are \<open>Lib_error\<close>.\<close>

definition fails :: "string \<Rightarrow> 'a cl" where
  "fails message = throw (P2p message)"

definition require :: "bool \<Rightarrow> string \<Rightarrow> 'a cl \<Rightarrow> 'a cl" where
  "require c message k = (if c then k else fails message)"

definition exchange :: "lib \<Rightarrow> route \<Rightarrow> (string \<Rightarrow> request) \<Rightarrow> (nat \<times> bytes) cl" where
  "exchange lib rt rq s = (case cl_turns s of
     [] \<Rightarrow> (Inl Lib_error, s)
   | t # ts \<Rightarrow>
       let server = server_run lib (tn_before t) (cl_server s); s1 = s\<lparr>cl_server := server, cl_turns := ts\<rparr> in
       if tn_fate t = Never_sent then (Inl Lib_error, s1)
       else (case handle lib (tn_env t) False rt (rq (tn_address t)) server of
         (response, server') \<Rightarrow>
           (case (tn_fate t, wire response) of (Answered, Some answer) \<Rightarrow> Inr answer | _ \<Rightarrow> Inl Lib_error,
            s1\<lparr>cl_server := server'\<rparr>)))"

text \<open>\<open>call\<close>: the body is sent with every method.  \<open>rt\<close> is the route of the method and the path.\<close>

definition client_request :: "certificate list \<Rightarrow> string \<Rightarrow> bytes \<Rightarrow> string \<Rightarrow> request" where
  "client_request certs token body address =
     \<lparr>rq_RemoteAddr = address, rq_TLS = Some certs, rq_RawQuery = [], rq_ContentType = ''application/json'',
      rq_Authorization = (if token \<noteq> [] then [''Bearer '' @ token] else []), rq_Origin = [], rq_Body = body, rq_Broken = False\<rparr>"

definition of_body :: "'a option \<Rightarrow> 'a cl" where
  "of_body r = (case r of None \<Rightarrow> throw Lib_error | Some x \<Rightarrow> ret x)"

definition append_event :: "event \<Rightarrow> unit cl" where
  "append_event e s = (Inr (), s\<lparr>cl_events := cl_events s @ [e]\<rparr>)"

definition call :: "lib \<Rightarrow> string \<Rightarrow> string \<Rightarrow> route \<Rightarrow> string \<Rightarrow> bytes \<Rightarrow> (bytes \<Rightarrow> 'a option) \<Rightarrow> nat \<Rightarrow> 'a cl" where
  "call lib method path rt token body decode want =
     bnd (exchange lib rt (client_request [] token body))
       (\<lambda>(status, answer). require (status = want) (method @ '' '' @ path @ '' status'')
       (bnd (of_body (decode answer))
         (\<lambda>x. bnd (append_event \<lparr>ev_step = method @ '' '' @ path, ev_status = status, ev_resource = []\<rparr>)
         (\<lambda>_. ret x))))"

text \<open>\<open>mutualClient\<close>: the certificate a connection presents; there is none when it cannot be parsed.\<close>

definition mutualClient :: "lib \<Rightarrow> bytes \<Rightarrow> certificate list option" where
  "mutualClient lib certificate = map_option (\<lambda>cert. [cert]) (parse_cert (lib_crypto lib) certificate)"

text \<open>\<open>deviceCall\<close>, over a connection of a device.\<close>

definition deviceCall :: "lib \<Rightarrow> bytes \<Rightarrow> string \<Rightarrow> (bytes \<Rightarrow> 'a option) \<Rightarrow> 'a cl" where
  "deviceCall lib certificate path decode =
     (case mutualClient lib certificate of
        None \<Rightarrow> throw Lib_error
      | Some certs \<Rightarrow>
          bnd (exchange lib (Enrolled (PostOperation path)) (client_request certs [] ''{}''))
            (\<lambda>(status, answer). require (status = 200) (''POST /v1'' @ path @ '' status'') (of_body (decode answer))))"

section \<open>What it sends and reads\<close>

definition json_Enrollment :: "Enrollment \<Rightarrow> jval" where
  "json_Enrollment e = VObj [(''requestId'', VStr (en_RequestID e)), (''token'', VStr (en_Token e)),
     (''csr'', VStr (en_CSR e)), (''name'', VStr (en_Name e))]"

definition text_fields :: "bytes list \<Rightarrow> (bytes \<times> shape) list" where
  "text_fields tags = map (\<lambda>tag. (tag, Leaf KString)) tags"

definition session_shape :: shape where
  "session_shape = Fields [(''user'', Fields (text_fields [''userId'', ''username''])), (''token'', Leaf KString),
     (''expiresAt'', Leaf (KInt 64))]"

definition network_shape :: shape where
  "network_shape = Fields (text_fields [''networkId'', ''userId'', ''name''] @ [(''maxDevices'', Leaf (KInt 64))])"

definition grant_shape :: shape where
  "grant_shape = Fields (text_fields [''token'', ''networkId''] @ [(''expiresAt'', Leaf (KInt 64))])"

definition device_shape :: shape where
  "device_shape = Fields [(''deviceId'', Leaf KString), (''userId'', Leaf KString), (''publicKey'', Leaf KBytes),
     (''name'', Leaf KString), (''certificate'', Leaf KBytes)]"

definition pairs_shape :: shape where
  "pairs_shape = Fields [(''pairs'', Items (Fields (text_fields [''pairId'', ''networkId'', ''initiator'', ''target'', ''state'']
     @ [(''expiresAt'', Leaf (KInt 64)), (''revision'', Leaf (KUint 64))])))]"

section \<open>The run against the server\<close>

text \<open>What the tool draws and the libraries answer: the password, the random texts of the request identifiers
  (32 bytes each), the key and the certificate request of each of its two devices.\<close>

record draws =
  dr_password :: bytes
  dr_requests :: "bytes \<times> bytes"
  dr_keys :: "bytes \<times> bytes"
  dr_csrs :: "bytes option \<times> bytes option"

text \<open>\<open>randomText\<close>, and the identifier cut from it.\<close>

definition randomText :: "bytes \<Rightarrow> string" where
  "randomText data = hex_encode (take 32 data)"

definition request_id :: "bytes \<Rightarrow> string" where
  "request_id data = take 32 (randomText data)"

definition enrolment :: "key_lib \<Rightarrow> bytes \<Rightarrow> string \<Rightarrow> bytes \<Rightarrow> string \<Rightarrow> Enrollment" where
  "enrolment K data token csr name =
     \<lparr>en_RequestID = request_id data, en_Token = token, en_CSR = pem_encode K ''CERTIFICATE REQUEST'' csr, en_Name = name\<rparr>"

text \<open>The enrolment of both devices; the second is \<open>enrollDevice\<close>.\<close>

definition enroll_call :: "lib \<Rightarrow> key_lib \<Rightarrow> bytes \<Rightarrow> string \<Rightarrow> bytes option \<Rightarrow> string \<Rightarrow> target cl" where
  "enroll_call lib K data token csr name = (case csr of
     None \<Rightarrow> throw Lib_error
   | Some der \<Rightarrow> call lib ''POST'' ''/v1/enroll'' (Public PostEnroll) [] (marshal (json_Enrollment (enrolment K data token der name)))
       (decode_into device_shape) 200)"

definition networks_path :: string where
  "networks_path = ''/v1/networks''"

text \<open>Signing in, the network and the first device.\<close>

definition sign_in :: "lib \<Rightarrow> draws \<Rightarrow> (string \<times> string) cl" where
  "sign_in lib dr =
     bnd (call lib ''POST'' ''/v1/login'' (Public PostLogin) []
            (marshal (VObj [(''password'', VStr (randomText (dr_password dr))), (''username'', VStr ''smoke@test.com'')]))
            (decode_into session_shape) 200)
       (\<lambda>session. let user = get ''user'' session; token = text_of (get ''token'' session);
                      userID = text_of (get ''userId'' user) in
         require (text_of (get ''username'' user) = ''smoke@test.com'' \<and> userID \<noteq> [] \<and> length token = 64)
           ''login identity readback mismatch'' (ret (userID, token)))"

definition note_resource :: "string \<Rightarrow> unit cl" where
  "note_resource i s = (Inr (), s\<lparr>cl_events := butlast (cl_events s) @ [(last (cl_events s))\<lparr>ev_resource := i\<rparr>]\<rparr>)"

definition make_network :: "lib \<Rightarrow> string \<Rightarrow> string \<Rightarrow> string cl" where
  "make_network lib userID token =
     bnd (call lib ''POST'' networks_path (Private PostNetworks) token (marshal (VObj [(''name'', VStr ''runtime-network'')]))
            (decode_into network_shape) 200)
       (\<lambda>network. let i = text_of (get ''networkId'' network) in
         require (text_of (get ''userId'' network) = userID \<and> text_of (get ''name'' network) = ''runtime-network'' \<and> i \<noteq> [])
           ''network ownership readback mismatch''
         (bnd (note_resource i)
            (\<lambda>_. bnd (call lib ''GET'' networks_path (Private GetNetworks) token ''null'' (decode_into (Items network_shape)) 200)
            (\<lambda>networks. require (items_of networks = [network]) ''persisted network readback mismatch'' (ret i)))))"

definition network_grant :: "lib \<Rightarrow> string \<Rightarrow> string \<Rightarrow> target cl" where
  "network_grant lib token networkID =
     call lib ''POST'' (networks_path @ ''/'' @ networkID @ ''/enrollment-tokens'') (Private (PostTokens networkID)) token ''{}''
       (decode_into grant_shape) 200"

definition first_device :: "lib \<Rightarrow> key_lib \<Rightarrow> draws \<Rightarrow> string \<Rightarrow> string \<Rightarrow> string \<Rightarrow> string cl" where
  "first_device lib K dr userID token networkID =
     bnd (network_grant lib token networkID)
       (\<lambda>grant. require (text_of (get ''networkId'' grant) = networkID \<and> length (text_of (get ''token'' grant)) = 64)
          ''binding token scope mismatch''
       (bnd (enroll_call lib K (fst (dr_requests dr)) (text_of (get ''token'' grant)) (fst (dr_csrs dr)) ''runtime-device'')
          (\<lambda>device. require (text_of (get ''userId'' device) = userID \<and> text_of (get ''name'' device) = ''runtime-device''
                \<and> octets_of (get ''publicKey'' device) = ed_public (lib_crypto lib) (fst (dr_keys dr)))
             ''device binding readback mismatch''
          (bnd (call lib ''GET'' (networks_path @ ''/'' @ networkID @ ''/devices'') (Private (GetNetworkDevices networkID)) token ''null''
                  (decode_into (Items device_shape)) 200)
             (\<lambda>devices. let i = text_of (get ''deviceId'' device) in
               require (case items_of devices of [d] \<Rightarrow> text_of (get ''deviceId'' d) = i \<and> text_of (get ''userId'' d) = userID | _ \<Rightarrow> False)
                 ''network membership readback mismatch'' (ret i))))))"

text \<open>The second device, and the adoption of the first by it, twice.\<close>

definition adoption :: "lib \<Rightarrow> key_lib \<Rightarrow> draws \<Rightarrow> string \<Rightarrow> string \<Rightarrow> unit cl" where
  "adoption lib K dr token networkID =
     bnd (network_grant lib token networkID)
       (\<lambda>grant. bnd (enroll_call lib K (snd (dr_requests dr)) (text_of (get ''token'' grant)) (snd (dr_csrs dr)) ''runtime-device-2'')
       (\<lambda>device. let certificate = octets_of (get ''certificate'' device) in
         bnd (deviceCall lib certificate ''/adopt-network'' (decode_into pairs_shape))
       (\<lambda>adopted. case items_of (get ''pairs'' adopted) of
            [pair] \<Rightarrow>
              require (text_of (get ''state'' pair) = ''active'') ''adopted pair state, want active''
              (require (text_of (get ''networkId'' pair) = networkID) ''adopted pair is not in the shared network''
              (bnd (append_event \<lparr>ev_step = ''POST /v1/adopt-network'', ev_status = 200, ev_resource = text_of (get ''pairId'' pair)\<rparr>)
                (\<lambda>_. bnd (deviceCall lib certificate ''/adopt-network'' (decode_into pairs_shape))
                (\<lambda>again. require (items_of (get ''pairs'' again) = []) ''second adoption duplicated pairs'' (ret ())))))
          | _ \<Rightarrow> fails ''adoption produced pairs, want 1'')))"

text \<open>Leaving: the network is deleted and the session ended.  One map takes all the answers.\<close>

definition leaving :: "lib \<Rightarrow> string \<Rightarrow> string \<Rightarrow> unit cl" where
  "leaving lib token networkID =
     bnd (call lib ''DELETE'' (networks_path @ ''/'' @ networkID) (Private (RemoveNetwork networkID)) token ''{}'' (decode_map Map.empty) 200)
       (\<lambda>r1. require (r1 ''deleted'' = Some (JBool True)) ''network delete did not confirm''
       (bnd (call lib ''GET'' (networks_path @ ''/'' @ networkID @ ''/devices'') (Private (GetNetworkDevices networkID)) token ''null''
               (decode_map r1) 403)
       (\<lambda>r2. require (r2 ''code'' = Some (JStr ''p2p.network_unauthorized'')) ''deleted network remained authorized''
       (bnd (call lib ''POST'' ''/v1/logout'' (Private PostLogout) token ''{}'' (decode_map r2) 200)
       (\<lambda>r3. bnd (call lib ''GET'' networks_path (Private GetNetworks) token ''null'' (decode_map r3) 401)
       (\<lambda>r4. require (r4 ''code'' = Some (JStr ''p2p.user_unauthorized'')) ''logout retained authorization'' (ret ())))))))"

text \<open>The loop that waits for the server: until an answer of status 200 or the deadline.\<close>

fun await :: "lib \<Rightarrow> time \<Rightarrow> turn list \<Rightarrow> client \<Rightarrow> (err + unit) \<times> client" where
  "await lib deadline [] s = (Inl Lib_error, s\<lparr>cl_turns := []\<rparr>)"
| "await lib deadline (t # ts) s =
     (if deadline \<le> ev_admitted (tn_env t) then fails ''production binary HTTPS startup failed'' (s\<lparr>cl_turns := t # ts\<rparr>)
      else (case exchange lib (Public GetHealth)
          (\<lambda>address. (client_request [] [] [] address)\<lparr>rq_ContentType := []\<rparr>) (s\<lparr>cl_turns := [t]\<rparr>) of
        (Inr (status, _), s') \<Rightarrow> if status = 200 then (Inr (), s'\<lparr>cl_turns := ts\<rparr>) else await lib deadline ts s'
      | (Inl _, s') \<Rightarrow> await lib deadline ts s'))"

definition drive :: "lib \<Rightarrow> key_lib \<Rightarrow> draws \<Rightarrow> time \<Rightarrow> (string \<times> string \<times> string) cl" where
  "drive lib K dr deadline =
     bnd (\<lambda>s. await lib deadline (cl_turns s) s)
       (\<lambda>_. bnd (append_event \<lparr>ev_step = ''binary-init-and-start'', ev_status = 200, ev_resource = []\<rparr>)
       (\<lambda>_. bnd (sign_in lib dr)
       (\<lambda>(userID, token). bnd (make_network lib userID token)
       (\<lambda>networkID. bnd (first_device lib K dr userID token networkID)
       (\<lambda>deviceID. bnd (adoption lib K dr token networkID)
       (\<lambda>_. bnd (leaving lib token networkID)
       (\<lambda>_. ret (userID, networkID, deviceID))))))))"

section \<open>The whole run\<close>

text \<open>What the host gives the tool: a directory, two free addresses, a certificate with its key, and how the
  three processes fare.\<close>

record place =
  pl_root :: "string option"
  pl_tcp :: "string option"
  pl_udp :: "string option"
  pl_tls :: "(bytes \<times> bytes) option"
  pl_host :: host
  pl_init :: command_env
  pl_add :: command_env
  pl_serve :: command_env

definition join_root :: "string \<Rightarrow> string \<Rightarrow> string" where
  "join_root root name = root @ ''/'' @ name"

definition smoke_config :: "string \<Rightarrow> string \<Rightarrow> string \<Rightarrow> Config" where
  "smoke_config root tcp udp = \<lparr>cf_HTTPSOrigin = ''https://'' @ tcp, cf_WSSURL = ''wss://'' @ tcp @ ''/v1/signals'',
     cf_STUNAddress = udp, cf_HTTPSListen = tcp, cf_STUNListen = udp, cf_TLSCertPath = join_root root ''tls.crt'',
     cf_TLSKeyPath = join_root root ''tls.key'', cf_DatabasePath = join_root root ''state.db'',
     cf_IdentityKeyPath = join_root root ''identity.key'', cf_TurnSharedSecret = [], cf_TurnListen = [],
     cf_RelayPublicIP = [], cf_RelayPortMin = 0, cf_RelayPortMax = 0\<rparr>"

definition json_Config :: "Config \<Rightarrow> jval" where
  "json_Config c = VObj [(''httpsOrigin'', VStr (cf_HTTPSOrigin c)), (''wssUrl'', VStr (cf_WSSURL c)),
     (''stunAddress'', VStr (cf_STUNAddress c)), (''httpsListen'', VStr (cf_HTTPSListen c)),
     (''stunListen'', VStr (cf_STUNListen c)), (''tlsCertPath'', VStr (cf_TLSCertPath c)),
     (''tlsKeyPath'', VStr (cf_TLSKeyPath c)), (''databasePath'', VStr (cf_DatabasePath c)),
     (''identityKeyPath'', VStr (cf_IdentityKeyPath c)), (''turnSharedSecret'', VStr (cf_TurnSharedSecret c)),
     (''turnListen'', VStr (cf_TurnListen c)), (''relayPublicIP'', VStr (cf_RelayPublicIP c)),
     (''relayPortMin'', VInt (cf_RelayPortMin c)), (''relayPortMax'', VInt (cf_RelayPortMax c))]"

text \<open>\<open>os.WriteFile(path, data, 0600)\<close>.\<close>

definition WriteFile :: "string \<Rightarrow> bytes \<Rightarrow> unit os" where
  "WriteFile path data = os_call (\<lambda>m.
     (Inr (), m\<lparr>m_files := (path, \<lparr>f_regular = True, f_perm = 0x180, f_content = Plain data\<rparr>) # m_files m\<rparr>))"

text \<open>The Go program ranges over a map: the files come in any order, and this is one.\<close>

definition write_files :: "key_lib \<Rightarrow> string \<Rightarrow> Config \<Rightarrow> bytes \<times> bytes \<Rightarrow> unit os" where
  "write_files K root config tls =
     bnd (WriteFile (cf_TLSCertPath config) (pem_encode K ''CERTIFICATE'' (fst tls)))
       (\<lambda>_. bnd (WriteFile (cf_TLSKeyPath config) (pem_encode K ''PRIVATE KEY'' (snd tls)))
       (\<lambda>_. WriteFile (join_root root ''config.json'') (marshal (json_Config config))))"

text \<open>A command of the program that is run to its end.\<close>

definition exec :: "lib \<Rightarrow> key_lib \<Rightarrow> host \<Rightarrow> command_env \<Rightarrow> string list \<Rightarrow> bytes \<Rightarrow> string \<Rightarrow> unit os" where
  "exec lib K h ce args stdin message =
     bnd (mapErr (\<lambda>_. P2p message) (run lib K h ce args \<lparr>in_bytes = stdin, in_broken = False\<rparr>)) (\<lambda>_. ret ())"

definition prepare :: "lib \<Rightarrow> key_lib \<Rightarrow> draws \<Rightarrow> place \<Rightarrow> string \<Rightarrow> Config \<Rightarrow> bytes \<times> bytes \<Rightarrow> unit os" where
  "prepare lib K dr pl root config tls =
     bnd (write_files K root config tls)
       (\<lambda>_. bnd (exec lib K (pl_host pl) (pl_init pl) [''init'', ''--config'', join_root root ''config.json''] [] ''binary init failed'')
       (\<lambda>_. exec lib K (pl_host pl) (pl_add pl)
          [''user-add'', ''--config'', join_root root ''config.json'', ''--username'', ''smoke@test.com'']
          (randomText (dr_password dr) @ newline) ''binary account creation failed''))"

text \<open>The server of the third process, once it listens.\<close>

definition started :: "lib \<Rightarrow> key_lib \<Rightarrow> place \<Rightarrow> string \<Rightarrow> machine \<Rightarrow> server option" where
  "started lib K pl root m = (case read_config lib K (join_root root ''config.json'') m of
     (Inl _, _) \<Rightarrow> None
   | (Inr config, m1) \<Rightarrow>
       (case OpenStore (lib_crypto lib) K (ce_salt (pl_serve pl)) (ce_rnd (pl_serve pl)) (ce_faults (pl_serve pl))
              (cf_DatabasePath config) (cf_IdentityKeyPath config) m1 of
          (Inl _, _) \<Rightarrow> None
        | (Inr s, _) \<Rightarrow> (case NewServer lib config s of
            Inl _ \<Rightarrow> None
          | Inr server \<Rightarrow>
              if h_tls (pl_host pl) \<and> h_listen (pl_host pl) ''tcp'' (cf_HTTPSListen config)
                 \<and> h_listen (pl_host pl) ''udp'' (udpListen lib server) then Some server else None)))"

text \<open>\<open>json.MarshalIndent\<close> with two spaces.\<close>

definition margin :: "nat \<Rightarrow> bytes" where
  "margin n = newline @ replicate (2 * n) (CHR '' '')"

fun indented :: "nat \<Rightarrow> jval \<Rightarrow> bytes" and indented_items :: "nat \<Rightarrow> jval list \<Rightarrow> bytes"
  and indented_members :: "nat \<Rightarrow> (bytes \<times> jval) list \<Rightarrow> bytes" where
  "indented n (VArr vs) = (if vs = [] then ''[]'' else ''['' @ indented_items (Suc n) vs @ margin n @ '']'')"
| "indented n (VObj ms) = (if ms = [] then ''{}'' else ''{'' @ indented_members (Suc n) ms @ margin n @ ''}'')"
| "indented n v = marshal v"
| "indented_items n [] = []"
| "indented_items n (v # vs) = margin n @ indented n v @ (if vs = [] then [] else '','') @ indented_items n vs"
| "indented_members n [] = []"
| "indented_members n ((k, v) # ms) =
     margin n @ quoted (escape k) @ '': '' @ indented n v @ (if ms = [] then [] else '','') @ indented_members n ms"

definition json_event :: "event \<Rightarrow> jval" where
  "json_event e = VObj [(''step'', VStr (ev_step e)), (''status'', VInt (int (ev_status e))), (''resourceId'', VStr (ev_resource e))]"

definition report_of :: "string \<times> string \<times> string \<Rightarrow> event list \<Rightarrow> jval" where
  "report_of ids events = (case ids of (userID, networkID, deviceID) \<Rightarrow>
     VObj [(''deviceId'', VStr deviceID), (''events'', VArr (map json_event events)),
       (''kind'', VStr ''local-production-process-diagnostic''), (''networkId'', VStr networkID), (''userId'', VStr userID)])"

text \<open>The report; making its directory is a call that may fail.\<close>

definition write_report :: "string \<Rightarrow> string \<times> string \<times> string \<Rightarrow> event list \<Rightarrow> unit os" where
  "write_report report ids events =
     bnd (os_call (ret ())) (\<lambda>_. WriteFile report (indented 0 (report_of ids events) @ newline))"

text \<open>\<open>run\<close>.\<close>

definition smoke :: "lib \<Rightarrow> key_lib \<Rightarrow> draws \<Rightarrow> place \<Rightarrow> turn list \<Rightarrow> time \<Rightarrow> string \<Rightarrow> string \<Rightarrow> unit os" where
  "smoke lib K dr pl turns deadline binary report =
     (if \<not> IsAbs binary \<or> report = [] then throw (P2p ''explicit binary and report required'')
      else (case (pl_root pl, pl_tcp pl, pl_udp pl, pl_tls pl) of
        (Some root, Some tcp, Some udp, Some tls) \<Rightarrow>
          bnd (prepare lib K dr pl root (smoke_config root tcp udp) tls)
            (\<lambda>_. if parse_cert (lib_crypto lib) (fst tls) = None then throw Lib_error
              else withStore (\<lambda>m. case started lib K pl root m of
                None \<Rightarrow> throw (P2p ''production binary HTTPS startup failed'')
              | Some server \<Rightarrow>
                  (case drive lib K dr deadline \<lparr>cl_server = server, cl_turns = turns, cl_events = []\<rparr> of
                     (Inl e, _) \<Rightarrow> throw e
                   | (Inr ids, c) \<Rightarrow> write_report report ids (cl_events c))))
      | _ \<Rightarrow> throw Lib_error))"

text \<open>\<open>main\<close>, from the values of its two flags: the exit status and the standard output.\<close>

definition smoke_main ::
  "lib \<Rightarrow> key_lib \<Rightarrow> draws \<Rightarrow> place \<Rightarrow> turn list \<Rightarrow> time \<Rightarrow> string \<Rightarrow> string \<Rightarrow> machine \<Rightarrow> (int \<times> string) \<times> machine"
where
  "smoke_main lib K dr pl turns deadline binary report m =
     (case smoke lib K dr pl turns deadline binary report m of
        (Inl _, m') \<Rightarrow> ((1, []), m')
      | (Inr _, m') \<Rightarrow> ((0, ''production process HTTPS and persistence smoke: PASS'' @ newline), m'))"

section \<open>Actions that never return\<close>

definition stuck :: "('s, 'a) action \<Rightarrow> bool" where
  "stuck m \<longleftrightarrow> (\<forall>s. isl (fst (m s)))"

named_theorems stuck_intros "closure of the actions that never return"

lemma stuck_throw [stuck_intros]: "stuck (throw e)"
  by (simp add: stuck_def throw_def)

lemma stuck_bnd_first [stuck_intros]: "stuck m \<Longrightarrow> stuck (bnd m f)"
  by (auto simp: stuck_def bnd_def split: prod.splits sum.splits) (metis fst_conv isl_def sum.disc(2))

lemma stuck_bnd: "(\<And>x. stuck (f x)) \<Longrightarrow> stuck (bnd m f)"
  by (auto simp: stuck_def bnd_def split: prod.splits sum.splits)

lemma stuck_guard: "stuck m \<Longrightarrow> stuck (guard c e m)" "stuck m \<Longrightarrow> stuck (require c msg m)"
  by (simp_all add: guard_def require_def fails_def stuck_throw)

lemma stuck_prod: "(\<And>a b. stuck (f a b)) \<Longrightarrow> stuck (case p of (a, b) \<Rightarrow> f a b)"
  by (cases p) simp

lemma stuck_withStore: "(\<And>s. stuck (f s)) \<Longrightarrow> stuck (withStore f)"
  by (simp add: stuck_def withStore_def)

lemma stuck_on_sessions: "stuck m \<Longrightarrow> stuck (on_sessions m)"
  by (simp add: stuck_def on_sessions_def split: prod.splits) (metis fst_conv)

lemma stuck_of_store: "stuck m \<Longrightarrow> stuck (of_store m)"
  unfolding of_store_def
  by (rule stuck_on_sessions) (simp add: stuck_def on_store_def split: prod.splits, metis fst_conv)

section \<open>The enrolment of the tool\<close>

lemma over_limit_Decode: "over_limit data \<Longrightarrow> Decode fs (take (Suc MaxControlBytes) data) = Inl (P2p ''p2p.protocol_limit'')"
  by (simp add: Decode_def over_limit_def)

lemma enrollment_tags_valid: "\<forall>f \<in> set enrollment_tags. valid_utf8 (fst f)" "distinct (map fst enrollment_tags)"
  by (simp_all add: enrollment_tags_def texts_def ascii_valid)

text \<open>The service reads the enrolment the tool has written, if it is not too long.\<close>

lemma read_enrolment:
  assumes "\<not> over_limit (marshal (json_Enrollment e))"
  obtains m where "Decode enrollment_tags (marshal (json_Enrollment e)) = Inr m"
    "enrollment_of m = \<lparr>en_RequestID = on_wire (en_RequestID e), en_Token = on_wire (en_Token e),
       en_CSR = on_wire (en_CSR e), en_Name = on_wire (en_Name e)\<rparr>"
proof -
  obtain ms where ms: "json_Enrollment e = VObj ms" by (simp add: json_Enrollment_def)
  have "struct_of enrollment_tags ms" using ms by (auto simp: struct_of_def enrollment_tags_def texts_def json_Enrollment_def)
  then have d: "Decode enrollment_tags (marshal (json_Enrollment e)) = Inr (filled enrollment_tags ms Map.empty)"
    using assms enrollment_tags_valid unfolding ms by (intro Decode_marshal) (simp_all add: enrollment_tags_def texts_def del: marshal.simps)
  have "enrollment_of (filled enrollment_tags ms Map.empty) = \<lparr>en_RequestID = on_wire (en_RequestID e), en_Token = on_wire (en_Token e),
       en_CSR = on_wire (en_CSR e), en_Name = on_wire (en_Name e)\<rparr>"
    using ms by (auto simp: filled_def enrollment_of_def enrollment_tags_def texts_def json_Enrollment_def str_field_def)
  with d show thesis by (rule that)
qed

lemma request_id_long: "length data = 32 \<Longrightarrow> \<not> ValidID (on_wire (request_id data))"
proof -
  assume len: "length data = 32"
  have hex: "list_all lower_hex (randomText data)" by (simp add: randomText_def hex_encode_lower)
  then have ascii: "\<forall>c \<in> set (request_id data). byte_of c < 0x80"
    by (auto simp: request_id_def list_all_iff lower_hex_def Let_def dest!: in_set_takeD)
  have "length (request_id data) = 32" using len by (simp add: request_id_def randomText_def)
  then show ?thesis using ascii_valid [OF ascii] by (simp add: ValidID_def)
qed

lemma enroll_refused:
  assumes "\<not> ValidID (on_wire (en_RequestID e))" "rq_Body rq = marshal (json_Enrollment e)"
  shows "stuck (public_operation lib ev PostEnroll rq)"
proof -
  have "stuck (of_result (readBody enrollment_tags rq))" if "over_limit (rq_Body rq)"
    using that by (simp add: readBody_def over_limit_Decode of_result_def stuck_throw)
  moreover have "stuck (with_body enrollment_tags rq (\<lambda>m.
     reply json_Device (of_store (Enroll (lib_crypto lib) (ev_serial ev) (enrollment_of m) (ev_now ev)))))"
    if small: "\<not> over_limit (rq_Body rq)"
  proof -
    obtain m where read: "Decode enrollment_tags (marshal (json_Enrollment e)) = Inr m"
      "enrollment_of m = \<lparr>en_RequestID = on_wire (en_RequestID e), en_Token = on_wire (en_Token e),
         en_CSR = on_wire (en_CSR e), en_Name = on_wire (en_Name e)\<rparr>"
      by (rule read_enrolment [OF small [unfolded assms(2)]])
    then have m: "Decode enrollment_tags (rq_Body rq) = Inr m" "en_RequestID (enrollment_of m) = on_wire (en_RequestID e)"
      by (simp_all add: assms(2))
    have "stuck (Enroll (lib_crypto lib) (ev_serial ev) (enrollment_of m) (ev_now ev))"
      using m(2) assms(1) by (simp add: Enroll_def guard_def stuck_throw)
    then have "stuck (reply json_Device (of_store (Enroll (lib_crypto lib) (ev_serial ev) (enrollment_of m) (ev_now ev))))"
      unfolding reply_def by (intro stuck_bnd_first stuck_of_store)
    then show ?thesis
      using m(1) small by (auto simp: with_body_def readBody_def of_result_def stuck_def bnd_def throw_def ret_def)
  qed
  ultimately show ?thesis by (auto simp: with_body_def intro: stuck_bnd_first)
qed

lemma wire_error: "wire (writeError e) = Some (status, body) \<Longrightarrow> status \<noteq> 200"
proof (cases e)
  case (P2p code)
  then show "wire (writeError e) = Some (status, body) \<Longrightarrow> status \<noteq> 200"
    using error_status_cases [of code] by (auto simp: writeError_def writeFailure_def wire_def split: if_splits)
qed (simp_all add: writeError_def writeFailure_def wire_def)

lemma answered_stuck:
  assumes "stuck m" "answered (bnd m f) s = (r, t)" "wire r = Some (status, body)"
  shows "status \<noteq> 200"
proof -
  have "stuck (bnd m f)" using assms(1) by (rule stuck_bnd_first)
  then obtain e u where "bnd m f s = (Inl e, u)" unfolding stuck_def by (metis isl_def prod.collapse)
  with assms(2,3) show ?thesis using wire_error by (auto simp: answered_def)
qed

lemma handle_enroll:
  assumes "\<not> ValidID (on_wire (en_RequestID e))" "rq_Body rq = marshal (json_Enrollment e)"
    and "handle lib ev False (Public PostEnroll) rq s = (r, t)" "wire r = Some (status, body)"
  shows "status \<noteq> 200"
proof (cases "admission rq (ev_admitted ev) s")
  case (Pair a s1)
  show ?thesis
  proof (cases a)
    case None
    with Pair assms(3) have "answered (dispatch lib ev False (Public PostEnroll) rq) s1 = (r, t)" by (simp add: handle_def)
    then show ?thesis unfolding dispatch_def route.case
      by (rule answered_stuck [OF enroll_refused [OF assms(1,2)] _ assms(4)])
  next
    case (Some resp)
    with Pair assms(3,4) show ?thesis
      by (auto simp: handle_def admission_def writeFailure_def wire_def Let_def split: option.splits prod.splits if_splits)
  qed
qed

lemma enroll_call_stuck:
  assumes "length data = 32"
  shows "stuck (enroll_call lib K data token csr name)"
proof (cases csr)
  case (Some der)
  let ?e = "enrolment K data token der name"
  have bad: "\<not> ValidID (on_wire (en_RequestID ?e))" using request_id_long [OF assms] by (simp add: enrolment_def)
  have "status \<noteq> 200" if "exchange lib (Public PostEnroll) (client_request [] [] (marshal (json_Enrollment ?e))) s = (Inr (status, body), t)"
    for status body s t
    using that handle_enroll [OF bad, of "client_request [] [] (marshal (json_Enrollment ?e)) address" for address]
    by (auto simp: exchange_def Let_def client_request_def split: list.splits prod.splits if_splits fate.splits option.splits)
  then have "isl (fst (call lib ''POST'' ''/v1/enroll'' (Public PostEnroll) [] (marshal (json_Enrollment ?e)) (decode_into device_shape) 200 s))" for s
    by (auto simp: call_def bnd_def require_def fails_def throw_def split: prod.splits sum.splits)
  then show ?thesis by (simp add: enroll_call_def Some stuck_def)
qed (simp add: enroll_call_def stuck_throw)

lemma first_device_stuck: "length (fst (dr_requests dr)) = 32 \<Longrightarrow> stuck (first_device lib K dr userID token networkID)"
  unfolding first_device_def by (rule stuck_bnd) (intro stuck_guard stuck_bnd_first enroll_call_stuck)

lemma drive_stuck: "length (fst (dr_requests dr)) = 32 \<Longrightarrow> stuck (drive lib K dr deadline)"
  unfolding drive_def
  by (rule stuck_bnd, rule stuck_bnd, rule stuck_bnd, rule stuck_prod, rule stuck_bnd, rule stuck_bnd_first, rule first_device_stuck)

end
