(* ===== verification/CommandRuns.thy ===== *)
theory CommandRuns
  imports Command
begin

text \<open>
  The life of a service: commands one after the other on the same files.  Every database of the host keeps
  the invariant of the tables; a database that was served opens again as it was left.
\<close>

section \<open>The databases of the host\<close>

definition sound_files :: "machine \<Rightarrow> bool" where
  "sound_files m \<longleftrightarrow> (\<forall>path tables. tables_at path m = Some tables \<longrightarrow> db_inv tables)"

lemma sound_filesD: "sound_files m \<Longrightarrow> tables_at path m = Some tables \<Longrightarrow> db_inv tables"
  by (simp add: sound_files_def)

lemma sound_files_same: "m_files t = m_files m \<Longrightarrow> sound_files t = sound_files m"
  by (simp add: sound_files_def tables_at_def)

lemma sound_files_proceed [simp]: "sound_files (proceed m) = sound_files m"
  by (rule sound_files_same) simp

lemma tables_at_new_file [simp]:
  "tables_at p (new_file path m) = (if p = path then None else tables_at p m)"
  by (simp add: tables_at_def database_in_def)

lemma sound_files_new [simp]: "sound_files m \<Longrightarrow> sound_files (new_file path m)"
  by (auto simp: sound_files_def)

lemma tables_at_set_content:
  "tables_at p (set_content path c m)
    = (if p = path then (if map_of (m_files m) p = None then None else Option.bind (database_in c) df_tables) else tables_at p m)"
  by (cases "map_of (m_files m) p") (auto simp: tables_at_def)

lemma sound_files_plain [simp]: "sound_files m \<Longrightarrow> sound_files (set_content path (Plain b) m)"
  by (auto simp: sound_files_def tables_at_set_content database_in_def split: if_splits)

lemma sound_files_sqlite:
  "sound_files m \<Longrightarrow> (\<And>tables. df_tables d = Some tables \<Longrightarrow> db_inv tables) \<Longrightarrow> sound_files (set_content path (Sqlite d) m)"
  by (auto simp: sound_files_def tables_at_set_content database_in_def split: if_splits)

lemma sound_files_save: "sound_files m \<Longrightarrow> db_inv tables \<Longrightarrow> sound_files (save_tables path tables m)"
  by (auto simp: save_tables_def split: option.splits intro: sound_files_sqlite)

text \<open>The contract of the calls of the host.\<close>

locale tending =
  fixes m :: "'a os"
  assumes tends: "sound_files s \<Longrightarrow> sound_files (snd (m s))"
begin

lemma tends_result: "sound_files s \<Longrightarrow> m s = (r, t) \<Longrightarrow> sound_files t"
  using tends [of s] by simp

end

named_theorems tending_intros "closure of the contract of the calls of the host"

lemma tendingI: "(\<And>s. sound_files s \<Longrightarrow> wp m (\<lambda>_ t. sound_files t) (\<lambda>_ t. sound_files t) s) \<Longrightarrow> tending m"
proof unfold_locales
  fix s assume "\<And>s. sound_files s \<Longrightarrow> wp m (\<lambda>_ t. sound_files t) (\<lambda>_ t. sound_files t) s" "sound_files s"
  then have "wp m (\<lambda>_ t. sound_files t) (\<lambda>_ t. sound_files t) s" by blast
  then show "sound_files (snd (m s))" by (auto simp: wp_def split: prod.splits sum.splits)
qed

lemma tending_wp: "tending m \<Longrightarrow> sound_files s \<Longrightarrow> wp m (\<lambda>_ t. sound_files t) (\<lambda>_ t. sound_files t) s"
  using tending.tends_result [of m s] by (auto simp: wp_def split: prod.splits sum.splits)

lemma tending_ret [tending_intros]: "tending (ret x)"
  by (rule tendingI) (simp add: wp_simps)

lemma tending_throw [tending_intros]: "tending (throw e)"
  by (rule tendingI) (simp add: wp_simps)

lemma tending_bnd [tending_intros]: "tending m \<Longrightarrow> (\<And>x. tending (f x)) \<Longrightarrow> tending (bnd m f)"
  by (rule tendingI) (auto simp: wp_simps dest!: tending_wp elim!: wp_mono intro: tending_wp)

lemma tending_guard [tending_intros]: "tending m \<Longrightarrow> tending (guard c e m)"
  by (simp add: guard_def tending_throw)

lemma tending_if [tending_intros]: "tending m \<Longrightarrow> tending n \<Longrightarrow> tending (if c then m else n)"
  by simp

lemma tending_sum [tending_intros]:
  "(\<And>e. tending (f e)) \<Longrightarrow> (\<And>x. tending (g x)) \<Longrightarrow> tending (case r of Inl e \<Rightarrow> f e | Inr x \<Rightarrow> g x)"
  by (cases r) auto

lemma tending_attempt [tending_intros]: "tending m \<Longrightarrow> tending (attempt m)"
  by unfold_locales (auto simp: attempt_def split: prod.splits dest: tending.tends_result)

lemma tending_calls [tending_intros]:
  "tending (Lstat path)" "tending (openDB path)" "tending (of_option r)"
  by (rule tendingI; auto simp: wp_simps split: option.splits)+

lemma tending_exclusiveFile [tending_intros]: "tending (exclusiveFile path data)"
  by (rule tendingI) (auto simp: wp_simps)

text \<open>The transaction that makes the schema.\<close>

lemma tending_schema [tending_intros]:
  "tending (bnd (tx_begin path) (\<lambda>d. bnd (tx_exec create_schema d) (\<lambda>d. bnd (tx_exec (insert_meta row) d) (\<lambda>d. tx_commit path d))))"
proof (rule tendingI)
  fix s assume s: "sound_files s"
  have "sound_files (set_content path (Sqlite d'') t)"
    if "create_schema d = Some d'" "insert_meta row d' = Some d''" "sound_files t" for d d' d'' t
    using that by (intro sound_files_sqlite) (auto simp: create_schema_def insert_meta_def db_inv_empty split: if_splits)
  with s show "wp (bnd (tx_begin path) (\<lambda>d. bnd (tx_exec create_schema d) (\<lambda>d. bnd (tx_exec (insert_meta row) d)
      (\<lambda>d. tx_commit path d)))) (\<lambda>_ t. sound_files t) (\<lambda>_ t. sound_files t) s"
    by (simp add: tx_begin_def wp_simps split: option.splits)
qed

lemma Initialize_tending [tending_intros]: "tending (Initialize C K fresh databasePath keyPath now)"
  unfolding Initialize_def absent_def by (intro tending_intros)

lemma read_config_tending [tending_intros]: "tending (read_config lib K path)"
  by (rule tendingI) (auto simp: read_config_def wp_simps split: sum.splits)

lemma sound_files_lookup:
  assumes "\<And>p. map_of (m_files t) p = map_of (m_files m) p"
  shows "sound_files t = sound_files m"
  using assms by (simp add: sound_files_def tables_at_def)

lemma opened_tables:
  assumes "sound_files m"
  shows "wp (OpenStore C K salt rnd faults databasePath keyPath) (\<lambda>s t. db_inv (st_db s) \<and> sound_files t) (\<lambda>_ t. sound_files t) m"
proof -
  have "sound_files (snd (OpenStore C K salt rnd faults databasePath keyPath m)) = sound_files m"
    by (rule sound_files_lookup) (rule OpenStore.touches, simp)
  moreover have "db_inv (st_db s)" if "opens C K salt rnd faults databasePath keyPath m s" for s
  proof -
    from that have "tables_at (sqlite_path databasePath) m = Some (st_db s)"
      by (auto simp: opens_def tables_at_database)
    with assms show ?thesis by (rule sound_filesD)
  qed
  ultimately show ?thesis
    using OpenStore_opens [of C K salt rnd faults databasePath keyPath m] assms by (auto simp: wp_def split: prod.splits sum.splits)
qed

lemma tending_OpenStore:
  assumes "\<And>s. db_inv (st_db s) \<Longrightarrow> tending (f s)"
  shows "tending (bnd (OpenStore C K salt rnd faults databasePath keyPath) f)"
proof (rule tendingI)
  fix m assume "sound_files m"
  from opened_tables [OF this]
  show "wp (bnd (OpenStore C K salt rnd faults databasePath keyPath) f) (\<lambda>_ t. sound_files t) (\<lambda>_ t. sound_files t) m"
    unfolding wp_bnd by (rule wp_mono) (auto intro: tending_wp assms)
qed

text \<open>A call of an open store, and the server that runs on it.\<close>

lemma on_file_tending:
  assumes "db_inv (st_db s)" "db_inv (st_db s) \<Longrightarrow> db_inv (st_db (snd (f s)))"
  shows "tending (on_file path s f)"
  by unfold_locales (use assms in \<open>auto simp: on_file_def sound_files_save split: prod.splits\<close>)

lemma Run_inv:
  assumes "NewServer lib config st = Inr s" "db_inv (st_db st)"
  shows "server_inv (snd (Run lib h s))"
proof -
  have "server_inv s" using assms by (rule NewServer_inv)
  moreover have "server_inv (t\<lparr>sv_hub := hub_close (sv_hub t)\<rparr>)" if "server_inv t" for t
    using that by (simp add: server_inv_def hub_inv_close)
  ultimately show ?thesis by (simp add: Run_def TLSConfig_def Let_def server_run_inv)
qed

lemma serve_tending:
  assumes "db_inv (st_db s)"
  shows "tending (serve lib h config path s)"
proof unfold_locales
  fix m assume "sound_files m"
  moreover have "db_inv (st_db t)" if "NewServer lib config s = Inr server" "Run lib h server = (r, t)" for server r t
    using Run_inv [OF that(1) assms, of h] that(2) by (simp add: server_inv_def)
  ultimately show "sound_files (snd (serve lib h config path s m))"
    by (auto simp: serve_def sound_files_save split: sum.splits prod.splits)
qed

lemma run_tending: "tending (run lib K h ce args i)"
proof -
  have add: "tending (user_add lib ce i opts path s)" and disable: "tending (user_disable ce opts path s)" if "db_inv (st_db s)" for opts path s
    unfolding user_add_def user_disable_def
    by (intro tending_intros on_file_tending that CreateUser_keeps DisableUser_keeps | assumption)+
  show ?thesis
    unfolding run_def Let_def
    by (auto split: sum.splits intro!: tending_intros tending_OpenStore serve_tending add disable)
qed

interpretation run: tending "run lib K h ce args i" for lib K h ce args i
  by (rule run_tending)

section \<open>Commands one after the other\<close>

record command =
  c_host :: host
  c_env :: command_env
  c_args :: "string list"
  c_input :: input

definition after_command :: "lib \<Rightarrow> key_lib \<Rightarrow> command \<Rightarrow> machine \<Rightarrow> machine" where
  "after_command lib K c m = snd (run lib K (c_host c) (c_env c) (c_args c) (c_input c) m)"

definition after_commands :: "lib \<Rightarrow> key_lib \<Rightarrow> command list \<Rightarrow> machine \<Rightarrow> machine" where
  "after_commands lib K cs m = fold (after_command lib K) cs m"

lemma after_commands_sound: "sound_files m \<Longrightarrow> sound_files (after_commands lib K cs m)"
  unfolding after_commands_def by (induction cs arbitrary: m) (simp_all add: after_command_def run.tends)

end
