(* ===== verification/ServiceProperties.thy ===== *)
theory ServiceProperties
  imports CommandRuns ServerProperties
begin

text \<open>
  The properties of the service as a whole: its files, the commands on them and a restart.
\<close>

section \<open>Lemmas\<close>

lemma touching_result:
  assumes "touching X m" "p \<notin> X"
  shows "m s = (r, t) \<Longrightarrow> map_of (m_files t) p = map_of (m_files s) p"
  using touching.touches [OF assms, of s] by simp




lemma TrimSuffix_cases: "TrimSuffix s c = s \<or> s = TrimSuffix s c @ [c]"
  by (cases s rule: rev_cases) (auto simp: TrimSuffix_def)

lemma TrimSuffix_line_end:
  "\<exists>line_end \<in> {[], [CHR 0x0A], [CHR 0x0D], [CHR 0x0D, CHR 0x0A]}. s = TrimSuffix (TrimSuffix s (CHR 0x0A)) (CHR 0x0D) @ line_end"
proof -
  define q p where "q = TrimSuffix s (CHR 0x0A)" and "p = TrimSuffix q (CHR 0x0D)"
  then have "q = s \<or> s = q @ [CHR 0x0A]" "p = q \<or> q = p @ [CHR 0x0D]" by (simp_all add: TrimSuffix_cases)
  then have "s = p @ [] \<or> s = p @ [CHR 0x0A] \<or> s = p @ [CHR 0x0D] \<or> s = p @ [CHR 0x0D, CHR 0x0A]" by auto
  then show ?thesis unfolding p_def q_def by blast
qed

lemma TrimSuffix_snoc: "TrimSuffix (s @ [d]) c = (if d = c then s else s @ [d])"
  by (simp add: TrimSuffix_def)

lemma TrimSuffix_other: "c \<notin> set s \<Longrightarrow> TrimSuffix s c = s"
  by (cases s rule: rev_cases) (auto simp: TrimSuffix_def)

section \<open>A sample host\<close>

text \<open>Keys are written as they are; a certificate of an authority is the key's public half.\<close>

definition file_crypto :: crypto where
  "file_crypto = plain_crypto\<lparr>pem_decode := (\<lambda>s. if take 3 s = ''PEM'' then Some (''PRIVATE KEY'', drop 3 s, []) else None),
     parse_cert := (\<lambda>der. Some \<lparr>cert_CN = [], cert_public = Some (sized der), cert_notBefore = 0, cert_notAfter = 0\<rparr>)\<rparr>"

definition file_keys :: key_lib where
  "file_keys = \<lparr>marshal_key = Some, parse_key = (\<lambda>der. Some (Some der)), pem_encode = (\<lambda>_ der. ''PEM'' @ der),
     create_ca = (\<lambda>key _ _ _. Some key), self_signed = (\<lambda>_. True), db_image = (\<lambda>_. ''SQLite format 3'')\<rparr>"

definition empty_host :: machine where
  "empty_host = \<lparr>m_files = [], m_faults = []\<rparr>"

definition initialized_host :: machine where
  "initialized_host = snd (Initialize file_crypto file_keys (Some ''k'') ''/d'' ''/i'' clock0 empty_host)"

lemma file_keys_sound: "sound_keys file_crypto file_keys"
  by (simp add: sound_keys_def file_crypto_def file_keys_def plain_crypto_def)

lemma initialized_host_result:
  "Initialize file_crypto file_keys (Some ''k'') ''/d'' ''/i'' clock0 empty_host = (Inr (), initialized_host)"
  by code_simp

lemma initialized_host_faults: "m_faults initialized_host = []"
  by code_simp

lemma initialized_host_sound: "sound_files initialized_host"
proof -
  have "sound_files empty_host" by (simp add: sound_files_def tables_at_def empty_host_def)
  then show ?thesis unfolding initialized_host_def by (rule tending.tends [OF Initialize_tending])
qed

section \<open>The files of the service\<close>



text \<open>The address handed to SQLite has every backslash of the path turned into a slash: an
  initialization under a new path with a backslash makes its tables in another file, which was there
  before.\<close>

definition other_host :: machine where
  "other_host = \<lparr>m_files = [(''/a/b'', \<lparr>f_regular = True, f_perm = 0x180, f_content = Plain []\<rparr>)], m_faults = []\<rparr>"

definition backslash_path :: string where
  "backslash_path = [CHR ''/'', CHR ''a'', CHR 0x5C, CHR ''b'']"

theorem initialization_can_change_another_file:
  "map_of (m_files other_host) backslash_path = None
   \<and> tables_at ''/a/b'' other_host = None
   \<and> tables_at ''/a/b'' (snd (Initialize file_crypto file_keys (Some ''k'') backslash_path ''/i'' clock0 other_host)) = Some empty_db"
  by code_simp




text \<open>C7: a service that was initialized opens with empty tables and the key that was drawn; a server
  started on it keeps every invariant whatever happens to it; and once it has stopped its files open
  again, with the same identity and exactly the tables it left.\<close>

theorem service_survives_restarts:
  assumes keys: "sound_keys (lib_crypto lib) K"
    and init: "Initialize (lib_crypto lib) K fresh databasePath keyPath now s = (Inr (), m)" "m_faults m = []"
    and path: "sqlite_path databasePath = databasePath"
    and hash: "bcrypt_hash (lib_crypto lib) salt (NewID rnd) \<noteq> None"
  shows "\<exists>st. fst (OpenStore (lib_crypto lib) K salt rnd faults databasePath keyPath m) = Inr st
    \<and> st_db st = empty_db \<and> fresh = Some (st_key st)
    \<and> (\<forall>config server events. NewServer lib config st = Inr server \<longrightarrow>
         server_inv (server_run lib events server)
         \<and> fst (OpenStore (lib_crypto lib) K salt rnd faults databasePath keyPath
              (save_tables databasePath (st_db (server_run lib events server)) m))
           = Inr (st\<lparr>st_db := st_db (server_run lib events server)\<rparr>))"
proof -
  let ?C = "lib_crypto lib"
  obtain unknown where unknown: "bcrypt_hash ?C salt (NewID rnd) = Some unknown" using hash by blast
  obtain key where key: "fresh = Some key" and files: "initialized ?C K key databasePath keyPath m"
    using Initialize_initialized [OF init(1) path] by blast
  define st where "st ca = \<lparr>st_db = empty_db, st_faults = faults, st_key = key, st_CA = ca,
    st_serviceID = KeyID ?C (ed_public ?C key), st_logins = 0, st_unknownPassword = unknown\<rparr>" for ca
  obtain ca where opens: "opens ?C K salt rnd faults databasePath keyPath m (st ca)"
    using initialized_opens [OF keys files path unknown] unfolding st_def by blast
  have "keyPath \<noteq> databasePath" using files by (auto simp: initialized_def)
  then have again: "fst (OpenStore ?C K salt rnd faults databasePath keyPath (save_tables databasePath tables m))
      = Inr (st ca\<lparr>st_db := tables\<rparr>)" for tables
    using OpenStore_iff [of "save_tables databasePath tables m" ?C K salt rnd faults databasePath keyPath]
      opens_saved [OF opens _ unknown, of faults tables] path init(2) by (simp add: st_def)
  have "server_inv (server_run lib events server)" if "NewServer lib config (st ca) = Inr server" for config server events
    using that by (rule NewServer_inv [THEN server_run_inv]) (simp add: st_def db_inv_empty)
  with again opens key show ?thesis
    by (intro exI [of _ "st ca"]) (simp add: OpenStore_iff [OF init(2)] st_def)
qed

definition file_lib :: lib where
  "file_lib = plain_lib\<lparr>lib_crypto := file_crypto\<rparr>"

theorem service_survives_restarts_witness:
  "\<exists>st. fst (OpenStore file_crypto file_keys [] ''ABCDEF'' [] ''/d'' ''/i'' initialized_host) = Inr st
    \<and> st_db st = empty_db \<and> st_key st = ''k''"
proof -
  have lib: "lib_crypto file_lib = file_crypto" by (simp add: file_lib_def)
  have "sqlite_path ''/d'' = ''/d''" "bcrypt_hash file_crypto [] (NewID ''ABCDEF'') \<noteq> None" by code_simp+
  with service_survives_restarts [where lib = file_lib and K = file_keys and fresh = "Some ''k''" and databasePath = "''/d''"
      and keyPath = "''/i''" and now = clock0 and s = empty_host and m = initialized_host and salt = "[]" and rnd = "''ABCDEF''"
      and faults = "[]", unfolded lib, OF file_keys_sound initialized_host_result initialized_host_faults]
  show ?thesis by fastforce
qed

section \<open>Commands\<close>

text \<open>C6: whatever commands are run one after the other, with whatever arguments and input, on whatever
  files, every database of the host that had the invariant of the tables keeps it, those that are
  made by an initialization have it, and so do those of a server that was killed by any failure.\<close>

theorem commands_keep_every_database:
  assumes "sound_files m"
  shows "sound_files (after_commands lib K cs m)"
  using assms by (rule after_commands_sound)

theorem commands_keep_every_database_witness:
  "sound_files (after_commands file_lib file_keys [\<lparr>c_host = \<lparr>h_tls = True, h_listen = (\<lambda>_ _. True),
     h_events = [Arrives env0 True (Enrolled GetMe) request0], h_first = None, h_shutdown = Inr ()\<rparr>,
     c_env = \<lparr>ce_now = clock0, ce_fresh = None, ce_salt = [], ce_rnd = ''ABCDEF'', ce_userSalt = [], ce_userRnd = ''UUUUUU'', ce_faults = []\<rparr>,
     c_args = [''serve'', ''-config=/c''], c_input = \<lparr>in_bytes = [], in_broken = False\<rparr>\<rparr>] initialized_host)"
  by (rule commands_keep_every_database [OF initialized_host_sound])

text \<open>The password of a new account is the whole of the standard input but for one line end: an
  input that is too long or has a second line is refused, and never cut.\<close>

theorem password_is_the_whole_input:
  "read_password i = Inr password \<longleftrightarrow>
     \<not> in_broken i \<and> length password \<le> 72 \<and> \<not> contains_any password [CHR 0x0D, CHR 0x0A]
     \<and> (\<exists>line_end \<in> {[], [CHR 0x0A], [CHR 0x0D], [CHR 0x0D, CHR 0x0A]}. in_bytes i = password @ line_end)"
    (is "_ \<longleftrightarrow> ?whole")
proof
  let ?data = "take 75 (in_bytes i)"
  assume "read_password i = Inr password"
  then have p: "password = TrimSuffix (TrimSuffix ?data (CHR 0x0A)) (CHR 0x0D)" "length password \<le> 72"
    "\<not> contains_any password [CHR 0x0D, CHR 0x0A]" "\<not> (in_broken i \<and> length (in_bytes i) < 75)"
    by (auto simp: read_password_def Let_def split: if_splits)
  obtain line_end where "line_end \<in> {[], [CHR 0x0A], [CHR 0x0D], [CHR 0x0D, CHR 0x0A]}" "?data = password @ line_end"
    using TrimSuffix_line_end [of ?data] unfolding p(1) by blast
  moreover from this have "length ?data \<le> 74" using p(2) by auto
  then have "?data = in_bytes i" "length (in_bytes i) < 75" by simp_all
  ultimately show ?whole using p by auto
next
  assume w: ?whole
  then obtain line_end where line_end: "line_end = [] \<or> line_end = [CHR 0x0A] \<or> line_end = [CHR 0x0D] \<or> line_end = [CHR 0x0D, CHR 0x0A]"
    "in_bytes i = password @ line_end" by blast
  then have "take 75 (in_bytes i) = password @ line_end" using w by auto
  moreover have "TrimSuffix password c = password" if "c = CHR 0x0D \<or> c = CHR 0x0A" for c
    using w that by (intro TrimSuffix_other) (auto simp: contains_any_iff)
  ultimately have "TrimSuffix (TrimSuffix (take 75 (in_bytes i)) (CHR 0x0A)) (CHR 0x0D) = password"
    using line_end(1) TrimSuffix_snoc [of "password @ [CHR 0x0D]"] by (elim disjE) (simp_all add: TrimSuffix_snoc)
  with w show "read_password i = Inr password" by (simp add: read_password_def Let_def)
qed

end
