(* ===== verification/ClientProperties.thy ===== *)
theory ClientProperties
  imports Smoke ServiceProperties
begin

text \<open>
  The server and its clients: every answer is read back as the value it was made from, and what becomes of the
  smoke test tool.
\<close>

section \<open>Answers are shallow\<close>

text \<open>Actions whose value has a property.\<close>

definition yields :: "('a \<Rightarrow> bool) \<Rightarrow> ('s, 'a) action \<Rightarrow> bool" where
  "yields P m \<longleftrightarrow> (\<forall>s v t. m s = (Inr v, t) \<longrightarrow> P v)"

named_theorems yields_intros "closure of the actions whose value has a property"

lemma yields_ret: "P x \<Longrightarrow> yields P (ret x)"
  by (simp add: yields_def ret_def)

lemma yields_throw [yields_intros]: "yields P (throw e)"
  by (simp add: yields_def throw_def)

lemma yields_bnd: "(\<And>x. yields P (f x)) \<Longrightarrow> yields P (bnd m f)"
  by (auto simp: yields_def bnd_def split: prod.splits sum.splits)

lemma yields_if [yields_intros]: "yields P m \<Longrightarrow> yields P n \<Longrightarrow> yields P (if c then m else n)"
  by simp

lemma yields_withStore [yields_intros]: "(\<And>s. yields P (f s)) \<Longrightarrow> yields P (withStore f)"
  by (simp add: yields_def withStore_def)

lemma yields_with_body [yields_intros]: "(\<And>m. yields P (f m)) \<Longrightarrow> yields P (with_body fs rq f)"
  unfolding with_body_def by (rule yields_bnd)

lemma yields_reply [yields_intros]: "(\<And>x. P (f x)) \<Longrightarrow> yields P (reply f m)"
  unfolding reply_def by (intro yields_bnd yields_ret)

definition shallow :: "jval \<Rightarrow> bool" where
  "shallow v \<longleftrightarrow> nesting v \<le> 4"

lemmas jsons = json_User_def json_UserSession_def json_Network_def json_DeviceEntry_def json_Device_def json_Pair_def
  json_Share_def json_Lease_def json_Identity_def json_PairIdentity_def json_PairDeviceIdentity_def json_certificate_def
  json_token_def flag_def

lemma shallow_jsons [yields_intros]:
  "shallow (json_User u)" "shallow (json_UserSession us)" "shallow (json_Network n)" "shallow (json_Device d)" "shallow (json_Pair p)"
  "shallow (json_Share sh)" "shallow (json_Lease l)" "shallow (json_Identity i)" "shallow (json_PairIdentity pi)"
  "shallow (json_certificate c)" "shallow (json_token networkID now token)" "shallow (flag name x)"
  by (simp_all add: shallow_def jsons)

lemma nesting_list: "(\<And>v. nesting (f v) \<le> n) \<Longrightarrow> nesting (VArr (map f vs)) \<le> Suc n"
  by (simp add: nesting_le)

lemma shallow_lists [yields_intros]:
  "shallow (VArr (map json_Network ns))" "shallow (VArr (map json_DeviceEntry es))" "shallow (VArr (map json_Pair ps))"
  "shallow (VArr (map (json_Pair \<circ> pair_of) qs))" "shallow (VObj [(''pairs'', VArr (map json_Pair ps))])"
proof -
  have le: "shallow v" if "nesting v \<le> 2" for v using that by (simp add: shallow_def)
  show "shallow (VArr (map json_Network ns))" "shallow (VArr (map json_DeviceEntry es))" "shallow (VArr (map json_Pair ps))"
    "shallow (VArr (map (json_Pair \<circ> pair_of) qs))"
    by (rule le, rule order_trans [OF nesting_list [where n = 1]], simp_all add: jsons)+
  have "nesting (VArr (map json_Pair ps)) \<le> Suc 1" by (rule nesting_list) (simp add: jsons)
  then show "shallow (VObj [(''pairs'', VArr (map json_Pair ps))])" by (simp add: shallow_def)
qed

lemma shallow_flat [yields_intros]:
  "shallow (VObj [(a, VInt i), (b, VStr s)])" "shallow (VObj [(a, VStr s), (b, VInt i)])" "shallow (VObj [(a, VStr s), (b, VBool c)])"
  "shallow (VObj [(a, VStr s), (b, VArr [VStr u]), (c', VStr t)])" "shallow (VObj [(a, VStr s)])"
  by (simp_all add: shallow_def)








section \<open>The smoke test tool\<close>

text \<open>The methods and paths of the tool's calls, with the endpoints they are modelled to reach.\<close>

lemmas tool_defs = route_of_def table_defs fits_path_def is_param_def networks_path_def

lemma tool_routes_static:
  "route_of ''GET'' ''/health/https'' = Public GetHealth" "route_of ''POST'' ''/v1/login'' = Public PostLogin"
  "route_of ''POST'' ''/v1/enroll'' = Public PostEnroll" "route_of ''POST'' networks_path = Private PostNetworks"
  "route_of ''GET'' networks_path = Private GetNetworks" "route_of ''POST'' ''/v1/logout'' = Private PostLogout"
  "route_of ''POST'' ''/v1/adopt-network'' = Enrolled (PostOperation ''/adopt-network'')"
  by (simp add: tool_defs)+

lemma tool_routes_network:
  assumes "CHR ''/'' \<notin> set i"
  shows "route_of ''POST'' (networks_path @ ''/'' @ i @ ''/enrollment-tokens'') = Private (PostTokens i)"
    "route_of ''GET'' (networks_path @ ''/'' @ i @ ''/devices'') = Private (GetNetworkDevices i)"
    "route_of ''DELETE'' (networks_path @ ''/'' @ i) = Private (RemoveNetwork i)"
  by (simp_all add: tool_defs segments_append segments_plain assms)

text \<open>C40: the smoke test never passes: its enrolment sends a request identifier of 32 characters, and whatever
  state the server is in and whatever else happens to it, it refuses an identifier that has not 12.\<close>

theorem smoke_never_passes:
  assumes "length (fst (dr_requests dr)) = 32"
  shows "fst (smoke_main lib K dr pl turns deadline binary report m) = (1, [])"
proof -
  have "\<exists>e t. drive lib K dr deadline c = (Inl e, t)" for c
    using drive_stuck [OF assms, of lib K deadline] unfolding stuck_def by (metis isl_def prod.collapse)
  then have "stuck (case drive lib K dr deadline c of (Inl e, _) \<Rightarrow> throw e | (Inr ids, c) \<Rightarrow> f ids c)" for c and f :: "_ \<Rightarrow> _ \<Rightarrow> unit os"
    by (metis (no_types, lifting) old.prod.case stuck_throw sum.case(1))
  then have "stuck (smoke lib K dr pl turns deadline binary report)"
    unfolding smoke_def by (auto simp: stuck_throw split: option.splits intro!: stuck_bnd stuck_withStore)
  then obtain e t where "smoke lib K dr pl turns deadline binary report m = (Inl e, t)"
    unfolding stuck_def by (metis isl_def prod.collapse)
  then show ?thesis by (simp add: smoke_main_def)
qed

theorem smoke_never_passes_witness:
  "\<forall>pl turns m. fst (smoke_main file_lib file_keys \<lparr>dr_password = [], dr_requests = (replicate 32 (CHR ''a''), []),
     dr_keys = ([], []), dr_csrs = (Some [], Some [])\<rparr> pl turns 0 ''/server'' ''/report'' m) = (1, [])"
  by (intro allI smoke_never_passes) simp

end
