(* ===== verification/Boundaries.thy ===== *)
theory Boundaries
  imports Prelude "HOL-Library.Sublist"
begin

text \<open>
  The check of the repository's boundaries (\<open>tools/check-boundaries/main.go\<close>): the module is its own, the
  program depends on nothing forbidden or replaced, and no source file is longer than 1000 lines.
  The answers of the \<open>go\<close> command and the directory tree are what the check is given.
\<close>

section \<open>What the check is given\<close>

text \<open>A package \<open>go list\<close> names; its module (if any) by its path and whether it is replaced.\<close>

record dependency =
  dp_ImportPath :: string
  dp_Module :: "(string \<times> bool) option"

text \<open>A file with its bytes, or a directory with its entries in the order of their names; \<open>None\<close> when it
  cannot be read.\<close>

datatype tree = File string "bytes option" | Directory string "tree list option"

text \<open>
  \<open>go mod edit\<close> gives the path of the module and the number of its replacements (\<open>None\<close> when it fails or its
  output is no JSON); \<open>go list\<close> may fail to start, or to end well, and its output may break off.
\<close>

record repository =
  re_module :: "(string \<times> nat) option"
  re_workspace :: bool
  re_started :: bool
  re_dependencies :: "dependency list"
  re_complete :: bool
  re_succeeded :: bool
  re_tree :: tree

datatype violation =
    Tool_failure
  | Wrong_module
  | Has_workspace
  | Broken_list
  | Forbidden string
  | Replaced string
  | Unreadable
  | Too_long string

section \<open>Dependencies\<close>

text \<open>\<open>strings.ToLower\<close>; import paths are ASCII.\<close>

definition ToLower :: "string \<Rightarrow> string" where
  "ToLower s = map (\<lambda>c. let n = (of_char c :: nat) in if 65 \<le> n \<and> n \<le> 90 then char_of (n + 32) else c) s"

definition Contains :: "string \<Rightarrow> string \<Rightarrow> bool" where
  "Contains s t \<longleftrightarrow> list_ex (\<lambda>u. prefix t u) (suffixes s)"

definition forbidden :: "string \<Rightarrow> bool" where
  "forbidden importPath =
     (let path = ToLower importPath in
      Contains path ''nethopper'' \<or> Contains path ''oneisland'' \<or> prefix ''github.com/nats-io/'' path
      \<or> prefix ''github.com/airkits/'' path \<or> prefix ''github.com/ankye/dshker/'' path \<or> Contains path ''/mock'')"

text \<open>One turn of the loop: a later violation takes the place of an earlier one.\<close>

definition inspect :: "dependency \<Rightarrow> violation option \<Rightarrow> violation option" where
  "inspect d v =
     (let v1 = (if forbidden (dp_ImportPath d) then Some (Forbidden (dp_ImportPath d)) else v) in
      case dp_Module d of Some (path, True) \<Rightarrow> Some (Replaced path) | _ \<Rightarrow> v1)"

definition list_violation :: "repository \<Rightarrow> violation option" where
  "list_violation r =
     (let v = fold inspect (re_dependencies r) None in if re_complete r then v else Some Broken_list)"

section \<open>Files\<close>

definition skipped :: "string \<Rightarrow> bool" where
  "skipped name \<longleftrightarrow> List.member [''.git'', ''bin'', ''artifacts'', ''vendor''] name"

text \<open>\<open>filepath.Ext(path) == ".go"\<close>, on the last element of a path.\<close>

definition go_file :: "string \<Rightarrow> bool" where
  "go_file name \<longleftrightarrow> suffix ''.go'' name"

definition count_lines :: "bytes \<Rightarrow> nat" where
  "count_lines data = length (filter (\<lambda>c. c = CHR 0x0A) data)"

definition join_path :: "string \<Rightarrow> string \<Rightarrow> string" where
  "join_path path name = (if path = ''.'' then name else path @ ''/'' @ name)"

text \<open>\<open>filepath.WalkDir\<close> with the function of the check: the first error ends the walk.\<close>

fun walk :: "string \<Rightarrow> tree \<Rightarrow> violation option" and walk_entries :: "string \<Rightarrow> tree list \<Rightarrow> violation option" where
  "walk path (File name content) =
     (if \<not> go_file name then None
      else (case content of
         None \<Rightarrow> Some Unreadable
       | Some data \<Rightarrow> if 1000 < count_lines data then Some (Too_long path) else None))"
| "walk path (Directory name entries) =
     (if skipped name then None
      else (case entries of None \<Rightarrow> Some Unreadable | Some ts \<Rightarrow> walk_entries path ts))"
| "walk_entries path [] = None"
| "walk_entries path (t # ts) =
     (case walk (join_path path (case t of File name _ \<Rightarrow> name | Directory name _ \<Rightarrow> name)) t of
        Some v \<Rightarrow> Some v
      | None \<Rightarrow> walk_entries path ts)"

section \<open>The check\<close>

definition check :: "repository \<Rightarrow> violation option" where
  "check r =
     (case re_module r of
        None \<Rightarrow> Some Tool_failure
      | Some (path, replacements) \<Rightarrow>
          if path \<noteq> ''github.com/ankye/dshker-server'' \<or> replacements \<noteq> 0 then Some Wrong_module
          else if re_workspace r then Some Has_workspace
          else if \<not> re_started r then Some Tool_failure
          else if \<not> re_succeeded r then Some Tool_failure
          else (case list_violation r of Some v \<Rightarrow> Some v | None \<Rightarrow> walk ''.'' (re_tree r)))"

text \<open>\<open>main\<close>: the exit status and the standard output.\<close>

definition main :: "repository \<Rightarrow> int \<times> string" where
  "main r = (case check r of
     Some _ \<Rightarrow> (1, [])
   | None \<Rightarrow> (0, ''standalone boundaries: PASS'' @ [CHR 0x0A]))"

section \<open>What it means to pass\<close>

text \<open>The files the walk comes to, and the directories it enters.\<close>

fun sources :: "tree \<Rightarrow> tree set" where
  "sources (File name content) = {File name content}"
| "sources (Directory name entries) = (if skipped name then {} else insert (Directory name entries)
     (case entries of None \<Rightarrow> {} | Some ts \<Rightarrow> \<Union> (sources ` set ts)))"

definition clean :: "tree \<Rightarrow> bool" where
  "clean t = (case t of
     File name content \<Rightarrow> go_file name \<longrightarrow> (\<exists>data. content = Some data \<and> count_lines data \<le> 1000)
   | Directory _ entries \<Rightarrow> entries \<noteq> None)"

lemma walk_clean: "walk path t = None \<longleftrightarrow> (\<forall>u \<in> sources t. clean u)"
  and walk_entries_clean: "walk_entries path ts = None \<longleftrightarrow> (\<forall>t \<in> set ts. \<forall>u \<in> sources t. clean u)"
  by (induction path t and path ts rule: walk_walk_entries.induct)
    (auto simp: clean_def split: option.splits if_splits)

lemma inspect_None: "inspect d v = None \<longleftrightarrow> v = None \<and> \<not> forbidden (dp_ImportPath d) \<and> (\<forall>path. dp_Module d \<noteq> Some (path, True))"
  by (auto simp: inspect_def Let_def split: option.splits bool.splits)

lemma fold_inspect_None:
  "fold inspect ds v = None \<longleftrightarrow> v = None \<and> (\<forall>d \<in> set ds. \<not> forbidden (dp_ImportPath d) \<and> (\<forall>path. dp_Module d \<noteq> Some (path, True)))"
  by (induction ds arbitrary: v) (auto simp: inspect_None)

lemma main_passes: "main r = (0, ''standalone boundaries: PASS'' @ [CHR 0x0A]) \<longleftrightarrow> check r = None"
  by (simp add: main_def split: option.splits)

text \<open>C39: the check passes exactly when the module is the repository's own without replacements and without
  a workspace, the listing of its dependencies is complete, none of them is forbidden or replaced, and
  every Go file outside the skipped directories, all of which can be read, has at most 1000 line breaks.\<close>

theorem check_passes_exactly:
  "main r = (0, ''standalone boundaries: PASS'' @ [CHR 0x0A]) \<longleftrightarrow> re_module r = Some (''github.com/ankye/dshker-server'', 0) \<and> \<not> re_workspace r
     \<and> re_started r \<and> re_succeeded r \<and> re_complete r
     \<and> (\<forall>d \<in> set (re_dependencies r). \<not> forbidden (dp_ImportPath d) \<and> (\<forall>path. dp_Module d \<noteq> Some (path, True)))
     \<and> (\<forall>u \<in> sources (re_tree r). clean u)"
  unfolding main_passes using fold_inspect_None [of "re_dependencies r" None]
  by (cases "fold inspect (re_dependencies r) None") (auto simp: check_def list_violation_def walk_clean split: option.splits)

theorem check_passes_exactly_witness:
  "main \<lparr>re_module = Some (''github.com/ankye/dshker-server'', 0), re_workspace = False, re_started = True,
     re_dependencies = [\<lparr>dp_ImportPath = ''net/http'', dp_Module = None\<rparr>], re_complete = True, re_succeeded = True,
     re_tree = Directory ''.'' (Some [Directory ''bin'' None, File ''a.go'' (Some ''package a'')])\<rparr> = (0, ''standalone boundaries: PASS'' @ [CHR 0x0A])"
  by (rule check_passes_exactly [THEN iffD2]) (simp add: forbidden_def ToLower_def Contains_def clean_def skipped_def count_lines_def)

end
