(* ===== verification/Spec2Isabelle.thy ===== *)
theory Spec2Isabelle
  imports StoreProperties SessionProperties WireProperties GateProperties ServerProperties ClientProperties Boundaries
begin

text \<open>
  dshker-server is the coordinator of a peer-to-peer network: accounts own private networks,
  devices enrol with a certificate request, bind to networks and pair with one another, and two
  devices of one network reach each other through signals the coordinator relays.  This
  development models its Go code under \<open>src/cmd\<close>, \<open>src/internal\<close> and \<open>src/tools\<close>.

  \<^bold>\<open>The program.\<close>  The command line (\<open>cmd/dshker-server/main.go\<close>) reads a configuration
  (\<open>coordinator/config.go\<close>) and makes, repairs or opens the state files (\<open>store.go\<close>): an SQLite database and
  the key of the coordinator.  The store's methods (\<open>users.go\<close>, \<open>networks.go\<close>, \<open>enrollment.go\<close>,
  \<open>certificates.go\<close>, \<open>pairing.go\<close>) are statements and transactions on that database.  \<open>sessions.go\<close> keeps
  presence and connection attempts in memory above the store, \<open>signaling.go\<close> the queues of the connected
  devices.  \<open>server.go\<close> and \<open>user_api.go\<close> put an HTTPS interface before them all, guarded by the budget of
  \<open>stun.go\<close>, which also serves STUN; \<open>turn.go\<close> starts a relay with a bounded range of ports.  Messages are
  read by the strict JSON decoder of \<open>protocol/json.go\<close> and signed as \<open>protocol/signal.go\<close>,
  \<open>lease.go\<close> and \<open>frame.go\<close> prescribe.  Two tools stand beside: a check of the repository's boundaries and a smoke
  test that is a client of the whole.

  \<^bold>\<open>How code is translated.\<close>  A Go struct is a record with the struct's fields, a table a list of records.  A
  method is one definition with the method's statements and early returns in their order; its result is
  \<open>err + 'a\<close> with \<open>Inl\<close> for a returned error, and an error is either a code of the program (\<open>P2p\<close>) or one
  of the database or another library.  Actions on the store are functions \<open>store \<Rightarrow> (err + 'a) \<times> store\<close>; the store holds the
  tables and a list that says which of the next statements fail, so every claim about a run is about a run with
  failures at any place.  A transaction that fails gives back the tables it found.  Random bytes and the time
  are arguments.  Operations under a mutex are single actions.  Cryptography is the record
  \<open>crypto\<close> of functions, and \<open>sound_crypto\<close> what the code relies on: signatures made with a key verify under
  its public half, hashes have their length.  Libraries that are not under \<open>src\<close> are records of functions
  in the same way (\<open>net_lib\<close>, \<open>key_lib\<close> and the others, each where it is first used).

  \<^bold>\<open>Ground.\<close>
  \<^item> Prelude: bytes, Go times, error codes, the lemmas on lists and updates all tables share.  GoText:
    \<open>utf8\<close>, \<open>strings\<close>, \<open>hex\<close>, \<open>base64\<close>, \<open>strconv\<close> as far as they are used.  NetText: \<open>SplitHostPort\<close>,
    \<open>ParseUint\<close> and paths.

  \<^bold>\<open>The store.\<close>
  \<^item> Database (\<open>store.go\<close>): the tables of the schema, statements and transactions.  StoreInv: the invariant
    of the tables, with one lemma for each kind of statement.  History: the preorder \<open>advances\<close> of what no
    statement takes back.
  \<^item> Identity (\<open>signal.go\<close>, first half), Users, Networks, Enrollment, Certificates, Pairing: the methods of
    the files of these names, the behaviour of each on its branches, and that each keeps the invariant and advances.
  \<^item> System: a \<open>call\<close> is any method with its arguments, a run a list of calls.  Marks, Effects: what a
    successful call has done.  Adoption: \<open>AdoptNetwork\<close> without faults.  PairBook: the abstract specification of pairing, a
    map from identifiers to states with four moves, and that every call refines it.  Columns: what the columns can hold.

  \<^bold>\<open>Wire formats.\<close>
  \<^item> Json (scanner, tokens, filling and marshalling of \<open>encoding/json\<close>), StrictDecode (\<open>protocol/json.go\<close>), Wire
    (\<open>signal.go\<close>, \<open>lease.go\<close>, \<open>frame.go\<close>), Messages (marshalled objects come back through the strict decoder).

  \<^bold>\<open>The live service.\<close>
  \<^item> Sessions (\<open>sessions.go\<close>), SessionRuns: attempts, their invariant, and runs of session and store calls.
    Limiter (\<open>limiter\<close> of \<open>stun.go\<close>), Relay (\<open>turn.go\<close>), Hub (\<open>signaling.go\<close>), Sockets (\<open>ServeSTUN\<close>, \<open>startTURN\<close>).
  \<^item> Config (\<open>config.go\<close>), Http and Replies (bodies, requests, responses of \<open>server.go\<close> and \<open>user_api.go\<close>), Server
    (the state of a server, its authentication), Handlers (every endpoint, \<open>serveSignals\<close> with its reading
    and writing loops),
    Attempts (\<open>/v1/attempt\<close> with its rollback), ServerRuns: runs of requests, socket messages, deliveries and
    disconnections.  TypedServer: the columns over those runs.  Router: the table of \<open>routes\<close> and \<open>userRoutes\<close>, and
    \<open>ServeHTTP\<close> over any engine that matches paths as gin documents it (\<open>routing\<close>).
  \<^item> StateFiles (the rest of \<open>store.go\<close>, \<open>Recover\<close> of \<open>certificates.go\<close>) over a file system whose calls may fail,
    Command (\<open>main.go\<close>, \<open>Run\<close>, \<open>TLSConfig\<close>), CommandRuns: commands one after the other on the same files.

  \<^bold>\<open>The tools.\<close>
  \<^item> Boundaries (\<open>tools/check-boundaries\<close>).  ClientJson (\<open>encoding/json\<close> without the strict decoder, as a client
    reads), Smoke (\<open>tools/smoke\<close>, run against the modelled commands and server).

  \<^bold>\<open>Interfaces.\<close>  The locales state contracts once and are interpreted on the operations: \<open>reading\<close> and
  \<open>atomic\<close> actions (Database), the actions \<open>keeping\<close> the invariant of the tables (StoreInv) and \<open>advancing\<close> them
  (History), \<open>serving\<close> every invariant of the server (ServerRuns), \<open>touching\<close> only some files (StateFiles) and \<open>tending\<close>
  the databases of a host (CommandRuns); \<open>keyed\<close> tables, \<open>row_order\<close>s, \<open>codec\<close>s and preorders on the tables (\<open>db_preorder\<close>,
  interpreted by the refinement of the pair book and by the typing of the columns) are contracts of the data.

  \<^bold>\<open>Properties.\<close>  StoreProperties: the invariant and the history of every run, what enrolment, login,
  invitation, minting and adoption guarantee, that deletion, disabling, revocation and spending are final.
  SessionProperties: no replay, both ends checked, leases verify, presence.  WireProperties: strictness and termination of
  the decoder, round trips, signing bytes that determine their message.  GateProperties: the budget, STUN,
  ports.  ServerProperties: all invariants and the types of all columns over all runs, the routing of
  requests, requests without credentials, error texts, attempts.  ServiceProperties: databases over
  all commands, restart, files.  ClientProperties: every answer is read back; the fate of the smoke test.  Samples and Evaluation hold a small concrete service and the code equations with which
  the witnesses are evaluated in the kernel.

  \<^bold>\<open>Bounds and fuel.\<close>  \<open>uniqueValue\<close> has the code's limit of nesting and a fuel of the bytes left, and
  \<open>uniqueValue_terminates\<close> shows it is enough on every input.  The reader of ClientJson has the limit of 10000 levels of
  \<open>encoding/json\<close> and the length of its input as fuel; what the server marshals needs less, by
  \<open>marshal_read\<close>.  Adoption draws its random bytes from a sequence, one element for each peer.
  Counters and revisions of tables are natural numbers; the sixty-four bits of wire numbers and the ports are bounded
  where the code parses them.

  \<^bold>\<open>Not modelled.\<close>  The engine that matches a path to a registered route (the gin library, a parameter of
  \<open>ServeHTTP\<close>; runs of the server take the route it found), response headers, TLS and websocket
  framing, the relay and the STUN codec (pion), SQLite itself and the cryptographic algorithms.  \<open>Store.Close\<close> and logging are left out.  The host is a POSIX one with a UTC clock; paths have no
  symbolic links.  Interleavings inside an operation on the store are those of its statements where a lemma says
  so, and whole calls elsewhere.
\<close>

end
